(* ===== verification/Prelude.thy ===== *)
theory Prelude
  imports Main "HOL-Library.Word" "HOL-Library.Monad_Syntax" "HOL-Library.Sublist"
begin

text \<open>
  Shared ground of the development: JavaScript strings and the string operations the sources
  use, lists under a computation that may throw, and the generic lemmas every component needs.

  A JavaScript string is a sequence of 16-bit code units, so \<open>jstr\<close> is a list of 16-bit
  words; \<open>lit ''...''\<close> is an ASCII literal of the source. A value of type \<open>'a option\<close>
  returned by a model function is the outcome of a call: \<open>Some v\<close> returns \<open>v\<close>, \<open>None\<close>
  is an uncaught \<open>TypeError\<close>.
\<close>

named_theorems str_simps \<open>evaluation of literals and string operations\<close>
named_theorems throw_simps \<open>evaluation of computations that may throw\<close>

section \<open>Code units and literals\<close>

type_synonym code_unit = "16 word"
type_synonym jstr = "code_unit list"

definition cu :: "char \<Rightarrow> code_unit" where
  [str_simps]: "cu c = of_char c"

definition lit :: "string \<Rightarrow> jstr" where
  [str_simps]: "lit s = map of_char s"

lemma of_char_code_unit_inject [simp]:
  "(of_char a :: code_unit) = of_char b \<longleftrightarrow> a = b"
proof
  assume eq: "(of_char a :: code_unit) = of_char b"
  have bits: "bit (of_char c :: code_unit) n \<longleftrightarrow> n < 8 \<and>
      [digit0 c, digit1 c, digit2 c, digit3 c, digit4 c, digit5 c, digit6 c, digit7 c] ! n"
    for c :: char and n
    unfolding of_char_def bit_horner_sum_bit_word_iff by (simp add: eval_nat_numeral)
  have nth: "[digit0 a, digit1 a, digit2 a, digit3 a, digit4 a, digit5 a, digit6 a, digit7 a] ! n =
      [digit0 b, digit1 b, digit2 b, digit3 b, digit4 b, digit5 b, digit6 b, digit7 b] ! n"
    if "n < 8" for n
    using bits [of a n] bits [of b n] that eq by simp
  have "digit0 a = digit0 b" using nth [of 0] by simp
  moreover have "digit1 a = digit1 b" using nth [of 1] by simp
  moreover have "digit2 a = digit2 b" using nth [of 2] by simp
  moreover have "digit3 a = digit3 b" using nth [of 3] by simp
  moreover have "digit4 a = digit4 b" using nth [of 4] by simp
  moreover have "digit5 a = digit5 b" using nth [of 5] by simp
  moreover have "digit6 a = digit6 b" using nth [of 6] by simp
  moreover have "digit7 a = digit7 b" using nth [of 7] by simp
  ultimately show "a = b" by (intro char.expand) blast
qed simp

lemma cu_inject [simp]: "cu a = cu b \<longleftrightarrow> a = b"
  by (simp add: cu_def)

lemma lit_inject [simp]: "lit a = lit b \<longleftrightarrow> a = b"
  unfolding lit_def by (rule inj_map_eq_map) (simp add: inj_def)

lemma lit_Nil [simp]: "lit [] = []"
  by (simp add: lit_def)

lemma lit_Cons: "lit (c # s) = cu c # lit s"
  by (simp add: lit_def cu_def)

lemma lit_append: "lit (s @ t) = lit s @ lit t"
  by (simp add: lit_def)

lemma lit_eq_Nil [simp]: "lit s = [] \<longleftrightarrow> s = []" "[] = lit s \<longleftrightarrow> s = []"
  by (auto simp: lit_def)

lemma length_lit [simp]: "length (lit s) = length s"
  by (simp add: lit_def)

text \<open>Line feed and carriage return, the two the sources name by escape.\<close>

abbreviation lf :: code_unit where "lf \<equiv> 10"
abbreviation cr :: code_unit where "cr \<equiv> 13"

section \<open>String operations\<close>

text \<open>
  White space as \<open>trim\<close>, \<open>trimEnd\<close> and \<open>\s\<close> read it: the ECMAScript white space and line
  terminator code units.
\<close>

definition is_ws :: "code_unit \<Rightarrow> bool" where
  [str_simps]: "is_ws u \<longleftrightarrow> u \<in> {9, 10, 11, 12, 13, 32, 160, 5760, 8232, 8233, 8239, 8287, 12288, 65279}
     \<or> 8192 \<le> u \<and> u \<le> 8202"

definition trim_end :: "jstr \<Rightarrow> jstr" where
  [str_simps]: "trim_end s = rev (dropWhile is_ws (rev s))"

definition trim :: "jstr \<Rightarrow> jstr" where
  [str_simps]: "trim s = trim_end (dropWhile is_ws s)"

text \<open>\<open>s.indexOf(p)\<close> as an option, and with the code's \<open>-1\<close>.\<close>

fun find_sub :: "'a list \<Rightarrow> 'a list \<Rightarrow> nat option" where
  "find_sub p [] = (if p = [] then Some 0 else None)"
| "find_sub p (y # ys) =
     (if prefix p (y # ys) then Some 0 else map_option Suc (find_sub p ys))"

definition has_sub :: "'a list \<Rightarrow> 'a list \<Rightarrow> bool" where
  "has_sub s p \<longleftrightarrow> find_sub p s \<noteq> None"

definition js_index :: "nat option \<Rightarrow> int" where
  [str_simps]: "js_index r = (case r of None \<Rightarrow> -1 | Some n \<Rightarrow> int n)"

definition index_of :: "'a list \<Rightarrow> 'a list \<Rightarrow> int" where
  [str_simps]: "index_of s p = js_index (find_sub p s)"

text \<open>\<open>s.lastIndexOf(c)\<close> for a single code unit.\<close>

fun last_index_of :: "'a list \<Rightarrow> 'a \<Rightarrow> int" where
  "last_index_of [] c = -1"
| "last_index_of (x # xs) c =
     (let r = last_index_of xs c in
      if 0 \<le> r then r + 1 else if x = c then 0 else -1)"

text \<open>\<open>s.slice(a, b)\<close> and \<open>s.slice(a)\<close> for non-negative bounds.\<close>

definition slice :: "'a list \<Rightarrow> nat \<Rightarrow> nat \<Rightarrow> 'a list" where
  [str_simps]: "slice s a b = take (b - a) (drop a s)"

text \<open>\<open>s.split(c)\<close> and \<open>xs.join(sep)\<close>.\<close>

fun split_on :: "'a \<Rightarrow> 'a list \<Rightarrow> 'a list list" where
  "split_on c [] = [[]]"
| "split_on c (x # xs) =
     (if x = c then [] # split_on c xs
      else case split_on c xs of [] \<Rightarrow> [[x]] | w # ws \<Rightarrow> (x # w) # ws)"

fun join :: "'a list \<Rightarrow> 'a list list \<Rightarrow> 'a list" where
  "join sep [] = []"
| "join sep [x] = x"
| "join sep (x # y # xs) = x @ sep @ join sep (y # xs)"

definition ends_with :: "'a list \<Rightarrow> 'a list \<Rightarrow> bool" where
  [str_simps]: "ends_with s p \<longleftrightarrow> prefix (rev p) (rev s)"

text \<open>\<open>s.replace(/p/g, r)\<close> for a literal non-empty pattern.\<close>

function replace_all :: "'a list \<Rightarrow> 'a list \<Rightarrow> 'a list \<Rightarrow> 'a list" where
  "replace_all p r [] = []"
| "replace_all p r (x # xs) =
     (if p \<noteq> [] \<and> prefix p (x # xs) then r @ replace_all p r (drop (length p) (x # xs))
      else x # replace_all p r xs)"
  by pat_completeness auto
termination
  by (relation "measure (\<lambda>(p, r, s). length s)") auto

definition ascii_lower :: "code_unit \<Rightarrow> code_unit" where
  [str_simps]: "ascii_lower u = (if 65 \<le> u \<and> u \<le> 90 then u + 32 else u)"

definition ascii_upper :: "code_unit \<Rightarrow> code_unit" where
  [str_simps]: "ascii_upper u = (if 97 \<le> u \<and> u \<le> 122 then u - 32 else u)"

definition is_digit :: "code_unit \<Rightarrow> bool" where
  [str_simps]: "is_digit u \<longleftrightarrow> 48 \<le> u \<and> u \<le> 57"

text \<open>Decimal text of natural numbers and integers, and its reader.\<close>

fun nat_text :: "nat \<Rightarrow> jstr" where
  "nat_text n = (if n < 10 then [48 + of_nat n]
                 else nat_text (n div 10) @ [48 + of_nat (n mod 10)])"

declare nat_text.simps [simp del]

definition int_text :: "int \<Rightarrow> jstr" where
  "int_text i = (if i < 0 then cu CHR ''-'' # nat_text (nat (- i)) else nat_text (nat i))"

definition digit_value :: "code_unit \<Rightarrow> nat" where
  [str_simps]: "digit_value u = unat u - 48"

definition text_nat :: "jstr \<Rightarrow> nat" where
  "text_nat s = fold (\<lambda>d n. 10 * n + digit_value d) s 0"

section \<open>Laws of the string operations\<close>

lemma find_sub_Some:
  "find_sub p s = Some n \<Longrightarrow> n + length p \<le> length s \<and> take (length p) (drop n s) = p"
proof (induction s arbitrary: n)
  case (Cons y ys)
  show ?case
  proof (cases "prefix p (y # ys)")
    case True
    with Cons.prems have "n = 0" by simp
    with True prefix_length_le [OF True] show ?thesis by (auto simp: prefix_def)
  next
    case False
    with Cons.prems obtain m where "find_sub p ys = Some m" "n = Suc m" by auto
    with Cons.IH [of m] show ?thesis by simp
  qed
qed (auto split: if_splits)

lemma find_sub_None: "find_sub p s = None \<longleftrightarrow> \<not> sublist p s"
  by (induction s) (auto simp: sublist_Cons_right)

lemma has_sub_iff: "has_sub s p \<longleftrightarrow> sublist p s"
  using find_sub_None [of p s] by (auto simp: has_sub_def)

lemma find_sub_least: "find_sub p s = Some n \<Longrightarrow> k < n \<Longrightarrow> \<not> prefix p (drop k s)"
proof (induction s arbitrary: n k)
  case (Cons y ys)
  then show ?case by (cases k) (auto split: if_splits)
qed (auto split: if_splits)

lemma split_on_nonempty [simp]: "split_on c s \<noteq> []"
  by (induction s) (auto split: list.splits)

lemma join_Cons: "ws \<noteq> [] \<Longrightarrow> join sep (w # ws) = w @ sep @ join sep ws"
  by (cases ws) auto

lemma join_Cons_head [simp]: "join sep ((x # w) # ws) = x # join sep (w # ws)"
  by (cases ws) auto

lemma join_split [simp]: "join [c] (split_on c s) = s"
proof (induction s)
  case (Cons x xs)
  then show ?case
    by (cases "split_on c xs") (auto simp: join_Cons neq_Nil_conv)
qed simp

lemma split_on_no_sep: "w \<in> set (split_on c s) \<Longrightarrow> c \<notin> set w"
proof (induction s arbitrary: w)
  case (Cons x xs)
  then show ?case by (cases "split_on c xs") (auto split: if_splits)
qed simp

lemma split_on_id: "c \<notin> set s \<Longrightarrow> split_on c s = [s]"
  by (induction s) auto

lemma split_on_append_sep: "c \<notin> set s \<Longrightarrow> split_on c (s @ c # t) = s # split_on c t"
  by (induction s) auto

lemma split_on_append: "split_on c (a @ c # b) = split_on c a @ split_on c b"
proof (induction a)
  case (Cons x a)
  then show ?case by (cases "split_on c a") auto
qed simp

lemma split_join:
  "ws \<noteq> [] \<Longrightarrow> (\<And>w. w \<in> set ws \<Longrightarrow> c \<notin> set w) \<Longrightarrow> split_on c (join [c] ws) = ws"
proof (induction ws rule: induct_list012)
  case (3 x y zs)
  then show ?case by (simp add: split_on_append_sep)
qed (auto simp: split_on_id)

lemma ends_with_iff: "ends_with s p \<longleftrightarrow> suffix p s"
  by (simp add: ends_with_def suffix_to_prefix)

lemma split_on_snoc_sep: "split_on c (s @ [c]) = split_on c s @ [[]]"
  by (induction s) (auto split: list.splits)

lemma last_index_of_bounds: "- 1 \<le> last_index_of s c \<and> last_index_of s c < int (length s)"
  by (induction s) (auto simp: Let_def)

lemma last_index_of_None: "last_index_of s c < 0 \<longleftrightarrow> c \<notin> set s"
  by (induction s) (auto simp: Let_def)

lemma last_index_of_split:
  "c \<notin> set t \<Longrightarrow> last_index_of (s @ c # t) c = int (length s)"
proof (induction s)
  case Nil
  then show ?case using last_index_of_None [of t c] by (simp add: Let_def)
qed (simp add: Let_def)

lemma last_index_of_append:
  "last_index_of (a @ b) c =
     (if c \<in> set b then int (length a) + last_index_of b c else last_index_of a c)"
proof (induction a)
  case Nil
  then show ?case using last_index_of_None [of b c] last_index_of_bounds [of b c] by auto
next
  case (Cons x a)
  then show ?case using last_index_of_None [of b c] by (auto simp: Let_def)
qed

lemma last_index_of_drop:
  assumes "last_index_of s c < int n"
  shows "c \<notin> set (drop n s)"
proof
  assume in_rest: "c \<in> set (drop n s)"
  then have "n < length s" by (metis drop_all empty_iff empty_set not_less)
  with in_rest have "last_index_of s c = int n + last_index_of (drop n s) c"
    using last_index_of_append [of "take n s" "drop n s" c] by simp
  with assms have "last_index_of (drop n s) c < 0" by simp
  with in_rest last_index_of_None show False by metis
qed

text \<open>Every list is cut after its last separator.\<close>

lemma split_last_component:
  "\<exists>a. s = a @ last (split_on c s) \<and> c \<notin> set (last (split_on c s)) \<and>
     last_index_of s c = int (length a) - 1 \<and> (a = [] \<or> last a = c)"
proof (cases "c \<in> set s")
  case False
  then show ?thesis
    using last_index_of_None [of s c] last_index_of_bounds [of s c] by (simp add: split_on_id)
next
  case True
  then obtain a b where s: "s = a @ c # b" "c \<notin> set b" by (meson split_list_last)
  then show ?thesis
    using last_index_of_split [of c b a]
    by (intro exI [of _ "a @ [c]"]) (simp add: split_on_append split_on_id)
qed

lemma trim_end_idem [simp]: "trim_end (trim_end s) = trim_end s"
  by (simp add: trim_end_def)

lemma trim_Nil [simp]: "trim [] = []"
  by (simp add: trim_def trim_end_def)

lemma trim_Nil_iff: "trim s = [] \<longleftrightarrow> list_all is_ws s"
proof -
  have "trim s = [] \<longleftrightarrow> list_all is_ws (dropWhile is_ws s)"
    by (simp add: trim_def trim_end_def list_all_iff dropWhile_eq_Nil_conv)
  also have "\<dots> \<longleftrightarrow> list_all is_ws s" by (induction s) auto
  finally show ?thesis .
qed

subsection \<open>Decimal text\<close>

lemma is_digit_of_nat: "n < 10 \<Longrightarrow> is_digit (48 + of_nat n)"
proof -
  assume "n < 10"
  then have "n \<in> {0, 1, 2, 3, 4, 5, 6, 7, 8, 9}" by auto
  then show ?thesis by (auto simp: is_digit_def)
qed

lemma digit_value_of_nat: "n < 10 \<Longrightarrow> digit_value (48 + of_nat n) = n"
proof -
  assume "n < 10"
  then have "n \<in> {0, 1, 2, 3, 4, 5, 6, 7, 8, 9}" by auto
  then show ?thesis by (auto simp: digit_value_def)
qed

lemma nat_text_nonempty [simp]: "nat_text n \<noteq> []"
  by (subst nat_text.simps) simp

lemma nat_text_digits: "u \<in> set (nat_text n) \<Longrightarrow> is_digit u"
proof (induction n rule: nat_text.induct)
  case (1 n)
  show ?case
  proof (cases "n < 10")
    case True
    with "1.prems" show ?thesis by (simp add: nat_text.simps [of n] is_digit_of_nat)
  next
    case False
    with "1.prems" have "u \<in> set (nat_text (n div 10)) \<or> u = 48 + of_nat (n mod 10)"
      by (auto simp: nat_text.simps [of n])
    with False "1.IH" show ?thesis by (auto intro: is_digit_of_nat)
  qed
qed

lemma text_nat_text [simp]: "text_nat (nat_text n) = n"
proof (induction n rule: nat_text.induct)
  case (1 n)
  show ?case
  proof (cases "n < 10")
    case True
    then show ?thesis by (simp add: nat_text.simps [of n] text_nat_def digit_value_of_nat)
  next
    case False
    with "1.IH" have "text_nat (nat_text (n div 10)) = n div 10" by simp
    with False show ?thesis
      by (simp add: nat_text.simps [of n] text_nat_def digit_value_of_nat)
  qed
qed

lemma nat_text_inject [simp]: "nat_text m = nat_text n \<longleftrightarrow> m = n"
  using text_nat_text by metis

section \<open>Lists under a computation that may throw\<close>

abbreviation traverse :: "('a \<Rightarrow> 'b option) \<Rightarrow> 'a list \<Rightarrow> 'b list option" where
  "traverse f xs \<equiv> those (map f xs)"

text \<open>\<open>forEach\<close> with the index, the index as a natural number.\<close>

definition traverse_indexed :: "(nat \<Rightarrow> 'a \<Rightarrow> 'b option) \<Rightarrow> 'a list \<Rightarrow> 'b list option" where
  "traverse_indexed f xs = traverse (\<lambda>(i, x). f i x) (enumerate 0 xs)"

lemma those_Some_iff: "those os = Some xs \<longleftrightarrow> os = map Some xs"
proof (induction os arbitrary: xs)
  case (Cons a os)
  then show ?case by (cases xs) (auto split: option.splits)
qed auto

lemma those_None_iff: "those os = None \<longleftrightarrow> None \<in> set os"
  by (induction os) (auto split: option.splits)

lemma those_map_Some [simp]: "those (map (\<lambda>x. Some (f x)) xs) = Some (map f xs)"
  by (induction xs) auto

lemma traverse_Some_iff:
  "traverse f xs = Some ys \<longleftrightarrow> list_all2 (\<lambda>x y. f x = Some y) xs ys"
proof (induction xs arbitrary: ys)
  case (Cons x xs)
  then show ?case by (cases ys) (auto split: option.splits)
qed auto

lemma traverse_length: "traverse f xs = Some ys \<Longrightarrow> length ys = length xs"
  by (auto simp: traverse_Some_iff dest: list_all2_lengthD)

lemma traverse_mem:
  "traverse f xs = Some ys \<Longrightarrow> y \<in> set ys \<Longrightarrow> \<exists>x \<in> set xs. f x = Some y"
  unfolding traverse_Some_iff list_all2_conv_all_nth in_set_conv_nth [of y]
  using nth_mem [of _ xs] by metis

lemma traverse_None_iff: "traverse f xs = None \<longleftrightarrow> (\<exists>x \<in> set xs. f x = None)"
  unfolding those_None_iff by force

lemma traverse_total: "(\<And>x. x \<in> set xs \<Longrightarrow> f x \<noteq> None) \<Longrightarrow> \<exists>ys. traverse f xs = Some ys"
  by (metis not_None_eq traverse_None_iff)

lemma traverse_indexed_None_iff:
  "traverse_indexed f xs = None \<longleftrightarrow> (\<exists>i < length xs. f i (xs ! i) = None)"
  unfolding traverse_indexed_def traverse_None_iff
  by (force simp: in_set_conv_nth nth_enumerate_eq)

lemma traverse_indexed_nth:
  "traverse_indexed f xs = Some ys \<Longrightarrow>
     length ys = length xs \<and> (\<forall>i < length xs. f i (xs ! i) = Some (ys ! i))"
  unfolding traverse_indexed_def traverse_Some_iff
  by (auto simp: list_all2_conv_all_nth nth_enumerate_eq)

lemma traverse_indexed_total:
  "(\<And>i x. x \<in> set xs \<Longrightarrow> f i x \<noteq> None) \<Longrightarrow> \<exists>ys. traverse_indexed f xs = Some ys"
  by (metis nth_mem option.exhaust traverse_indexed_None_iff)

lemma traverse_indexed_mem:
  "traverse_indexed f xs = Some ys \<Longrightarrow> y \<in> set ys \<Longrightarrow> \<exists>i < length xs. f i (xs ! i) = Some y"
  by (metis in_set_conv_nth traverse_indexed_nth)

lemma bind_eq_None: "Option.bind m f = None \<longleftrightarrow> m = None \<or> (\<exists>x. m = Some x \<and> f x = None)"
  by (cases m) auto

text \<open>Computations in sequence throw when one of them does, if none depends on another's result.\<close>

lemma bind_const_None [throw_simps]:
  "(\<And>x. f x = None \<longleftrightarrow> P) \<Longrightarrow> Option.bind m f = None \<longleftrightarrow> m = None \<or> P"
  by (cases m) auto

lemma bind_Some_None [simp]: "Option.bind m (\<lambda>x. Some (f x)) = None \<longleftrightarrow> m = None"
  by (cases m) auto

lemma bind_eq_SomeD: "Option.bind m f = Some y \<Longrightarrow> \<exists>x. m = Some x \<and> f x = Some y"
  by (cases m) auto

lemma list_all2_mapD: "list_all2 (\<lambda>x y. f y = g x) xs ys \<Longrightarrow> map f ys = map g xs"
  by (induction rule: list_all2_induct) auto

lemma map_enumerate_fst: "map fst (enumerate n xs) = [n..<n + length xs]"
  by (simp add: map_fst_enumerate)

end
