(* ===== verification/FormatDiff.thy ===== *)
theory FormatDiff
  imports Prelude
begin

text \<open>
  The line diff of the formatting preview (\<open>format-diff.js\<close>): splitting into lines, the
  prefix/suffix alignment used for large inputs, the longest-common-subsequence matrix of
  32-bit cells, the walk over it, and \<open>buildLineDiff\<close>. The locale \<open>line_alignment\<close> states what
  an alignment owes its reader; both alignments of the code interpret it.
\<close>

section \<open>Model\<close>

datatype row_type = Context | Removed | Added

record diff_row =
  rtype :: row_type
  before_number :: "nat option"
  after_number :: "nat option"
  row_text :: jstr

text \<open>\<open>replace(/\r\n?/g, "\n")\<close>.\<close>

fun normalize_eol :: "jstr \<Rightarrow> jstr" where
  "normalize_eol [] = []"
| "normalize_eol [u] = [if u = cr then lf else u]"
| "normalize_eol (u # v # us) =
     (if u = cr then (if v = lf then lf # normalize_eol us else lf # normalize_eol (v # us))
      else u # normalize_eol (v # us))"

definition lines :: "jstr \<Rightarrow> jstr list" where
  "lines source =
     (let normalized = normalize_eol source in
      if normalized = [] then []
      else let values = split_on lf normalized in
        if ends_with normalized [lf] then butlast values else values)"

text \<open>The two counting loops of \<open>replacementRows\<close>.\<close>

function prefix_loop :: "jstr list \<Rightarrow> jstr list \<Rightarrow> nat \<Rightarrow> nat" where
  "prefix_loop previous nxt p =
     (if p < length previous \<and> p < length nxt \<and> previous ! p = nxt ! p
      then prefix_loop previous nxt (p + 1) else p)"
  by pat_completeness auto
termination
  by (relation "measure (\<lambda>(previous, nxt, p). length previous - p)") auto

function suffix_loop :: "jstr list \<Rightarrow> jstr list \<Rightarrow> nat \<Rightarrow> nat \<Rightarrow> nat" where
  "suffix_loop previous nxt p s =
     (if s < length previous - p \<and> s < length nxt - p
         \<and> previous ! (length previous - s - 1) = nxt ! (length nxt - s - 1)
      then suffix_loop previous nxt p (s + 1) else s)"
  by pat_completeness auto
termination
  by (relation "measure (\<lambda>(previous, nxt, p, s). length previous - s)") auto

declare prefix_loop.simps [simp del] suffix_loop.simps [simp del]

definition replacement_rows :: "jstr list \<Rightarrow> jstr list \<Rightarrow> diff_row list" where
  "replacement_rows previous nxt =
     (let p = prefix_loop previous nxt 0;
          s = suffix_loop previous nxt p 0
      in map (\<lambda>(index, text). \<lparr>rtype = Context, before_number = Some (index + 1),
              after_number = Some (index + 1), row_text = text\<rparr>)
            (enumerate 0 (slice previous 0 p))
         @ map (\<lambda>(index, text). \<lparr>rtype = Removed, before_number = Some (p + index + 1),
              after_number = None, row_text = text\<rparr>)
            (enumerate 0 (slice previous p (length previous - s)))
         @ map (\<lambda>(index, text). \<lparr>rtype = Added, before_number = None,
              after_number = Some (p + index + 1), row_text = text\<rparr>)
            (enumerate 0 (slice nxt p (length nxt - s)))
         @ map (\<lambda>(index, text). \<lparr>rtype = Context,
              before_number = Some (length previous - s + index + 1),
              after_number = Some (length nxt - s + index + 1), row_text = text\<rparr>)
            (enumerate 0 (drop (length previous - s) previous)))"

text \<open>
  The alignment matrix: one \<open>Uint32Array\<close> per row, so a cell is a 32-bit word and its
  increment wraps. The loops run from the last index down to 0.
\<close>

type_synonym matrix = "32 word list list"

definition cell :: "matrix \<Rightarrow> nat \<Rightarrow> nat \<Rightarrow> 32 word" where
  "cell m i j = m ! i ! j"

definition cell_value :: "jstr list \<Rightarrow> jstr list \<Rightarrow> matrix \<Rightarrow> nat \<Rightarrow> nat \<Rightarrow> 32 word" where
  "cell_value previous nxt m i j =
     (if previous ! i = nxt ! j then cell m (i + 1) (j + 1) + 1
      else max (cell m (i + 1) j) (cell m i (j + 1)))"

fun fill_cells :: "jstr list \<Rightarrow> jstr list \<Rightarrow> nat \<Rightarrow> nat \<Rightarrow> matrix \<Rightarrow> matrix" where
  "fill_cells previous nxt i 0 m = m"
| "fill_cells previous nxt i (Suc j) m =
     fill_cells previous nxt i j (m[i := (m ! i)[j := cell_value previous nxt m i j]])"

fun fill_rows :: "jstr list \<Rightarrow> jstr list \<Rightarrow> nat \<Rightarrow> matrix \<Rightarrow> matrix" where
  "fill_rows previous nxt 0 m = m"
| "fill_rows previous nxt (Suc i) m =
     fill_rows previous nxt i (fill_cells previous nxt i (length nxt) m)"

definition alignment_matrix :: "jstr list \<Rightarrow> jstr list \<Rightarrow> matrix" where
  "alignment_matrix previous nxt =
     fill_rows previous nxt (length previous)
       (replicate (length previous + 1) (replicate (length nxt + 1) 0))"

text \<open>The walk. Nothing in the loop alone makes it stop, so not returning is \<open>None\<close>.\<close>

partial_function (option) walk ::
  "jstr list \<Rightarrow> jstr list \<Rightarrow> matrix \<Rightarrow> nat \<Rightarrow> nat \<Rightarrow> diff_row list \<Rightarrow> diff_row list option" where
  "walk previous nxt m i j rows =
     (if i < length previous \<or> j < length nxt then
        if i < length previous \<and> j < length nxt \<and> previous ! i = nxt ! j then
          walk previous nxt m (i + 1) (j + 1)
            (rows @ [\<lparr>rtype = Context, before_number = Some (i + 1),
               after_number = Some (j + 1), row_text = previous ! i\<rparr>])
        else if j < length nxt
            \<and> (i = length previous \<or> cell m (i + 1) j < cell m i (j + 1)) then
          walk previous nxt m i (j + 1)
            (rows @ [\<lparr>rtype = Added, before_number = None,
               after_number = Some (j + 1), row_text = nxt ! j\<rparr>])
        else
          walk previous nxt m (i + 1) j
            (rows @ [\<lparr>rtype = Removed, before_number = Some (i + 1),
               after_number = None, row_text = previous ! i\<rparr>])
      else Some rows)"

datatype newline_change = Newline_added | Newline_removed

record line_diff =
  rows :: "diff_row list"
  added :: nat
  removed :: nat
  simplified :: bool
  newline_change :: "newline_change option"
  line_endings_changed :: bool

definition alignment_limit :: nat where
  "alignment_limit = 1000000"

definition count_type :: "row_type \<Rightarrow> diff_row list \<Rightarrow> nat" where
  "count_type t rs = length (filter (\<lambda>r. rtype r = t) rs)"

definition build_line_diff :: "jstr \<Rightarrow> jstr \<Rightarrow> line_diff option" where
  "build_line_diff before after =
     (let previous = lines before;
          nxt = lines after;
          result = (\<lambda>rs simple. \<lparr>rows = rs, added = count_type Added rs,
            removed = count_type Removed rs, simplified = simple,
            newline_change =
              (if ends_with before [lf] = ends_with after [lf] then None
               else Some (if ends_with after [lf] then Newline_added else Newline_removed)),
            line_endings_changed = ((cr \<in> set before) \<noteq> (cr \<in> set after))\<rparr>)
      in if length previous * length nxt > alignment_limit
         then Some (result (replacement_rows previous nxt) True)
         else map_option (\<lambda>rs. result rs False)
           (walk previous nxt (alignment_matrix previous nxt) 0 0 []))"

section \<open>The contract of an alignment\<close>

text \<open>
  The two columns of a diff: the numbered lines a reader finds under \<open>Before\<close> and under
  \<open>After\<close>. An alignment is right when these are the numbered lines of its two inputs.
\<close>

definition before_side :: "diff_row list \<Rightarrow> (nat option \<times> jstr) list" where
  "before_side rs = map (\<lambda>r. (before_number r, row_text r)) (filter (\<lambda>r. rtype r \<noteq> Added) rs)"

definition after_side :: "diff_row list \<Rightarrow> (nat option \<times> jstr) list" where
  "after_side rs = map (\<lambda>r. (after_number r, row_text r)) (filter (\<lambda>r. rtype r \<noteq> Removed) rs)"

definition numbered_from :: "nat \<Rightarrow> jstr list \<Rightarrow> (nat option \<times> jstr) list" where
  "numbered_from k xs = map (\<lambda>(i, x). (Some (i + 1), x)) (enumerate k xs)"

definition context_text :: "diff_row list \<Rightarrow> jstr list" where
  "context_text rs = map row_text (filter (\<lambda>r. rtype r = Context) rs)"

lemma numbered_from_simps [simp]:
  "numbered_from k [] = []"
  "numbered_from k (x # xs) = (Some (k + 1), x) # numbered_from (Suc k) xs"
  "length (numbered_from k xs) = length xs"
  "map snd (numbered_from k xs) = xs"
proof -
  show "map snd (numbered_from k xs) = xs"
    by (induction xs arbitrary: k) (auto simp: numbered_from_def)
qed (simp_all add: numbered_from_def)

lemma numbered_from_append:
  "numbered_from k (xs @ ys) = numbered_from k xs @ numbered_from (k + length xs) ys"
  by (induction xs arbitrary: k) auto

lemma side_append [simp]:
  "before_side (rs @ qs) = before_side rs @ before_side qs"
  "after_side (rs @ qs) = after_side rs @ after_side qs"
  "count_type t (rs @ qs) = count_type t rs + count_type t qs"
  "context_text (rs @ qs) = context_text rs @ context_text qs"
  by (simp_all add: before_side_def after_side_def count_type_def context_text_def)

lemma side_Nil [simp]:
  "before_side [] = []" "after_side [] = []" "count_type t [] = 0" "context_text [] = []"
  by (simp_all add: before_side_def after_side_def count_type_def context_text_def)

lemma side_Cons:
  "before_side (r # rs) =
     (if rtype r = Added then [] else [(before_number r, row_text r)]) @ before_side rs"
  "after_side (r # rs) =
     (if rtype r = Removed then [] else [(after_number r, row_text r)]) @ after_side rs"
  "count_type t (r # rs) = (if rtype r = t then 1 else 0) + count_type t rs"
  "context_text (r # rs) = (if rtype r = Context then [row_text r] else []) @ context_text rs"
  by (simp_all add: before_side_def after_side_def count_type_def context_text_def)

text \<open>What holds of any row list, whatever produced it.\<close>

lemma count_before: "count_type Context rs + count_type Removed rs = length (before_side rs)"
proof (induction rs)
  case (Cons r rs)
  then show ?case by (cases "rtype r") (auto simp: side_Cons)
qed simp

lemma count_after: "count_type Context rs + count_type Added rs = length (after_side rs)"
proof (induction rs)
  case (Cons r rs)
  then show ?case by (cases "rtype r") (auto simp: side_Cons)
qed simp

lemma context_subseq_before: "subseq (context_text rs) (map snd (before_side rs))"
proof (induction rs)
  case (Cons r rs)
  then show ?case by (cases "rtype r") (auto simp: side_Cons)
qed simp

lemma context_subseq_after: "subseq (context_text rs) (map snd (after_side rs))"
proof (induction rs)
  case (Cons r rs)
  then show ?case by (cases "rtype r") (auto simp: side_Cons)
qed simp

lemma length_context_text: "length (context_text rs) = count_type Context rs"
  by (simp add: context_text_def count_type_def)

text \<open>
  A diff shows \<open>previous\<close> and \<open>nxt\<close> when its columns are their numbered lines.
\<close>

definition shows_diff :: "jstr list \<Rightarrow> jstr list \<Rightarrow> diff_row list \<Rightarrow> bool" where
  "shows_diff previous nxt rs \<longleftrightarrow>
     before_side rs = numbered_from 0 previous \<and> after_side rs = numbered_from 0 nxt"

text \<open>
  The contract of an alignment routine on the inputs it is used for (\<open>covers\<close>): it returns,
  and what it returns shows the two inputs.
\<close>

locale line_alignment =
  fixes align :: "jstr list \<Rightarrow> jstr list \<Rightarrow> diff_row list option"
    and covers :: "jstr list \<Rightarrow> jstr list \<Rightarrow> bool"
  assumes returns: "covers p n \<Longrightarrow> \<exists>rs. align p n = Some rs"
    and shows_inputs: "covers p n \<Longrightarrow> align p n = Some rs \<Longrightarrow> shows_diff p n rs"
begin

lemma removed_count:
  "covers p n \<Longrightarrow> align p n = Some rs \<Longrightarrow> count_type Context rs + count_type Removed rs = length p"
  using shows_inputs [of p n rs] count_before [of rs] by (simp add: shows_diff_def)

lemma added_count:
  "covers p n \<Longrightarrow> align p n = Some rs \<Longrightarrow> count_type Context rs + count_type Added rs = length n"
  using shows_inputs [of p n rs] count_after [of rs] by (simp add: shows_diff_def)

lemma context_common:
  "covers p n \<Longrightarrow> align p n = Some rs \<Longrightarrow>
     subseq (context_text rs) p \<and> subseq (context_text rs) n"
  using shows_inputs [of p n rs] context_subseq_before [of rs] context_subseq_after [of rs]
  by (simp add: shows_diff_def)

lemma all_context_if_unchanged:
  assumes "covers p n" "align p n = Some rs" "count_type Added rs = 0" "count_type Removed rs = 0"
  shows "p = n"
proof -
  have "length (context_text rs) = length p" "length (context_text rs) = length n"
    using removed_count [OF assms(1,2)] added_count [OF assms(1,2)] assms(3,4)
    by (simp_all add: length_context_text)
  with context_common [OF assms(1,2)] show ?thesis
    by (metis subseq_same_length)
qed

end

section \<open>The longest common subsequence\<close>

fun lcs :: "'a list \<Rightarrow> 'a list \<Rightarrow> nat" where
  "lcs [] ys = 0"
| "lcs (x # xs) [] = 0"
| "lcs (x # xs) (y # ys) =
     (if x = y then Suc (lcs xs ys) else max (lcs xs (y # ys)) (lcs (x # xs) ys))"

lemma lcs_Nil2 [simp]: "lcs xs [] = 0"
  by (cases xs) auto

lemma lcs_bound: "lcs xs ys \<le> min (length xs) (length ys)"
  by (induction xs ys rule: lcs.induct) auto

lemma lcs_refl [simp]: "lcs xs xs = length xs"
  by (induction xs) auto

text \<open>No common subsequence is longer; the reader of a diff cannot be shown fewer changes.\<close>

lemma lcs_upper: "subseq zs xs \<Longrightarrow> subseq zs ys \<Longrightarrow> length zs \<le> lcs xs ys"
proof (induction xs ys arbitrary: zs rule: lcs.induct)
  case (3 x xs y ys)
  show ?case
  proof (cases zs)
    case Nil
    then show ?thesis by simp
  next
    case (Cons z zs')
    show ?thesis
    proof (cases "x = y")
      case True
      have "subseq zs' xs" "subseq zs' ys"
        using "3.prems" Cons by (metis subseq_Cons' subseq_Cons2_iff)+
      with "3.IH"(1) [OF True] True Cons show ?thesis by simp
    next
      case False
      then have "subseq zs xs \<and> subseq zs (y # ys) \<or> subseq zs (x # xs) \<and> subseq zs ys"
        using "3.prems" Cons by (metis subseq_Cons2_iff)
      with "3.IH"(2,3) [OF False] False show ?thesis
        by (auto intro: le_trans simp: le_max_iff_disj)
    qed
  qed
qed auto

locale optimal_alignment = line_alignment +
  assumes optimal: "covers p n \<Longrightarrow> align p n = Some rs \<Longrightarrow> count_type Context rs = lcs p n"
begin

lemma fewest_changes:
  assumes "covers p n" "align p n = Some rs" "shows_diff p n qs"
  shows "count_type Added rs + count_type Removed rs \<le> count_type Added qs + count_type Removed qs"
proof -
  have "count_type Context qs \<le> lcs p n"
    using lcs_upper [of "context_text qs" p n] assms(3)
      context_subseq_before [of qs] context_subseq_after [of qs]
    by (simp add: shows_diff_def length_context_text)
  then show ?thesis
    using optimal [OF assms(1,2)] removed_count [OF assms(1,2)] added_count [OF assms(1,2)]
      count_before [of qs] count_after [of qs] assms(3)
    by (simp add: shows_diff_def)
qed

lemma unchanged_if_equal:
  assumes "covers p p" "align p p = Some rs"
  shows "count_type Added rs = 0 \<and> count_type Removed rs = 0"
  using optimal [OF assms] removed_count [OF assms] added_count [OF assms] by simp

end

section \<open>The matrix holds the lengths of the common subsequences\<close>

definition shaped :: "jstr list \<Rightarrow> jstr list \<Rightarrow> matrix \<Rightarrow> bool" where
  "shaped p n m \<longleftrightarrow> length m = length p + 1 \<and> (\<forall>row \<in> set m. length row = length n + 1)"

definition lcs_at :: "jstr list \<Rightarrow> jstr list \<Rightarrow> nat \<Rightarrow> nat \<Rightarrow> nat" where
  "lcs_at p n i j = lcs (drop i p) (drop j n)"

text \<open>Rows from \<open>i\<close> on are right, and in row \<open>i\<close> itself the cells from \<open>j\<close> on.\<close>

definition filled :: "jstr list \<Rightarrow> jstr list \<Rightarrow> matrix \<Rightarrow> nat \<Rightarrow> nat \<Rightarrow> bool" where
  "filled p n m i j \<longleftrightarrow> shaped p n m \<and>
     (\<forall>a b. i < a \<and> a \<le> length p \<and> b \<le> length n \<longrightarrow> unat (cell m a b) = lcs_at p n a b) \<and>
     (\<forall>b. i \<le> length p \<and> j \<le> b \<and> b \<le> length n \<longrightarrow> unat (cell m i b) = lcs_at p n i b) \<and>
     (\<forall>a < i. a \<le> length p \<longrightarrow> cell m a (length n) = 0)"

lemma lcs_at_bound: "lcs_at p n i j \<le> length p" "lcs_at p n i j \<le> length n"
  using lcs_bound [of "drop i p" "drop j n"] by (auto simp: lcs_at_def)

lemma lcs_at_step:
  "i < length p \<Longrightarrow> j < length n \<Longrightarrow>
     lcs_at p n i j = (if p ! i = n ! j then Suc (lcs_at p n (i + 1) (j + 1))
                       else max (lcs_at p n (i + 1) j) (lcs_at p n i (j + 1)))"
  by (simp add: lcs_at_def Cons_nth_drop_Suc [symmetric])

lemma lcs_at_edge [simp]: "lcs_at p n (length p) j = 0" "lcs_at p n i (length n) = 0"
  by (simp_all add: lcs_at_def)

lemma shaped_update [simp]: "shaped p n m \<Longrightarrow> i < length m \<Longrightarrow> shaped p n (m[i := (m ! i)[j := v]])"
  by (auto simp: shaped_def dest!: set_update_subset_insert [THEN subsetD])

lemma cell_update:
  "shaped p n m \<Longrightarrow> i \<le> length p \<Longrightarrow> j \<le> length n \<Longrightarrow> a \<le> length p \<Longrightarrow> b \<le> length n \<Longrightarrow>
     cell (m[i := (m ! i)[j := v]]) a b = (if a = i \<and> b = j then v else cell m a b)"
  by (auto simp: cell_def shaped_def nth_list_update)

lemma unat_max: "unat (max a b) = max (unat a) (unat (b :: 'w::len word))"
  by (simp add: max_def word_le_nat_alt)

lemma cell_value_right:
  assumes "filled p n m i (Suc j)" "i < length p" "j < length n"
    and small: "min (length p) (length n) < 2 ^ 32"
  shows "unat (cell_value p n m i j) = lcs_at p n i j"
proof -
  have right: "unat (cell m (i + 1) (j + 1)) = lcs_at p n (i + 1) (j + 1)"
    "unat (cell m (i + 1) j) = lcs_at p n (i + 1) j"
    "unat (cell m i (j + 1)) = lcs_at p n i (j + 1)"
    using assms(1-3) by (auto simp: filled_def)
  have "lcs_at p n i j < 2 ^ 32"
    using small lcs_at_bound [of p n i j] by linarith
  then show ?thesis
    using assms(2,3) right
    by (auto simp: cell_value_def lcs_at_step unat_max unat_word_ariths)
qed

lemma filled_cell_step:
  assumes "filled p n m i (Suc j)" "i < length p" "j < length n"
    and "min (length p) (length n) < 2 ^ 32"
  shows "filled p n (m[i := (m ! i)[j := cell_value p n m i j]]) i j"
proof -
  let ?m = "m[i := (m ! i)[j := cell_value p n m i j]]"
  have sh: "shaped p n m" using assms(1) by (simp add: filled_def)
  have upd: "cell ?m a b = (if a = i \<and> b = j then cell_value p n m i j else cell m a b)"
    if "a \<le> length p" "b \<le> length n" for a b
    using that assms(2,3) by (intro cell_update [OF sh]) auto
  show ?thesis
    unfolding filled_def
  proof (intro conjI allI impI)
    show "shaped p n ?m" using sh assms(2) by (simp add: shaped_def [of p n m])
  next
    fix a b assume "i < a \<and> a \<le> length p \<and> b \<le> length n"
    then show "unat (cell ?m a b) = lcs_at p n a b" using assms(1) by (simp add: upd filled_def)
  next
    fix b assume b: "i \<le> length p \<and> j \<le> b \<and> b \<le> length n"
    show "unat (cell ?m i b) = lcs_at p n i b"
    proof (cases "b = j")
      case True
      then show ?thesis using cell_value_right [OF assms] assms(2,3) by (simp add: upd)
    next
      case False
      with b assms(1,2) show ?thesis by (simp add: upd filled_def)
    qed
  next
    fix a assume "a < i" "a \<le> length p"
    then show "cell ?m a (length n) = 0" using assms(1,3) by (simp add: upd filled_def)
  qed
qed

lemma filled_cells:
  "filled p n m i j \<Longrightarrow> i < length p \<Longrightarrow> j \<le> length n \<Longrightarrow> min (length p) (length n) < 2 ^ 32 \<Longrightarrow>
     filled p n (fill_cells p n i j m) i 0"
proof (induction j arbitrary: m)
  case (Suc j)
  then have "filled p n (m[i := (m ! i)[j := cell_value p n m i j]]) i j"
    by (intro filled_cell_step) auto
  with Suc show ?case by simp
qed simp

lemma filled_next_row:
  "filled p n m (Suc i) 0 \<Longrightarrow> i < length p \<Longrightarrow> filled p n m i (length n)"
  unfolding filled_def
proof (elim conjE, intro conjI allI impI)
  fix a b
  assume r: "\<forall>a b. Suc i < a \<and> a \<le> length p \<and> b \<le> length n \<longrightarrow> unat (cell m a b) = lcs_at p n a b"
    "\<forall>b. Suc i \<le> length p \<and> 0 \<le> b \<and> b \<le> length n \<longrightarrow> unat (cell m (Suc i) b) = lcs_at p n (Suc i) b"
    and "i < a \<and> a \<le> length p \<and> b \<le> length n"
  then show "unat (cell m a b) = lcs_at p n a b" by (cases "a = Suc i") auto
qed auto

lemma filled_rows:
  "filled p n m i 0 \<Longrightarrow> i \<le> length p \<Longrightarrow> min (length p) (length n) < 2 ^ 32 \<Longrightarrow>
     filled p n (fill_rows p n i m) 0 0"
proof (induction i arbitrary: m)
  case (Suc i)
  then have "filled p n (fill_cells p n i (length n) m) i 0"
    by (intro filled_cells filled_next_row) auto
  with Suc show ?case by simp
qed simp

lemma alignment_matrix_filled:
  assumes "min (length p) (length n) < 2 ^ 32"
  shows "filled p n (alignment_matrix p n) 0 0"
  unfolding alignment_matrix_def
  by (rule filled_rows [OF _ _ assms])
    (auto simp: filled_def shaped_def cell_def lcs_at_def nth_append replicate_append_same [symmetric])

lemma alignment_matrix_cell:
  "min (length p) (length n) < 2 ^ 32 \<Longrightarrow> i \<le> length p \<Longrightarrow> j \<le> length n \<Longrightarrow>
     unat (cell (alignment_matrix p n) i j) = lcs_at p n i j"
  using alignment_matrix_filled [of p n] by (cases "i = 0") (auto simp: filled_def)

section \<open>The walk is the alignment by recursion on the lines\<close>

text \<open>The reference definition: no matrix, no indices, the same choices.\<close>

fun align_ref :: "nat \<Rightarrow> nat \<Rightarrow> jstr list \<Rightarrow> jstr list \<Rightarrow> diff_row list" where
  "align_ref i j [] [] = []"
| "align_ref i j (x # xs) [] =
     \<lparr>rtype = Removed, before_number = Some (i + 1), after_number = None, row_text = x\<rparr>
       # align_ref (i + 1) j xs []"
| "align_ref i j [] (y # ys) =
     \<lparr>rtype = Added, before_number = None, after_number = Some (j + 1), row_text = y\<rparr>
       # align_ref i (j + 1) [] ys"
| "align_ref i j (x # xs) (y # ys) =
     (if x = y then
        \<lparr>rtype = Context, before_number = Some (i + 1), after_number = Some (j + 1), row_text = x\<rparr>
          # align_ref (i + 1) (j + 1) xs ys
      else if lcs xs (y # ys) < lcs (x # xs) ys then
        \<lparr>rtype = Added, before_number = None, after_number = Some (j + 1), row_text = y\<rparr>
          # align_ref i (j + 1) (x # xs) ys
      else
        \<lparr>rtype = Removed, before_number = Some (i + 1), after_number = None, row_text = x\<rparr>
          # align_ref (i + 1) j xs (y # ys))"

lemma align_ref_before: "before_side (align_ref i j xs ys) = numbered_from i xs"
  by (induction i j xs ys rule: align_ref.induct) (auto simp: side_Cons)

lemma align_ref_after: "after_side (align_ref i j xs ys) = numbered_from j ys"
  by (induction i j xs ys rule: align_ref.induct) (auto simp: side_Cons)

lemma align_ref_context: "count_type Context (align_ref i j xs ys) = lcs xs ys"
  by (induction i j xs ys rule: align_ref.induct) (auto simp: side_Cons)

lemma walk_align_ref:
  assumes "min (length p) (length n) < 2 ^ 32"
  shows "i \<le> length p \<Longrightarrow> j \<le> length n \<Longrightarrow>
    walk p n (alignment_matrix p n) i j rs = Some (rs @ align_ref i j (drop i p) (drop j n))"
proof (induction "length p - i + (length n - j)" arbitrary: i j rs rule: less_induct)
  case less
  let ?m = "alignment_matrix p n"
  note cells = alignment_matrix_cell [OF assms]
  note next_line = Cons_nth_drop_Suc [symmetric]
  consider (stop) "i = length p" "j = length n" | (left) "i < length p" "j = length n"
    | (right) "i = length p" "j < length n" | (both) "i < length p" "j < length n"
    using less.prems by linarith
  then show ?case
  proof cases
    case stop
    then show ?thesis by (simp add: walk.simps [of p n ?m "length p" "length n"])
  next
    case left
    with less.hyps [of "i + 1" j] show ?thesis
      by (simp add: walk.simps [of p n ?m i "length n"] next_line)
  next
    case right
    with less.hyps [of i "j + 1"] show ?thesis
      by (simp add: walk.simps [of p n ?m "length p" j] next_line)
  next
    case both
    have "cell ?m (i + 1) j < cell ?m i (j + 1) \<longleftrightarrow> lcs_at p n (i + 1) j < lcs_at p n i (j + 1)"
      using both cells [of "i + 1" j] cells [of i "j + 1"] by (simp add: word_less_nat_alt)
    then have choice: "cell ?m (i + 1) j < cell ?m i (j + 1) \<longleftrightarrow>
        lcs (drop (i + 1) p) (n ! j # drop (j + 1) n) < lcs (p ! i # drop (i + 1) p) (drop (j + 1) n)"
      using both by (simp add: lcs_at_def next_line)
    show ?thesis
      using both less.hyps [of "i + 1" "j + 1"] less.hyps [of i "j + 1"] less.hyps [of "i + 1" j]
        choice
      by (simp add: walk.simps [of p n ?m i j] next_line)
  qed
qed

text \<open>The bound on the alignment cells keeps every matrix entry far from wrapping.\<close>

lemma alignment_limit_small:
  assumes "length p * length n \<le> alignment_limit"
  shows "min (length p) (length n) \<le> 1000"
proof (rule ccontr)
  assume "\<not> ?thesis"
  then have "1001 * 1001 \<le> length p * length n" by (intro mult_le_mono) auto
  with assms show False by (simp add: alignment_limit_def)
qed

interpretation lcs_walk: optimal_alignment
  "\<lambda>p n. walk p n (alignment_matrix p n) 0 0 []"
  "\<lambda>p n. length p * length n \<le> alignment_limit"
proof (unfold_locales, goal_cases)
  case (1 p n)
  from alignment_limit_small [OF this] show ?case by (simp add: walk_align_ref)
next
  case (2 p n rs)
  from alignment_limit_small [OF this(1)] this(2) show ?case
    by (auto simp: walk_align_ref shows_diff_def align_ref_before align_ref_after)
next
  case (3 p n rs)
  from alignment_limit_small [OF this(1)] this(2) show ?case
    by (auto simp: walk_align_ref align_ref_context)
qed

section \<open>The alignment for large inputs\<close>

lemma prefix_loop_spec:
  "p \<le> length xs \<Longrightarrow> p \<le> length ys \<Longrightarrow> take p xs = take p ys \<Longrightarrow>
     prefix_loop xs ys p \<le> length xs \<and> prefix_loop xs ys p \<le> length ys \<and>
     take (prefix_loop xs ys p) xs = take (prefix_loop xs ys p) ys"
proof (induction xs ys p rule: prefix_loop.induct)
  case (1 xs ys p)
  then show ?case
    by (auto simp: prefix_loop.simps [of xs ys p] take_Suc_conv_app_nth)
qed

lemma drop_from_end:
  "k < length zs \<Longrightarrow>
     drop (length zs - Suc k) zs = zs ! (length zs - Suc k) # drop (length zs - k) zs"
  using Cons_nth_drop_Suc [of "length zs - Suc k" zs] by (simp add: Suc_diff_Suc)

lemma suffix_loop_spec:
  "p + s \<le> length xs \<Longrightarrow> p + s \<le> length ys \<Longrightarrow>
     drop (length xs - s) xs = drop (length ys - s) ys \<Longrightarrow>
     p + suffix_loop xs ys p s \<le> length xs \<and> p + suffix_loop xs ys p s \<le> length ys \<and>
     drop (length xs - suffix_loop xs ys p s) xs = drop (length ys - suffix_loop xs ys p s) ys"
proof (induction xs ys p s rule: suffix_loop.induct)
  case (1 xs ys p s)
  show ?case
  proof (cases "s < length xs - p \<and> s < length ys - p
      \<and> xs ! (length xs - s - 1) = ys ! (length ys - s - 1)")
    case True
    then have "drop (length xs - (s + 1)) xs = drop (length ys - (s + 1)) ys"
      using drop_from_end [of s xs] drop_from_end [of s ys] "1.prems" by auto
    moreover have "p + (s + 1) \<le> length xs" "p + (s + 1) \<le> length ys"
      using True by linarith+
    ultimately show ?thesis using "1.IH" [OF True] True
      by (simp add: suffix_loop.simps [of xs ys p s])
  next
    case False
    with "1.prems" show ?thesis by (auto simp: suffix_loop.simps [of xs ys p s])
  qed
qed

lemma before_side_map:
  "before_side (map (\<lambda>(i, t). \<lparr>rtype = Context, before_number = Some (f i), after_number = g i, row_text = t\<rparr>) (enumerate k xs))
     = map (\<lambda>(i, t). (Some (f i), t)) (enumerate k xs)"
  "before_side (map (\<lambda>(i, t). \<lparr>rtype = Removed, before_number = Some (f i), after_number = g i, row_text = t\<rparr>) (enumerate k xs))
     = map (\<lambda>(i, t). (Some (f i), t)) (enumerate k xs)"
  "before_side (map (\<lambda>(i, t). \<lparr>rtype = Added, before_number = h i, after_number = g i, row_text = t\<rparr>) (enumerate k xs)) = []"
  by (induction xs arbitrary: k) (auto simp: side_Cons)

lemma after_side_map:
  "after_side (map (\<lambda>(i, t). \<lparr>rtype = Context, before_number = f i, after_number = Some (g i), row_text = t\<rparr>) (enumerate k xs))
     = map (\<lambda>(i, t). (Some (g i), t)) (enumerate k xs)"
  "after_side (map (\<lambda>(i, t). \<lparr>rtype = Added, before_number = f i, after_number = Some (g i), row_text = t\<rparr>) (enumerate k xs))
     = map (\<lambda>(i, t). (Some (g i), t)) (enumerate k xs)"
  "after_side (map (\<lambda>(i, t). \<lparr>rtype = Removed, before_number = f i, after_number = h i, row_text = t\<rparr>) (enumerate k xs)) = []"
  by (induction xs arbitrary: k) (auto simp: side_Cons)

lemma numbered_from_shift:
  "map (\<lambda>(i, t). (Some (a + i + 1), t)) (enumerate 0 xs) = numbered_from a xs"
proof -
  have "map (\<lambda>(i, t). (Some (a + i + 1), t)) (enumerate k xs) = numbered_from (a + k) xs" for k
    by (induction xs arbitrary: k) auto
  from this [of 0] show ?thesis by simp
qed

lemma numbered_three:
  "a \<le> b \<Longrightarrow> b \<le> length xs \<Longrightarrow>
     numbered_from 0 (take a xs) @ numbered_from a (slice xs a b) @ numbered_from b (drop b xs)
     = numbered_from 0 xs"
proof -
  assume ab: "a \<le> b" "b \<le> length xs"
  then have "xs = take a xs @ slice xs a b @ drop b xs"
    by (simp add: slice_def) (metis append.assoc append_take_drop_id le_add_diff_inverse take_add)
  then have "numbered_from 0 xs = numbered_from 0 (take a xs @ slice xs a b @ drop b xs)" by simp
  also have "\<dots> = numbered_from 0 (take a xs) @ numbered_from a (slice xs a b) @ numbered_from b (drop b xs)"
    using ab by (simp add: numbered_from_append slice_def min_def)
  finally show ?thesis by simp
qed

lemma replacement_rows_shows: "shows_diff p n (replacement_rows p n)"
proof -
  define a where "a = prefix_loop p n 0"
  define s where "s = suffix_loop p n a 0"
  have a: "a \<le> length p" "a \<le> length n" "take a p = take a n"
    using prefix_loop_spec [of 0 p n] by (auto simp: a_def)
  have s: "a + s \<le> length p" "a + s \<le> length n" "drop (length p - s) p = drop (length n - s) n"
    using suffix_loop_spec [of a 0 p n] a by (auto simp: s_def)
  have rows: "replacement_rows p n =
      map (\<lambda>(i, t). \<lparr>rtype = Context, before_number = Some (0 + i + 1), after_number = Some (0 + i + 1), row_text = t\<rparr>) (enumerate 0 (take a p))
    @ map (\<lambda>(i, t). \<lparr>rtype = Removed, before_number = Some (a + i + 1), after_number = None, row_text = t\<rparr>) (enumerate 0 (slice p a (length p - s)))
    @ map (\<lambda>(i, t). \<lparr>rtype = Added, before_number = None, after_number = Some (a + i + 1), row_text = t\<rparr>) (enumerate 0 (slice n a (length n - s)))
    @ map (\<lambda>(i, t). \<lparr>rtype = Context, before_number = Some (length p - s + i + 1), after_number = Some (length n - s + i + 1), row_text = t\<rparr>) (enumerate 0 (drop (length p - s) p))"
    by (simp add: replacement_rows_def Let_def a_def [symmetric] s_def [symmetric] slice_def)
  have "before_side (replacement_rows p n) = numbered_from 0 p"
    unfolding rows side_append before_side_map numbered_from_shift
    using numbered_three [of a "length p - s" p] s(1) by simp
  moreover have "after_side (replacement_rows p n) = numbered_from 0 n"
    unfolding rows side_append after_side_map numbered_from_shift a(3) s(3)
    using numbered_three [of a "length n - s" n] s(2) by simp
  ultimately show ?thesis by (simp add: shows_diff_def)
qed

interpretation replacement: line_alignment
  "\<lambda>p n. Some (replacement_rows p n)" "\<lambda>p n. True"
  by unfold_locales (auto simp: replacement_rows_shows)

lemma prefix_loop_self: "k \<le> length xs \<Longrightarrow> prefix_loop xs xs k = length xs"
proof (induction "length xs - k" arbitrary: k)
  case 0
  then show ?case by (simp add: prefix_loop.simps [of xs xs k])
next
  case (Suc d)
  then have "prefix_loop xs xs (k + 1) = length xs" by simp
  with Suc show ?case by (simp add: prefix_loop.simps [of xs xs k])
qed

lemma count_type_const:
  "count_type t (map (\<lambda>(i, x). \<lparr>rtype = u, before_number = f i, after_number = g i, row_text = x\<rparr>) xs)
     = (if t = u then length xs else 0)"
  by (induction xs) (auto simp: side_Cons)

lemma replacement_rows_self:
  "count_type Added (replacement_rows p p) = 0 \<and> count_type Removed (replacement_rows p p) = 0"
  by (simp add: replacement_rows_def Let_def prefix_loop_self count_type_const slice_def)

section \<open>Splitting into lines\<close>

lemma normalize_eol_no_cr: "cr \<notin> set (normalize_eol s)"
  by (induction s rule: normalize_eol.induct) auto

lemma normalize_eol_id: "cr \<notin> set s \<Longrightarrow> normalize_eol s = s"
  by (induction s rule: normalize_eol.induct) auto

lemma split_on_ends:
  "ends_with s [c] \<Longrightarrow> join [c] (butlast (split_on c s)) @ [c] = s"
  by (auto simp: ends_with_iff suffix_def split_on_snoc_sep)

lemma diff_returns: "\<exists>d. build_line_diff before after = Some d"
proof (cases "length (lines before) * length (lines after) > alignment_limit")
  case False
  then have "\<exists>rs. walk (lines before) (lines after) (alignment_matrix (lines before) (lines after)) 0 0 [] = Some rs"
    using lcs_walk.returns by (meson not_less)
  with False show ?thesis by (auto simp: build_line_diff_def Let_def)
qed (simp add: build_line_diff_def Let_def)

section \<open>Properties\<close>

text \<open>C1: \<open>buildLineDiff\<close> always returns, and the preview it returns is the truth about both
  texts: the rows under Before are exactly the lines of the old text, numbered from 1 in order,
  the rows under After exactly those of the new text, and the two counters count the rows.\<close>

theorem diff_shows_both_texts:
  "\<exists>d. build_line_diff before after = Some d \<and>
     shows_diff (lines before) (lines after) (rows d) \<and>
     added d = count_type Added (rows d) \<and> removed d = count_type Removed (rows d) \<and>
     (simplified d \<longleftrightarrow> length (lines before) * length (lines after) > alignment_limit)"
proof (cases "length (lines before) * length (lines after) > alignment_limit")
  case True
  then show ?thesis by (simp add: build_line_diff_def Let_def replacement_rows_shows)
next
  case False
  then obtain rs where rs: "walk (lines before) (lines after)
      (alignment_matrix (lines before) (lines after)) 0 0 [] = Some rs"
    using lcs_walk.returns by (meson not_less)
  with False lcs_walk.shows_inputs [OF _ rs] show ?thesis
    by (simp add: build_line_diff_def Let_def)
qed

text \<open>C2: below the alignment limit the preview is minimal: no list of rows whatever that shows
  the same two texts has fewer added and removed rows together.\<close>

theorem diff_is_minimal:
  assumes "length (lines before) * length (lines after) \<le> alignment_limit"
    and "shows_diff (lines before) (lines after) qs"
  shows "\<exists>d. build_line_diff before after = Some d \<and> \<not> simplified d \<and>
    added d + removed d \<le> count_type Added qs + count_type Removed qs"
proof -
  obtain rs where rs: "walk (lines before) (lines after)
      (alignment_matrix (lines before) (lines after)) 0 0 [] = Some rs"
    using lcs_walk.returns [OF assms(1)] by blast
  with assms(1) lcs_walk.fewest_changes [OF assms(1) rs assms(2)] show ?thesis
    by (simp add: build_line_diff_def Let_def)
qed

lemma diff_is_minimal_witness:
  "\<exists>d. build_line_diff [97, 10] [98, 10] = Some d \<and> \<not> simplified d \<and> added d + removed d \<le> 2"
proof -
  define qs where "qs = [\<lparr>rtype = Removed, before_number = Some 1, after_number = None, row_text = [97]\<rparr>,
    \<lparr>rtype = Added, before_number = None, after_number = Some 1, row_text = [98]\<rparr>]"
  have l: "lines [97, 10] = [[97]]" "lines [98, 10] = [[98]]"
    by (simp_all add: lines_def str_simps Let_def)
  have sh: "shows_diff (lines [97, 10]) (lines [98, 10]) qs"
    unfolding l by (simp add: qs_def shows_diff_def side_Cons)
  have "count_type Added qs + count_type Removed qs = 2"
    by (simp add: qs_def side_Cons)
  with diff_is_minimal [OF _ sh] show ?thesis by (simp add: l alignment_limit_def)
qed

text \<open>C3: the 32-bit cells never wrap: every cell of the filled matrix, border included, is the
  true length of the longest common subsequence of the two remainders, and at most 1000.\<close>

theorem matrix_cells_exact:
  assumes "length p * length n \<le> alignment_limit" and "i \<le> length p" and "j \<le> length n"
  shows "unat (cell (alignment_matrix p n) i j) = lcs (drop i p) (drop j n) \<and>
    unat (cell (alignment_matrix p n) i j) \<le> 1000"
proof -
  note small = alignment_limit_small [OF assms(1)]
  then have "unat (cell (alignment_matrix p n) i j) = lcs_at p n i j"
    using assms(2,3) by (intro alignment_matrix_cell) auto
  with small lcs_at_bound [of p n i j] show ?thesis by (auto simp: lcs_at_def min_def split: if_splits)
qed

lemma matrix_cells_exact_witness:
  "unat (cell (alignment_matrix [[97], [98]] [[98]]) 0 0) = 1"
  using matrix_cells_exact [of "[[97], [98]]" "[[98]]" 0 0] by (simp add: alignment_limit_def)

text \<open>The preview reports no change exactly when the two texts have the same lines,
  for small and for large inputs.\<close>

theorem diff_empty_iff_same_lines:
  "\<exists>d. build_line_diff before after = Some d \<and>
     (added d = 0 \<and> removed d = 0 \<longleftrightarrow> lines before = lines after)"
proof (cases "length (lines before) * length (lines after) > alignment_limit")
  case True
  then show ?thesis
    using replacement.all_context_if_unchanged [of "lines before" "lines after"]
      replacement_rows_self [of "lines before"]
    by (auto simp: build_line_diff_def Let_def)
next
  case False
  then have small: "length (lines before) * length (lines after) \<le> alignment_limit" by simp
  then obtain rs where rs: "walk (lines before) (lines after)
      (alignment_matrix (lines before) (lines after)) 0 0 [] = Some rs"
    using lcs_walk.returns by blast
  have "count_type Added rs = 0 \<and> count_type Removed rs = 0 \<longleftrightarrow> lines before = lines after"
    using lcs_walk.all_context_if_unchanged [OF small rs] lcs_walk.unchanged_if_equal [of _ rs]
      small rs by auto
  with False rs show ?thesis by (simp add: build_line_diff_def Let_def)
qed

text \<open>Splitting a text into lines loses only the line endings: joined by line feeds, with the
  final one put back, the lines are the text with every CRLF and CR turned into LF.\<close>

theorem lines_join_back:
  "join [lf] (lines source) @ (if ends_with (normalize_eol source) [lf] then [lf] else [])
     = normalize_eol source \<and> cr \<notin> set (normalize_eol source)"
  using split_on_ends [of "normalize_eol source" lf] normalize_eol_no_cr [of source]
  by (auto simp: lines_def Let_def ends_with_iff suffix_def)

end
