(* ===== verification/JsValue.thy ===== *)
theory JsValue
  imports Prelude
begin

text \<open>
  The JavaScript values that reach the Workbench from the YAML parser, and the operations of the
  language the sources apply to them: truthiness, property access with and without \<open>?.\<close>, strict
  equality, conversion to a string, and the two coercions \<open>object\<close> and \<open>array\<close> of
  \<open>analyze.js\<close>.

  An object and an array carry an identity, which is what \<open>===\<close> compares; a parser that resolves
  a YAML alias gives both uses the same identity. Values are finite trees: an alias inside its own
  anchor is outside the model. A number is an integer of magnitude below \<open>10^21\<close>, which prints
  in decimal, or any other number, given by the text \<open>String\<close> makes of it and by
  \<open>Number.isInteger\<close>.
\<close>

section \<open>Values\<close>

datatype jnum =
    JInt int
  | JOther jstr bool

datatype jsval =
    JUndef
  | JNull
  | JBool bool
  | JNum jnum
  | JStr jstr
  | JArr nat "jsval list"
  | JObj nat "(jstr \<times> jsval) list"

abbreviation jlit :: "string \<Rightarrow> jsval" where
  "jlit s \<equiv> JStr (lit s)"

definition nan :: jnum where
  "nan = JOther (lit ''NaN'') False"

fun truthy :: "jsval \<Rightarrow> bool" where
  "truthy JUndef = False"
| "truthy JNull = False"
| "truthy (JBool b) = b"
| "truthy (JNum n) = (n \<noteq> JInt 0 \<and> n \<noteq> nan)"
| "truthy (JStr s) = (s \<noteq> [])"
| "truthy (JArr _ _) = True"
| "truthy (JObj _ _) = True"

text \<open>\<open>v == null\<close>.\<close>

fun nullish :: "jsval \<Rightarrow> bool" where
  "nullish JUndef = True"
| "nullish JNull = True"
| "nullish _ = False"

text \<open>\<open>a || b\<close>.\<close>

definition or_else :: "jsval \<Rightarrow> jsval \<Rightarrow> jsval" where
  "or_else a b = (if truthy a then a else b)"

text \<open>\<open>a === b\<close>: objects and arrays by identity, and \<open>NaN\<close> differs from itself.\<close>

fun strict_eq :: "jsval \<Rightarrow> jsval \<Rightarrow> bool" where
  "strict_eq (JNum a) (JNum b) = (a = b \<and> a \<noteq> nan)"
| "strict_eq (JArr a _) (JArr b _) = (a = b)"
| "strict_eq (JObj a _) (JObj b _) = (a = b)"
| "strict_eq (JStr a) (JStr b) = (a = b)"
| "strict_eq (JBool a) (JBool b) = (a = b)"
| "strict_eq JNull JNull = True"
| "strict_eq JUndef JUndef = True"
| "strict_eq _ _ = False"

fun lookup :: "(jstr \<times> jsval) list \<Rightarrow> jstr \<Rightarrow> jsval" where
  "lookup [] k = JUndef"
| "lookup ((k', v) # es) k = (if k' = k then v else lookup es k)"

text \<open>
  \<open>v.k\<close> for the property names the sources use, none of which a prototype defines: undefined and
  null throw, other values that are not plain objects have no such property.
\<close>

fun get :: "jsval \<Rightarrow> jstr \<Rightarrow> jsval option" where
  "get JUndef k = None"
| "get JNull k = None"
| "get (JObj _ es) k = Some (lookup es k)"
| "get _ k = Some JUndef"

text \<open>\<open>v?.k\<close>.\<close>

fun opt_get :: "jsval \<Rightarrow> jstr \<Rightarrow> jsval" where
  "opt_get (JObj _ es) k = lookup es k"
| "opt_get _ k = JUndef"

definition js_object :: "jsval \<Rightarrow> jsval" where
  "js_object v = (case v of JObj i es \<Rightarrow> JObj i es | _ \<Rightarrow> JObj 0 [])"

definition js_array :: "jsval \<Rightarrow> jsval list" where
  "js_array v = (case v of JArr i vs \<Rightarrow> vs | _ \<Rightarrow> [])"

text \<open>
  \<open>Object.entries(v)\<close> in enumeration order. It throws on undefined and null, where no call of the
  sources applies it: they call \<open>object\<close> first or have read a property of the value.
\<close>

fun own_entries :: "jsval \<Rightarrow> (jstr \<times> jsval) list" where
  "own_entries (JObj _ es) = es"
| "own_entries (JArr _ vs) = map (\<lambda>(i, v). (nat_text i, v)) (enumerate 0 vs)"
| "own_entries (JStr s) = map (\<lambda>(i, u). (nat_text i, JStr [u])) (enumerate 0 s)"
| "own_entries _ = []"

abbreviation own_keys :: "jsval \<Rightarrow> jstr list" where
  "own_keys v \<equiv> map fst (own_entries v)"

text \<open>
  \<open>String(v)\<close>, and the conversion \<open>+\<close> and template literals apply. An array joins its elements
  with commas; an object with an own property \<open>toString\<close>, which parsed data cannot make callable,
  cannot be converted and throws.
\<close>

definition num_text :: "jnum \<Rightarrow> jstr" where
  "num_text n = (case n of JInt i \<Rightarrow> int_text i | JOther t _ \<Rightarrow> t)"

fun to_str :: "jsval \<Rightarrow> jstr option" where
  "to_str JUndef = Some (lit ''undefined'')"
| "to_str JNull = Some (lit ''null'')"
| "to_str (JBool b) = Some (if b then lit ''true'' else lit ''false'')"
| "to_str (JNum n) = Some (num_text n)"
| "to_str (JStr s) = Some s"
| "to_str (JArr _ vs) =
     map_option (join (lit '',''))
       (those (map (\<lambda>v. if nullish v then Some [] else to_str v) vs))"
| "to_str (JObj _ es) =
     (if lit ''toString'' \<in> fst ` set es then None else Some (lit ''[object Object]''))"

definition is_integer :: "jsval \<Rightarrow> bool" where
  "is_integer v = (case v of JNum (JInt _) \<Rightarrow> True | JNum (JOther _ b) \<Rightarrow> b | _ \<Rightarrow> False)"

definition is_string :: "jsval \<Rightarrow> bool" where
  "is_string v = (case v of JStr _ \<Rightarrow> True | _ \<Rightarrow> False)"

text \<open>\<open>v === "..."\<close>, the commonest test of the sources.\<close>

definition is_lit :: "jsval \<Rightarrow> string \<Rightarrow> bool" where
  "is_lit v s \<longleftrightarrow> v = jlit s"

text \<open>\<open>set.has(v)\<close> and \<open>list.includes(v)\<close> for a set of literals.\<close>

definition among :: "jsval \<Rightarrow> string list \<Rightarrow> bool" where
  "among v names \<longleftrightarrow> (\<exists>s \<in> set names. v = jlit s)"

text \<open>The text of a value known to be text.\<close>

definition text_of :: "jsval \<Rightarrow> jstr" where
  "text_of v = (case v of JStr s \<Rightarrow> s | _ \<Rightarrow> [])"

section \<open>Laws\<close>

lemma is_lit_strict_eq: "is_lit v s \<longleftrightarrow> strict_eq v (jlit s)"
  by (cases v) (auto simp: is_lit_def)

lemma among_simps [simp]:
  "among (JStr s) names \<longleftrightarrow> s \<in> lit ` set names"
  "\<not> among JUndef names" "\<not> among JNull names" "\<not> among (JNum n) names"
  "\<not> among (JBool b) names" "\<not> among (JArr i vs) names" "\<not> among (JObj i es) names"
  by (auto simp: among_def)

lemma get_None_iff [simp]: "get v k = None \<longleftrightarrow> nullish v"
  by (cases v) auto

lemma get_Some_opt_get: "\<not> nullish v \<Longrightarrow> get v k = Some (opt_get v k)"
  by (cases v) auto

lemma get_js_object [simp]: "get (js_object v) k = Some (opt_get v k)"
  by (cases v) (auto simp: js_object_def)

lemma opt_get_js_object [simp]: "opt_get (js_object v) k = opt_get v k"
  by (cases v) (auto simp: js_object_def)

lemma opt_get_nullish [simp]: "nullish v \<Longrightarrow> opt_get v k = JUndef"
  by (cases v) auto

lemma truthy_not_nullish: "truthy v \<Longrightarrow> \<not> nullish v"
  by (cases v) auto

lemma js_object_not_nullish [simp]: "\<not> nullish (js_object v)"
  by (cases v) (auto simp: js_object_def)

lemma truthy_JStr_or_else: "truthy (or_else v (JStr s)) \<or> s = []"
  by (auto simp: or_else_def)

lemma strict_eq_sym: "strict_eq a b = strict_eq b a"
  by (cases a; cases b) auto

lemma strict_eq_trans: "strict_eq a b \<Longrightarrow> strict_eq b c \<Longrightarrow> strict_eq a c"
  by (cases a; cases b; cases c) auto

lemma lookup_mem: "lookup es k = v \<Longrightarrow> v \<noteq> JUndef \<Longrightarrow> (k, v) \<in> set es"
  by (induction es k rule: lookup.induct) (auto split: if_splits)

lemma lookup_distinct: "distinct (map fst es) \<Longrightarrow> (k, v) \<in> set es \<Longrightarrow> lookup es k = v"
  by (induction es k rule: lookup.induct) force+

lemma own_entries_size: "(k, v) \<in> set (own_entries w) \<Longrightarrow> \<not> is_string w \<Longrightarrow> size v < size w"
proof (cases w)
  case (JObj i es)
  assume "(k, v) \<in> set (own_entries w)"
  with JObj show ?thesis by (auto dest!: size_list_estimation' [where f = "size_prod (\<lambda>x. 0) size" and y = "Suc (size v)"])
next
  case (JArr i vs)
  assume "(k, v) \<in> set (own_entries w)"
  with JArr have "v \<in> set vs" by (auto simp: in_set_enumerate_eq)
  with JArr show ?thesis by (auto dest!: size_list_estimation' [where f = size and y = "size v", OF _ order_refl])
qed (auto simp: is_string_def)

end
