(* ===== verification/TreeSearch.thy ===== *)
theory TreeSearch
  imports JsValue
begin

text \<open>
  The searchable tree of a parsed document (\<open>tree-search.js\<close>): canonical paths, the index that
  \<open>buildTreeSearchIndex\<close> builds, the search over it and the highlighted segments.

  \<open>toLocaleLowerCase\<close> depends on the host's locale and Unicode tables, so it is the parameter
  \<open>lower\<close> of the definitions that call it; no lemma but the two that say so assumes anything of it.
\<close>

section \<open>Model\<close>

text \<open>\<open>/^[A-Za-z_][A-Za-z0-9_]*$/\<close>.\<close>

definition is_ident_start :: "code_unit \<Rightarrow> bool" where
  "is_ident_start u \<longleftrightarrow> 65 \<le> u \<and> u \<le> 90 \<or> 97 \<le> u \<and> u \<le> 122 \<or> u = 95"

definition is_ident_part :: "code_unit \<Rightarrow> bool" where
  "is_ident_part u \<longleftrightarrow> is_ident_start u \<or> is_digit u"

definition simple_path_key :: "jstr \<Rightarrow> bool" where
  "simple_path_key s = (case s of [] \<Rightarrow> False
     | u # us \<Rightarrow> is_ident_start u \<and> list_all is_ident_part us)"

text \<open>
  \<open>JSON.stringify\<close> of a string: the quote, the backslash and the control characters are escaped,
  lone surrogates too, every other code unit stands for itself.
\<close>

definition hex_digit :: "nat \<Rightarrow> code_unit" where
  "hex_digit n = (if n < 10 then 48 + of_nat n else 87 + of_nat n)"

definition unicode_escape :: "code_unit \<Rightarrow> jstr" where
  "unicode_escape u =
     [cu CHR 0x5C, cu CHR ''u'', hex_digit (unat u div 4096), hex_digit (unat u div 256 mod 16),
      hex_digit (unat u div 16 mod 16), hex_digit (unat u mod 16)]"

definition quote_unit :: "code_unit \<Rightarrow> jstr" where
  "quote_unit u =
     (if u = 8 then [cu CHR 0x5C, cu CHR ''b'']
      else if u = 9 then [cu CHR 0x5C, cu CHR ''t'']
      else if u = 10 then [cu CHR 0x5C, cu CHR ''n'']
      else if u = 12 then [cu CHR 0x5C, cu CHR ''f'']
      else if u = 13 then [cu CHR 0x5C, cu CHR ''r'']
      else if u = 34 then [cu CHR 0x5C, 34]
      else if u = 92 then [cu CHR 0x5C, 92]
      else if u < 32 then unicode_escape u
      else [u])"

definition high_surrogate :: "code_unit \<Rightarrow> bool" where
  "high_surrogate u \<longleftrightarrow> 0xD800 \<le> u \<and> u \<le> 0xDBFF"

definition low_surrogate :: "code_unit \<Rightarrow> bool" where
  "low_surrogate u \<longleftrightarrow> 0xDC00 \<le> u \<and> u \<le> 0xDFFF"

fun quote_units :: "jstr \<Rightarrow> jstr" where
  "quote_units [] = []"
| "quote_units [u] =
     (if high_surrogate u \<or> low_surrogate u then unicode_escape u else quote_unit u)"
| "quote_units (u # v # us) =
     (if high_surrogate u \<and> low_surrogate v then u # v # quote_units us
      else (if high_surrogate u \<or> low_surrogate u then unicode_escape u else quote_unit u)
           @ quote_units (v # us))"

definition json_stringify :: "jstr \<Rightarrow> jstr" where
  "json_stringify s = 34 # quote_units s @ [34]"

definition child_yaml_path :: "jstr \<Rightarrow> jstr \<Rightarrow> bool \<Rightarrow> jstr" where
  "child_yaml_path parent_path key parent_is_array =
     (if parent_is_array then parent_path @ lit ''['' @ key @ lit '']''
      else if simple_path_key key then parent_path @ lit ''.'' @ key
      else parent_path @ lit ''['' @ json_stringify key @ lit '']'')"

record tree_record =
  rec_id :: jstr
  document_index :: nat
  rec_name :: jstr
  rec_path :: jstr
  value_text :: "jstr option"
  scalar :: bool
  ancestor_ids :: "jstr list"

definition node_id :: "nat \<Rightarrow> jstr \<Rightarrow> jstr" where
  "node_id index path = lit ''document-'' @ nat_text index @ lit '':'' @ path"

text \<open>\<open>value === null || typeof value !== "object"\<close>.\<close>

fun is_scalar :: "jsval \<Rightarrow> bool" where
  "is_scalar (JArr _ _) = False"
| "is_scalar (JObj _ _) = False"
| "is_scalar _ = True"

fun is_array :: "jsval \<Rightarrow> bool" where
  "is_array (JArr _ _) = True"
| "is_array _ = False"

text \<open>\<open>String(value)\<close> of a scalar, which never throws.\<close>

definition scalar_text :: "jsval \<Rightarrow> jstr" where
  "scalar_text v = (case to_str v of Some t \<Rightarrow> t | None \<Rightarrow> [])"

lemma child_smaller:
  "\<not> is_scalar v \<Longrightarrow> (k, w) \<in> set (own_entries v) \<Longrightarrow> size w < size v"
  by (rule own_entries_size) (cases v; simp add: is_string_def)+

function visit :: "jsval \<Rightarrow> jstr \<Rightarrow> jstr \<Rightarrow> nat \<Rightarrow> jstr list \<Rightarrow> tree_record list" where
  "visit v name path index ancestors =
     (let i = node_id index path in
      \<lparr>rec_id = i, document_index = index, rec_name = name, rec_path = path,
        value_text = (if is_scalar v then Some (scalar_text v) else None),
        scalar = is_scalar v, ancestor_ids = ancestors\<rparr>
      # (if is_scalar v then []
         else concat (map (\<lambda>(key, item).
           visit item key (child_yaml_path path key (is_array v)) index (ancestors @ [i]))
           (own_entries v))))"
  by pat_completeness auto
termination
  by (relation "measure (\<lambda>(v, _). size v)") (auto intro: child_smaller)

declare visit.simps [simp del]

text \<open>A document as the index reads it: its number and its value.\<close>

definition build_tree_search_index :: "(nat \<times> jsval) list \<Rightarrow> tree_record list" where
  "build_tree_search_index documents =
     concat (map (\<lambda>(index, raw). visit raw (lit ''root'') (lit ''$'') index []) documents)"

definition normalized_query :: "(jstr \<Rightarrow> jstr) \<Rightarrow> jstr \<Rightarrow> jstr" where
  "normalized_query lower query = lower (trim query)"

definition record_matches :: "(jstr \<Rightarrow> jstr) \<Rightarrow> jstr \<Rightarrow> tree_record \<Rightarrow> bool" where
  "record_matches lower normalized r =
     list_ex (\<lambda>t. has_sub (lower t) normalized)
       (rec_name r # (case value_text r of Some t \<Rightarrow> [t] | None \<Rightarrow> []) @ [rec_path r])"

definition search_tree_index ::
  "(jstr \<Rightarrow> jstr) \<Rightarrow> tree_record list \<Rightarrow> jstr \<Rightarrow> tree_record list" where
  "search_tree_index lower records query =
     (let normalized = normalized_query lower query in
      if normalized = [] then [] else filter (record_matches lower normalized) records)"

record text_range =
  range_text :: jstr
  is_match :: bool

text \<open>
  The highlighting loop. \<open>cursor\<close> and \<open>matchAt\<close> count in the lower-cased text and cut the
  original one, as in the source.
\<close>

definition find_from :: "jstr \<Rightarrow> jstr \<Rightarrow> nat \<Rightarrow> nat option" where
  "find_from p s k = (if k \<le> length s then map_option ((+) k) (find_sub p (drop k s)) else None)"

partial_function (option) range_loop ::
  "jstr \<Rightarrow> jstr \<Rightarrow> jstr \<Rightarrow> nat \<Rightarrow> text_range list \<Rightarrow> (nat \<times> text_range list) option" where
  "range_loop source low normalized cursor ranges =
     (case find_from normalized low cursor of
        None \<Rightarrow> Some (cursor, ranges)
      | Some match_at \<Rightarrow>
          range_loop source low normalized (match_at + length normalized)
            (ranges
             @ (if match_at > cursor
                then [\<lparr>range_text = slice source cursor match_at, is_match = False\<rparr>] else [])
             @ [\<lparr>range_text = slice source match_at (match_at + length normalized),
                  is_match = True\<rparr>]))"

definition matching_text_ranges :: "(jstr \<Rightarrow> jstr) \<Rightarrow> jstr \<Rightarrow> jstr \<Rightarrow> text_range list option" where
  "matching_text_ranges lower source query =
     (let normalized = normalized_query lower query;
          whole = [\<lparr>range_text = source, is_match = False\<rparr>]
      in if normalized = [] then Some whole
         else map_option (\<lambda>(cursor, ranges).
             let ranges' = ranges @
               (if cursor < length source
                then [\<lparr>range_text = drop cursor source, is_match = False\<rparr>] else [])
             in if ranges' = [] then whole else ranges')
           (range_loop source (lower source) normalized 0 []))"

section \<open>Path segments are uniquely readable\<close>

text \<open>
  A segment code: every segment begins with a separator, and a segment followed by the rest of a
  path can be read back. Whole paths are then read back too.
\<close>

locale segment_code =
  fixes seg :: "'s \<Rightarrow> jstr" and separator :: "code_unit \<Rightarrow> bool"
  assumes seg_starts: "seg s \<noteq> [] \<and> separator (hd (seg s))"
    and seg_read: "seg s @ r = seg t @ q \<Longrightarrow>
      (r = [] \<or> separator (hd r)) \<Longrightarrow> (q = [] \<or> separator (hd q)) \<Longrightarrow> s = t \<and> r = q"
begin

lemma tail_ok: "concat (map seg ss) = [] \<or> separator (hd (concat (map seg ss)))"
  using seg_starts by (cases ss) auto

lemma path_inject: "concat (map seg ss) = concat (map seg ts) \<Longrightarrow> ss = ts"
proof (induction ss arbitrary: ts)
  case Nil
  then show ?case using seg_starts by (cases ts) auto
next
  case (Cons s ss)
  show ?case
  proof (cases ts)
    case Nil
    with Cons.prems show ?thesis using seg_starts by auto
  next
    case t: (Cons t ts')
    with Cons.prems have "seg s @ concat (map seg ss) = seg t @ concat (map seg ts')" by simp
    from seg_read [OF this tail_ok tail_ok] Cons.IH t show ?thesis by simp
  qed
qed

lemma inj_path: "inj (\<lambda>ss. base @ concat (map seg ss))"
  using path_inject by (auto simp: inj_def)

end

text \<open>Reading a JSON string literal back, from after its opening quote.\<close>

definition hex_value :: "code_unit \<Rightarrow> nat" where
  "hex_value u = (if u < 58 then unat u - 48 else unat u - 87)"

fun json_read :: "jstr \<Rightarrow> (jstr \<times> jstr) option" where
  "json_read [] = None"
| "json_read (u # us) =
     (if u = 34 then Some ([], us)
      else if u \<noteq> 92 then map_option (\<lambda>(t, r). (u # t, r)) (json_read us)
      else case us of
          v # ws \<Rightarrow>
            if v = cu CHR ''u'' then
              (case ws of
                 a # b # c # d # r \<Rightarrow> map_option (\<lambda>(t, q). (of_nat (hex_value a * 4096
                     + hex_value b * 256 + hex_value c * 16 + hex_value d) # t, q)) (json_read r)
               | _ \<Rightarrow> None)
            else map_option (\<lambda>(t, q). ((if v = cu CHR ''b'' then 8 else if v = cu CHR ''t'' then 9
                else if v = cu CHR ''n'' then 10 else if v = cu CHR ''f'' then 12
                else if v = cu CHR ''r'' then 13 else v) # t, q)) (json_read ws)
        | [] \<Rightarrow> None)"

lemma unat_small_of_nat: "n < 65536 \<Longrightarrow> unat (of_nat n :: code_unit) = n"
  by (simp add: unat_of_nat)

lemma hex_value_digit:
  assumes "n < 16"
  shows "hex_value (hex_digit n) = n"
proof (cases "n < 10")
  case True
  have "(48 + of_nat n :: code_unit) = of_nat (48 + n)" by simp
  with True unat_small_of_nat [of "48 + n"] show ?thesis
    by (simp add: hex_value_def hex_digit_def word_less_nat_alt del: of_nat_add)
next
  case False
  have "(87 + of_nat n :: code_unit) = of_nat (87 + n)" by simp
  with False assms unat_small_of_nat [of "87 + n"] show ?thesis
    by (simp add: hex_value_def hex_digit_def word_less_nat_alt del: of_nat_add)
qed

lemma four_hex_digits:
  "u div 4096 * 4096 + u div 256 mod 16 * 256 + u div 16 mod 16 * 16 + u mod 16 = (u :: nat)"
proof -
  have "u div 4096 = u div 256 div 16" "u div 256 = u div 16 div 16"
    by (simp_all add: div_mult2_eq [symmetric])
  then show ?thesis
    using div_mult_mod_eq [of "u div 256" 16] div_mult_mod_eq [of "u div 16" 16]
      div_mult_mod_eq [of u 16]
    by linarith
qed

lemma json_read_unicode:
  "json_read (unicode_escape u @ r) = map_option (\<lambda>(t, q). (u # t, q)) (json_read r)"
proof -
  have "unat u < 65536" using unsigned_less [of u] by simp
  then have "unat u div 4096 < 16" by auto
  then have "(of_nat (hex_value (hex_digit (unat u div 4096)) * 4096
      + hex_value (hex_digit (unat u div 256 mod 16)) * 256
      + hex_value (hex_digit (unat u div 16 mod 16)) * 16 + hex_value (hex_digit (unat u mod 16)))
      :: code_unit) = u"
    by (simp add: hex_value_digit four_hex_digits del: of_nat_add of_nat_mult)
  then show ?thesis by (simp add: unicode_escape_def cu_def del: of_nat_add of_nat_mult)
qed

lemma json_read_quote_unit:
  "json_read (quote_unit u @ r) = map_option (\<lambda>(t, q). (u # t, q)) (json_read r)"
  by (simp add: quote_unit_def json_read_unicode cu_def)

lemma surrogate_plain:
  "high_surrogate u \<or> low_surrogate u \<Longrightarrow> u \<noteq> 34 \<and> u \<noteq> 92"
  by (auto simp: high_surrogate_def low_surrogate_def)

lemma json_read_quote_units: "json_read (quote_units s @ 34 # r) = Some (s, r)"
proof (induction s rule: quote_units.induct)
  case (3 u v us)
  then show ?case
    using surrogate_plain [of u] surrogate_plain [of v]
    by (auto simp: json_read_quote_unit json_read_unicode)
qed (simp_all add: json_read_quote_unit json_read_unicode)

datatype tree_step = Index nat | Key jstr

definition step_segment :: "tree_step \<Rightarrow> jstr" where
  "step_segment s = (case s of
       Index i \<Rightarrow> lit ''['' @ nat_text i @ lit '']''
     | Key k \<Rightarrow> if simple_path_key k then lit ''.'' @ k
               else lit ''['' @ json_stringify k @ lit '']'')"

definition path_separator :: "code_unit \<Rightarrow> bool" where
  "path_separator u \<longleftrightarrow> u = cu CHR ''.'' \<or> u = cu CHR ''[''"

lemma simple_key_parts: "simple_path_key k \<Longrightarrow> u \<in> set k \<Longrightarrow> is_ident_part u"
  by (auto simp: simple_path_key_def is_ident_part_def list_all_iff split: list.splits)

lemma separator_not_part: "path_separator u \<Longrightarrow> \<not> is_ident_part u"
  by (auto simp: path_separator_def is_ident_part_def is_ident_start_def is_digit_def cu_def)

lemma split_at_class:
  assumes "xs @ r = ys @ q" and "\<And>u. u \<in> set xs \<union> set ys \<Longrightarrow> P u"
    and "r = [] \<or> \<not> P (hd r)" and "q = [] \<or> \<not> P (hd q)"
  shows "xs = ys \<and> r = q"
proof -
  have "takeWhile P (xs @ r) = xs" using assms(2,3) by (cases r) (auto simp: takeWhile_append2)
  moreover have "takeWhile P (ys @ q) = ys" using assms(2,4) by (cases q) (auto simp: takeWhile_append2)
  ultimately have "xs = ys" using assms(1) by metis
  with assms(1) show ?thesis by simp
qed

lemma index_segment_read:
  "lit ''['' @ nat_text i @ lit '']'' @ r = lit ''['' @ nat_text j @ lit '']'' @ q \<Longrightarrow> i = j \<and> r = q"
proof -
  assume "lit ''['' @ nat_text i @ lit '']'' @ r = lit ''['' @ nat_text j @ lit '']'' @ q"
  then have "nat_text i @ (lit '']'' @ r) = nat_text j @ (lit '']'' @ q)" by simp
  then have "nat_text i = nat_text j \<and> lit '']'' @ r = lit '']'' @ q"
    by (rule split_at_class [where P = is_digit])
      (auto dest: nat_text_digits simp: lit_def is_digit_def)
  then show ?thesis by simp
qed

lemma key_segment_read:
  assumes "lit ''.'' @ k @ r = lit ''.'' @ l @ q" "simple_path_key k" "simple_path_key l"
    and "r = [] \<or> path_separator (hd r)" "q = [] \<or> path_separator (hd q)"
  shows "k = l \<and> r = q"
proof -
  have "k @ r = l @ q" using assms(1) by simp
  then show ?thesis
    by (rule split_at_class [where P = is_ident_part])
      (use assms in \<open>auto dest: simple_key_parts separator_not_part\<close>)
qed

lemma quoted_segment_read:
  assumes "lit ''['' @ json_stringify k @ lit '']'' @ r = lit ''['' @ json_stringify l @ lit '']'' @ q"
  shows "k = l \<and> r = q"
proof -
  have "quote_units k @ 34 # (lit '']'' @ r) = quote_units l @ 34 # (lit '']'' @ q)"
    using assms by (simp add: json_stringify_def)
  then have "Some (k, lit '']'' @ r) = Some (l, lit '']'' @ q)"
    by (metis json_read_quote_units)
  then show ?thesis by simp
qed

lemma index_not_quoted:
  "lit ''['' @ nat_text i @ lit '']'' @ r \<noteq> lit ''['' @ json_stringify k @ lit '']'' @ q"
proof -
  have "hd (nat_text i) \<noteq> 34"
    using nat_text_digits [of "hd (nat_text i)" i] by (auto simp: is_digit_def)
  then show ?thesis by (cases "nat_text i") (auto simp: json_stringify_def)
qed

interpretation tree_path: segment_code step_segment path_separator
proof (unfold_locales, goal_cases)
  case (1 s)
  show ?case
    by (auto simp: step_segment_def path_separator_def str_simps split: tree_step.splits)
next
  case (2 s r t q)
  have dot_bracket: "lit ''.'' @ x \<noteq> lit ''['' @ y" "lit ''['' @ y \<noteq> lit ''.'' @ x" for x y
    by (simp_all add: str_simps)
  show ?case
  proof (cases s)
    case s: (Index i)
    show ?thesis
    proof (cases t)
      case (Index j)
      with s 2(1) index_segment_read [of i r j q] show ?thesis by (simp add: step_segment_def)
    next
      case (Key l)
      with s 2(1) index_not_quoted [of i r l q] dot_bracket show ?thesis
        by (simp add: step_segment_def split: if_splits)
    qed
  next
    case s: (Key k)
    show ?thesis
    proof (cases t)
      case (Index j)
      with s 2(1) index_not_quoted [of j q k r] dot_bracket show ?thesis
        by (simp add: step_segment_def split: if_splits)
    next
      case (Key l)
      with s 2 key_segment_read [of k r l q] quoted_segment_read [of k r l q] dot_bracket
      show ?thesis by (simp add: step_segment_def split: if_splits)
    qed
  qed
qed

section \<open>The index lists every node once\<close>

text \<open>
  The positions of a value: the path of steps to every node, in depth-first order. A parser that
  rejects duplicate keys delivers values whose objects have distinct keys throughout.
\<close>

definition step_of :: "jsval \<Rightarrow> jstr \<Rightarrow> tree_step" where
  "step_of v key = (if is_array v then Index (text_nat key) else Key key)"

function positions :: "jsval \<Rightarrow> tree_step list list" where
  "positions v = [] # (if is_scalar v then []
     else concat (map (\<lambda>(key, item). map ((#) (step_of v key)) (positions item)) (own_entries v)))"
  by pat_completeness auto
termination
  by (relation "measure size") (auto intro: child_smaller)

function unique_keys :: "jsval \<Rightarrow> bool" where
  "unique_keys v \<longleftrightarrow> (if is_scalar v then True
     else distinct (own_keys v) \<and> list_all (\<lambda>(key, item). unique_keys item) (own_entries v))"
  by pat_completeness auto
termination
  by (relation "measure size") (auto intro: child_smaller)

declare positions.simps [simp del] unique_keys.simps [simp del]

lemma child_path_segment:
  "(key, item) \<in> set (own_entries v) \<Longrightarrow>
     child_yaml_path path key (is_array v) = path @ step_segment (step_of v key)"
  by (cases v) (auto simp: child_yaml_path_def step_of_def step_segment_def)

text \<open>The record of a node, and the two shapes of a visit.\<close>

definition node_record :: "jsval \<Rightarrow> jstr \<Rightarrow> jstr \<Rightarrow> nat \<Rightarrow> jstr list \<Rightarrow> tree_record" where
  "node_record v name path index anc =
     \<lparr>rec_id = node_id index path, document_index = index, rec_name = name, rec_path = path,
       value_text = (if is_scalar v then Some (scalar_text v) else None),
       scalar = is_scalar v, ancestor_ids = anc\<rparr>"

abbreviation visit_child :: "jsval \<Rightarrow> jstr \<Rightarrow> nat \<Rightarrow> jstr list \<Rightarrow> jstr \<times> jsval \<Rightarrow> tree_record list" where
  "visit_child v path index anc e \<equiv>
     visit (snd e) (fst e) (child_yaml_path path (fst e) (is_array v)) index
       (anc @ [node_id index path])"

lemma visit_unfold:
  "visit v name path index anc = node_record v name path index anc #
     (if is_scalar v then [] else concat (map (visit_child v path index anc) (own_entries v)))"
  by (simp add: visit.simps [of v] node_record_def Let_def case_prod_unfold)

lemma visit_induct [case_names Visit]:
  assumes "\<And>v name path index anc.
    (\<And>e. \<not> is_scalar v \<Longrightarrow> e \<in> set (own_entries v) \<Longrightarrow>
       P (snd e) (fst e) (child_yaml_path path (fst e) (is_array v)) index
         (anc @ [node_id index path])) \<Longrightarrow>
    P v name path index anc"
  shows "P v name path index anc"
proof (induction v name path index anc rule: visit.induct)
  case (1 v name path index anc)
  show ?case
  proof (rule assms)
    fix e assume "\<not> is_scalar v" "e \<in> set (own_entries v)"
    from "1" [OF refl this prod.collapse]
    show "P (snd e) (fst e) (child_yaml_path path (fst e) (is_array v)) index
        (anc @ [node_id index path])" .
  qed
qed

lemma visit_paths:
  "map rec_path (visit v name path index anc)
     = map (\<lambda>p. path @ concat (map step_segment p)) (positions v)"
proof (induction v name path index anc rule: visit_induct)
  case (Visit v name path index anc)
  show ?case
  proof (cases "is_scalar v")
    case True
    then show ?thesis by (simp add: visit_unfold [of v] positions.simps [of v] node_record_def)
  next
    case False
    have "map rec_path (visit_child v path index anc e)
        = map (\<lambda>p. path @ concat (map step_segment p)) (map ((#) (step_of v (fst e))) (positions (snd e)))"
      if "e \<in> set (own_entries v)" for e
      using Visit [OF False that] child_path_segment [of "fst e" "snd e" v path] that by simp
    then have "map (map rec_path) (map (visit_child v path index anc) (own_entries v))
        = map (map (\<lambda>p. path @ concat (map step_segment p)))
            (map (\<lambda>e. map ((#) (step_of v (fst e))) (positions (snd e))) (own_entries v))"
      by simp
    with False show ?thesis
      by (simp add: visit_unfold [of v] positions.simps [of v] node_record_def map_concat
          case_prod_unfold del: map_map map_eq_conv)
  qed
qed

lemma visit_ids: "map rec_id (visit v name path index anc)
    = map (node_id index) (map rec_path (visit v name path index anc))"
proof (induction v name path index anc rule: visit_induct)
  case (Visit v name path index anc)
  then show ?case by (auto simp: visit_unfold [of v] node_record_def)
qed

lemma visit_id: "r \<in> set (visit v name path index anc) \<Longrightarrow> rec_id r = node_id index (rec_path r)"
  using visit_ids [of v name path index anc] by (simp add: map_eq_conv)

lemma visit_document: "r \<in> set (visit v name path index anc) \<Longrightarrow> document_index r = index"
proof (induction v name path index anc rule: visit_induct)
  case (Visit v name path index anc)
  then show ?case by (auto simp: visit_unfold [of v] node_record_def split: if_splits)
qed

lemma own_keys_array: "own_keys (JArr i vs) = map nat_text [0..<length vs]"
proof -
  have "own_keys (JArr i vs) = map nat_text (map fst (enumerate 0 vs))"
    by (simp add: case_prod_unfold comp_def del: map_fst_enumerate)
  then show ?thesis by (simp only: map_fst_enumerate add_0)
qed

lemma steps_distinct: "distinct (own_keys v) \<Longrightarrow> distinct (map (step_of v) (own_keys v))"
proof (cases "is_array v")
  case True
  then obtain i vs where "v = JArr i vs" by (cases v) auto
  then have "map (step_of v) (own_keys v) = map Index [0..<length vs]"
    by (simp only: own_keys_array map_map) (simp add: step_of_def)
  then show ?thesis by (simp add: distinct_map inj_on_def)
next
  case False
  then show "distinct (own_keys v) \<Longrightarrow> distinct (map (step_of v) (own_keys v))"
    by (auto simp: step_of_def distinct_map inj_on_def)
qed

lemma distinct_concat_heads:
  "distinct (map h xs) \<Longrightarrow> (\<And>x. x \<in> set xs \<Longrightarrow> distinct (f x)) \<Longrightarrow>
     distinct (concat (map (\<lambda>x. map ((#) (h x)) (f x)) xs))"
  by (induction xs) (auto simp: distinct_map)

lemma positions_distinct: "unique_keys v \<Longrightarrow> distinct (positions v)"
proof (induction v rule: positions.induct)
  case (1 v)
  show ?case
  proof (cases "is_scalar v")
    case True
    then show ?thesis by (simp add: positions.simps [of v])
  next
    case False
    with "1.prems" have keys: "distinct (own_keys v)"
      and sub: "\<And>key item. (key, item) \<in> set (own_entries v) \<Longrightarrow> unique_keys item"
      by (auto simp: unique_keys.simps [of v] list_all_iff)
    have "distinct (concat (map (\<lambda>e. map ((#) (step_of v (fst e))) (positions (snd e))) (own_entries v)))"
      using steps_distinct [OF keys] "1.IH" [OF False _ refl] sub
      by (intro distinct_concat_heads) (auto simp: comp_def)
    with False show ?thesis by (auto simp: positions.simps [of v] case_prod_unfold)
  qed
qed

lemma node_id_inject: "node_id i p = node_id j q \<longleftrightarrow> i = j \<and> p = q"
proof
  assume "node_id i p = node_id j q"
  then have "nat_text i @ (lit '':'' @ p) = nat_text j @ (lit '':'' @ q)" by (simp add: node_id_def)
  then have "nat_text i = nat_text j \<and> lit '':'' @ p = lit '':'' @ q"
    by (rule split_at_class [where P = is_digit])
      (auto dest: nat_text_digits simp: lit_def is_digit_def)
  then show "i = j \<and> p = q" by simp
qed simp

lemma visit_ids_distinct: "unique_keys v \<Longrightarrow> distinct (map rec_id (visit v name path index anc))"
  unfolding visit_ids visit_paths
  using positions_distinct [of v] tree_path.inj_path [of path]
  by (auto simp: distinct_map inj_on_def inj_def node_id_inject)

section \<open>Ancestors\<close>

lemma visit_prefix: "r \<in> set (visit v name path index anc) \<Longrightarrow> prefix path (rec_path r)"
proof (induction v name path index anc rule: visit_induct)
  case (Visit v name path index anc)
  have ext: "prefix path (child_yaml_path path key b)" for key b
    by (simp add: child_yaml_path_def)
  show ?case
  proof (cases "r = node_record v name path index anc")
    case True
    then show ?thesis by (simp add: node_record_def)
  next
    case False
    with Visit.prems obtain e where e: "\<not> is_scalar v" "e \<in> set (own_entries v)"
      "r \<in> set (visit_child v path index anc e)"
      by (auto simp: visit_unfold [of v] split: if_splits)
    from Visit.IH [OF e] ext show ?thesis by (meson prefix_order.trans)
  qed
qed

lemma child_path_strict: "strict_prefix path (child_yaml_path path key b)"
  by (auto simp: child_yaml_path_def strict_prefix_def lit_Cons)

text \<open>
  \<open>reveals\<close>: the identifier belongs to a collapsible node whose path leads to the record.
\<close>

definition reveals :: "tree_record list \<Rightarrow> tree_record \<Rightarrow> jstr \<Rightarrow> bool" where
  "reveals rs r i \<longleftrightarrow> (\<exists>q \<in> set rs. rec_id q = i \<and> \<not> scalar q \<and>
     document_index q = document_index r \<and> strict_prefix (rec_path q) (rec_path r))"

lemma visit_ancestors:
  "r \<in> set (visit v name path index anc) \<Longrightarrow>
     \<exists>ids. ancestor_ids r = anc @ ids \<and> (\<forall>i \<in> set ids. reveals (visit v name path index anc) r i)"
proof (induction v name path index anc rule: visit_induct)
  case (Visit v name path index anc)
  let ?here = "visit v name path index anc"
  show ?case
  proof (cases "r = node_record v name path index anc")
    case True
    then show ?thesis by (simp add: node_record_def)
  next
    case False
    with Visit.prems obtain e where e: "\<not> is_scalar v" "e \<in> set (own_entries v)"
      "r \<in> set (visit_child v path index anc e)"
      by (auto simp: visit_unfold [of v] split: if_splits)
    from Visit.IH [OF e] obtain ids where ids: "ancestor_ids r = (anc @ [node_id index path]) @ ids"
      "\<forall>i \<in> set ids. reveals (visit_child v path index anc e) r i" by blast
    have "reveals ?here r i" if "i \<in> set ids" for i
      using ids(2) that e(1,2) by (force simp: reveals_def visit_unfold [of v])
    moreover have "strict_prefix path (rec_path r)"
      using visit_prefix [OF e(3)] child_path_strict by (meson prefix_order.less_le_trans)
    then have "reveals ?here r (node_id index path)"
      using visit_document [OF e(3)] e(1)
      by (auto simp: reveals_def visit_unfold [of v] node_record_def)
    ultimately show ?thesis using ids(1) by auto
  qed
qed

section \<open>Highlighted segments\<close>

lemma find_from_SomeD:
  assumes "find_from p s k = Some m"
  shows "k \<le> m" "m + length p \<le> length s" "take (length p) (drop m s) = p"
    "\<And>i. k \<le> i \<Longrightarrow> i < m \<Longrightarrow> \<not> prefix p (drop i s)"
proof -
  from assms obtain n where n: "k \<le> length s" "find_sub p (drop k s) = Some n" "m = k + n"
    by (auto simp: find_from_def split: if_splits)
  with find_sub_Some [OF n(2)] show "k \<le> m" "m + length p \<le> length s" "take (length p) (drop m s) = p"
    by (auto simp: add.commute)
  show "\<not> prefix p (drop i s)" if "k \<le> i" "i < m" for i
    using find_sub_least [OF n(2), of "i - k"] that n by simp
qed

lemma slice_take: "c \<le> m \<Longrightarrow> take c s @ slice s c m = take m s"
  by (metis le_add_diff_inverse slice_def take_add)

definition ranges_text :: "text_range list \<Rightarrow> jstr" where
  "ranges_text rs = concat (map range_text rs)"

text \<open>
  The loop returns, it has cut the source up to its cursor, and it stops where no occurrence is
  left. The property \<open>P\<close> of single segments is kept if the segments of a round have it.
\<close>

lemma range_loop_returns:
  assumes "normalized \<noteq> []"
    and "\<And>c m. find_from normalized low c = Some m \<Longrightarrow>
      P \<lparr>range_text = slice source c m, is_match = False\<rparr> \<and>
      P \<lparr>range_text = slice source m (m + length normalized), is_match = True\<rparr>"
  shows "c \<le> length low \<Longrightarrow> ranges_text rs = take c source \<Longrightarrow> (\<And>r. r \<in> set rs \<Longrightarrow> P r) \<Longrightarrow>
    \<exists>c' rs'. range_loop source low normalized c rs = Some (c', rs') \<and>
      ranges_text rs' = take c' source \<and> c' \<le> length low \<and>
      find_from normalized low c' = None \<and> (\<forall>r \<in> set rs'. P r)"
proof (induction "length low - c" arbitrary: c rs rule: less_induct)
  case less
  show ?case
  proof (cases "find_from normalized low c")
    case None
    with less.prems show ?thesis by (simp add: range_loop.simps [of source low normalized c])
  next
    case (Some m)
    note m = find_from_SomeD [OF Some]
    let ?c = "m + length normalized"
    let ?rs = "rs @ (if m > c then [\<lparr>range_text = slice source c m, is_match = False\<rparr>] else [])
      @ [\<lparr>range_text = slice source m ?c, is_match = True\<rparr>]"
    have "ranges_text ?rs = take c source @ slice source c m @ slice source m ?c"
      using less.prems(2) m(1) by (cases "m > c") (auto simp: ranges_text_def slice_def)
    also have "\<dots> = take ?c source"
      using slice_take [of c m source] slice_take [of m ?c source] m(1)
      by (metis append.assoc le_add1)
    finally have cut_text: "ranges_text ?rs = take ?c source" .
    have "length low - ?c < length low - c" using m(1,2) assms(1) by (cases normalized) auto
    moreover have "?c \<le> length low" using m(2) .
    moreover have "P r" if "r \<in> set ?rs" for r
      using that less.prems(3) assms(2) [OF Some] by (auto split: if_splits)
    ultimately show ?thesis
      using less.hyps [of ?c ?rs] cut_text Some
      by (simp add: range_loop.simps [of source low normalized c])
  qed
qed

lemma ranges_text_simps [simp]:
  "ranges_text [] = []" "ranges_text (rs @ qs) = ranges_text rs @ ranges_text qs"
  "ranges_text (r # rs) = range_text r @ ranges_text rs"
  by (simp_all add: ranges_text_def)

text \<open>
  A segment and the part of the lower-cased text at its place: as long as the segment, the query itself
  if the segment is marked, and without any occurrence of the query if it is not.
\<close>

definition segment_ok :: "jstr \<Rightarrow> text_range \<Rightarrow> jstr \<Rightarrow> bool" where
  "segment_ok normalized r l \<longleftrightarrow> length l = length (range_text r) \<and>
     (if is_match r then l = normalized else \<not> sublist normalized l)"

lemma no_occurrence_before:
  assumes "find_from p s c = Some m" and "p \<noteq> []"
  shows "\<not> sublist p (slice s c m)"
proof
  assume "sublist p (slice s c m)"
  then obtain us vs where sl: "slice s c m = us @ p @ vs" by (auto simp: sublist_def)
  note m = find_from_SomeD [OF assms(1)]
  have "length us + length p \<le> m - c"
    using sl m(1,2) by (metis append.assoc le_add1 length_append length_take min.bounded_iff slice_def)
  then have before: "c + length us < m" using assms(2) m(1) by (cases p) auto
  have "drop (length us) (slice s c m) = p @ vs" using sl by simp
  then have "prefix p (drop (length us) (take (m - c) (drop c s)))" by (simp add: slice_def)
  then have "prefix p (drop (c + length us) s)"
    by (metis drop_drop drop_take prefix_order.trans take_is_prefix add.commute)
  with m(4) [of "c + length us"] before show False by simp
qed

lemma slice_length: "length (slice s a b) = min (b - a) (length s - a)"
  by (simp add: slice_def)

text \<open>The loop cuts the lower-cased text at the same places as the shown one.\<close>

lemma range_loop_segments:
  assumes "normalized \<noteq> []" and "length low = length source"
  shows "list_all2 (segment_ok normalized) rs ls \<Longrightarrow> concat ls = take c low \<Longrightarrow> c \<le> length low \<Longrightarrow>
    \<exists>c' rs' ls'. range_loop source low normalized c rs = Some (c', rs') \<and> find_from normalized low c' = None \<and>
      c' \<le> length low \<and> list_all2 (segment_ok normalized) rs' ls' \<and> concat ls' = take c' low"
proof (induction "length low - c" arbitrary: c rs ls rule: less_induct)
  case less
  show ?case
  proof (cases "find_from normalized low c")
    case None
    then show ?thesis using less.prems by (auto simp: range_loop.simps [of source low normalized c])
  next
    case (Some m)
    note m = find_from_SomeD [OF Some]
    let ?n = "m + length normalized"
    let ?plain = "if m > c then [\<lparr>range_text = slice source c m, is_match = False\<rparr>] else []"
    let ?hit = "[\<lparr>range_text = slice source m ?n, is_match = True\<rparr>]"
    let ?rs = "rs @ ?plain @ ?hit" and ?ls = "ls @ (if m > c then [slice low c m] else []) @ [slice low m ?n]"
    have hit: "slice low m ?n = normalized"
      using m(3) by (simp add: slice_def)
    have plain: "\<not> sublist normalized (slice low c m)" by (rule no_occurrence_before [OF Some assms(1)])
    have "list_all2 (segment_ok normalized) ?plain (if m > c then [slice low c m] else [])"
      using plain assms(2) by (simp add: segment_ok_def slice_length)
    moreover have "list_all2 (segment_ok normalized) ?hit [slice low m ?n]"
    proof -
      have "length (slice source m ?n) = length (slice low m ?n)" by (simp only: slice_length assms(2))
      with hit show ?thesis by (simp add: segment_ok_def)
    qed
    ultimately have segments: "list_all2 (segment_ok normalized) ?rs ?ls"
      using less.prems(1) by (intro list_all2_appendI)
    have "concat ?ls = take m low @ slice low m ?n"
      using less.prems(2) m(1) slice_take [OF m(1), of low] by (cases "m > c") auto
    then have cut: "concat ?ls = take ?n low" using slice_take [of m ?n low] by simp
    have bound: "?n \<le> length low" using m(2) .
    have "length low - ?n < length low - c" using m(1) bound assms(1) by (cases normalized) auto
    from less.hyps [OF this segments cut bound] show ?thesis
      using Some by (simp add: range_loop.simps [of source low normalized c])
  qed
qed

lemma ranges_keep_text:
  "\<exists>rs. matching_text_ranges lower source query = Some rs \<and> ranges_text rs = source \<and> rs \<noteq> []"
proof (cases "normalized_query lower query = []")
  case True
  then show ?thesis by (simp add: matching_text_ranges_def Let_def)
next
  case False
  from range_loop_returns [OF False, of "lower source" "\<lambda>_. True" source 0 "[]"]
  obtain c rs where "range_loop source (lower source) (normalized_query lower query) 0 [] = Some (c, rs)"
    "ranges_text rs = take c source" by auto
  with False show ?thesis
    by (auto simp: matching_text_ranges_def Let_def split: if_splits)
qed

section \<open>Properties\<close>

text \<open>C4: no two nodes of the tree index share an identifier: over documents with distinct numbers
  whose objects have distinct keys, the identifier of a record determines the record's document and
  its path determines the node. Canonical paths are unambiguous whatever the keys contain.\<close>

theorem tree_ids_distinct:
  assumes "distinct (map fst documents)" and "\<And>i v. (i, v) \<in> set documents \<Longrightarrow> unique_keys v"
  shows "distinct (map rec_id (build_tree_search_index documents))"
  using assms
proof (induction documents)
  case (Cons d documents)
  obtain i v where d: "d = (i, v)" by (cases d)
  let ?here = "visit v (lit ''root'') (lit ''$'') i []"
  have "rec_id r \<noteq> rec_id q" if "r \<in> set ?here" "q \<in> set (build_tree_search_index documents)" for r q
  proof -
    from that(2) obtain j w where j: "(j, w) \<in> set documents" "q \<in> set (visit w (lit ''root'') (lit ''$'') j [])"
      by (auto simp: build_tree_search_index_def)
    have "i \<noteq> j" using Cons.prems(1) j(1) d by force
    then show ?thesis
      using visit_id [OF that(1)] visit_id [OF j(2)] by (simp add: node_id_inject)
  qed
  then have "set (map rec_id ?here) \<inter> set (map rec_id (build_tree_search_index documents)) = {}"
    by fastforce
  moreover have "distinct (map rec_id ?here)"
    using Cons.prems(2) d by (intro visit_ids_distinct) auto
  moreover have "distinct (map rec_id (build_tree_search_index documents))"
    using Cons.prems by (intro Cons.IH) auto
  moreover have "build_tree_search_index (d # documents) = ?here @ build_tree_search_index documents"
    by (simp add: build_tree_search_index_def d)
  ultimately show ?case by simp
qed (simp add: build_tree_search_index_def)

lemma tree_ids_distinct_witness:
  "distinct (map rec_id (build_tree_search_index
     [(1, JObj 1 [(lit ''a'', JNull), (lit ''b.c'', JArr 2 [JNull])]), (2, jlit ''x'')]))"
  by (rule tree_ids_distinct) (auto simp: unique_keys.simps lit_inject)

text \<open>Every collapsed section that hides a match is opened: each identifier in the ancestor
  list of a record is the identifier of a mapping or sequence node of the same document, itself in
  the index, whose path is a proper prefix of the record's path.\<close>

theorem tree_ancestors_reveal:
  assumes "r \<in> set (build_tree_search_index documents)" and "i \<in> set (ancestor_ids r)"
  shows "reveals (build_tree_search_index documents) r i"
proof -
  from assms(1) obtain j v where v: "(j, v) \<in> set documents"
    "r \<in> set (visit v (lit ''root'') (lit ''$'') j [])"
    by (auto simp: build_tree_search_index_def)
  from visit_ancestors [OF v(2)] assms(2)
  have "reveals (visit v (lit ''root'') (lit ''$'') j []) r i" by simp
  with v(1) show ?thesis by (force simp: reveals_def build_tree_search_index_def)
qed

lemma tree_ancestors_reveal_witness:
  "reveals (build_tree_search_index [(1, JObj 1 [(lit ''a'', JNull)])])
     (node_record JNull (lit ''a'') (lit ''$.a'') 1 [node_id 1 (lit ''$'')]) (node_id 1 (lit ''$''))"
proof (rule tree_ancestors_reveal)
  have "child_yaml_path (lit ''$'') (lit ''a'') False = lit ''$.a''"
    by (simp add: child_yaml_path_def simple_path_key_def is_ident_start_def str_simps)
  then show "node_record JNull (lit ''a'') (lit ''$.a'') 1 [node_id 1 (lit ''$'')]
      \<in> set (build_tree_search_index [(1, JObj 1 [(lit ''a'', JNull)])])"
    by (simp add: build_tree_search_index_def visit_unfold)
qed (simp add: node_record_def)

text \<open>C5: highlighting always returns, and never loses, repeats or reorders a character of the shown
  text: the segments put together are the text, whatever the host's lower-casing does.\<close>

theorem highlight_keeps_text:
  "\<exists>rs. matching_text_ranges lower source query = Some rs \<and> ranges_text rs = source \<and> rs \<noteq> []"
  by (rule ranges_keep_text)

text \<open>The Unicode mapping of U+0130 to two code units, as \<open>toLocaleLowerCase\<close> applies it.\<close>

definition lower_dotted_i :: "jstr \<Rightarrow> jstr" where
  "lower_dotted_i s = concat (map (\<lambda>u. if u = 0x130 then [0x69, 0x307] else [ascii_lower u]) s)"

text \<open>C6: on every text that lower-casing leaves at its length (every ASCII text,
  and with the default Unicode mappings every text without U+0130), the highlights are exactly right: cut at the same places as the segments, the lower-cased
  text is the query under each marked segment, and holds no occurrence of it under any other.\<close>

theorem highlight_exact:
  assumes "length (lower source) = length source" and "normalized_query lower query \<noteq> []"
  shows "\<exists>rs ls. matching_text_ranges lower source query = Some rs \<and> ranges_text rs = source \<and>
    concat ls = lower source \<and> list_all2 (segment_ok (normalized_query lower query)) rs ls"
proof -
  let ?q = "normalized_query lower query" and ?low = "lower source"
  obtain c rs ls where loop: "range_loop source ?low ?q 0 [] = Some (c, rs)" "find_from ?q ?low c = None"
    "c \<le> length ?low" "list_all2 (segment_ok ?q) rs ls" "concat ls = take c ?low"
    using range_loop_segments [OF assms(2,1), of "[]" "[]" 0] by auto
  let ?rest = "if c < length source then [\<lparr>range_text = drop c source, is_match = False\<rparr>] else []"
  let ?low_rest = "if c < length source then [drop c ?low] else []"
  have "\<not> sublist ?q (drop c ?low)" using loop(2,3) by (simp add: find_from_def find_sub_None)
  then have "list_all2 (segment_ok ?q) ?rest ?low_rest" using assms(1) by (simp add: segment_ok_def)
  then have all: "list_all2 (segment_ok ?q) (rs @ ?rest) (ls @ ?low_rest)"
    using loop(4) by (rule list_all2_appendI [rotated])
  have cut: "concat (ls @ ?low_rest) = ?low"
    using loop(3,5) assms(1) by simp
  have result: "matching_text_ranges lower source query = Some (if rs @ ?rest = []
      then [\<lparr>range_text = source, is_match = False\<rparr>] else rs @ ?rest)"
    using assms(2) loop(1) by (simp add: matching_text_ranges_def Let_def)
  obtain qs where qs: "matching_text_ranges lower source query = Some qs" "ranges_text qs = source"
    using ranges_keep_text [of lower source query] by blast
  show ?thesis
  proof (cases "rs @ ?rest = []")
    case True
    then have "ls @ ?low_rest = []" using all by simp
    then have "?low = []" using cut by simp
    then have "source = []" using assms(1) by simp
    then have "list_all2 (segment_ok ?q) [\<lparr>range_text = source, is_match = False\<rparr>] [[]]"
      using assms(2) by (simp add: segment_ok_def)
    moreover have "qs = [\<lparr>range_text = source, is_match = False\<rparr>]"
      using trans [OF qs(1) [symmetric] result] by (simp only: if_P [OF True] option.inject)
    moreover have "concat [[]] = ?low" by (simp add: \<open>?low = []\<close>)
    ultimately show ?thesis using qs by blast
  next
    case False
    have same: "qs = rs @ ?rest"
      using trans [OF qs(1) [symmetric] result] by (simp only: if_not_P [OF False] option.inject)
    show ?thesis by (intro exI conjI, rule qs(1), rule qs(2), rule cut) (use all in \<open>simp only: same\<close>)
  qed
qed

text \<open>A lower-casing that lengthens other texts, but not this one.\<close>

lemma highlight_exact_witness:
  "\<exists>rs ls. matching_text_ranges lower_dotted_i (lit ''aBab'') (lit ''AB'') = Some rs \<and> concat ls = lit ''abab'' \<and>
     list_all2 (segment_ok (lit ''ab'')) rs ls"
proof -
  have "normalized_query lower_dotted_i (lit ''AB'') = lit ''ab''" "lower_dotted_i (lit ''aBab'') = lit ''abab''"
    by code_simp+
  with highlight_exact [of lower_dotted_i "lit ''aBab''" "lit ''AB''"]
  show ?thesis by auto
qed

text \<open>A lower-casing that lengthens the text moves the highlight off the match: with the Unicode
  mapping of U+0130 to two code units, searching \<open>a\<close> in U+0130 followed by \<open>a\<close> marks an empty
  segment and leaves the matching character unmarked.\<close>

theorem highlight_misplaced_when_lengthened:
  "matching_text_ranges lower_dotted_i [0x130, 97] [97] =
     Some [\<lparr>range_text = [0x130, 97], is_match = False\<rparr>, \<lparr>range_text = [], is_match = True\<rparr>]"
  by (simp add: matching_text_ranges_def normalized_query_def lower_dotted_i_def Let_def
      range_loop.simps find_from_def str_simps)

end
