(* ===== verification/Markdown.thy ===== *)
theory Markdown
  imports FormatDiff
begin

text \<open>
  The Markdown writers of \<open>report.js\<close>: \<open>markdownText\<close>, \<open>codeSpan\<close> and \<open>fencedCode\<close>, as functions of
  the text \<open>String(value ?? "")\<close> yields, and readers of what they write after the CommonMark
  specification (backslash escapes, code spans, fenced code blocks, line endings). The theorems say
  which texts a reader gets back, and where it does not.
\<close>

section \<open>Model\<close>

abbreviation bt :: code_unit where "bt \<equiv> 96"
abbreviation space :: code_unit where "space \<equiv> 32"
abbreviation backslash :: code_unit where "backslash \<equiv> 92"

text \<open>The class of the first replacement of \<open>markdownText\<close>: backslash, backtick and \<open>*_[]<>|~\<close>.\<close>

definition special :: "code_unit \<Rightarrow> bool" where
  "special u \<longleftrightarrow> u = backslash \<or> u = bt \<or> u \<in> set (lit ''*_[]<>|~'')"

fun escape :: "jstr \<Rightarrow> jstr" where
  "escape [] = []"
| "escape (u # us) = (if special u then backslash # u # escape us else u # escape us)"

text \<open>\<open>replace(/\r?\n/g, " ")\<close>: a carriage return on its own stays.\<close>

fun spaced :: "jstr \<Rightarrow> jstr" where
  "spaced [] = []"
| "spaced (u # us) =
     (if u = cr \<and> prefix [lf] us then space # spaced (tl us)
      else if u = lf then space # spaced us
      else u # spaced us)"

definition markdown_text :: "jstr \<Rightarrow> jstr" where
  "markdown_text s = spaced (escape s)"

text \<open>The lengths of the maximal runs of a code unit: \<open>match(/`+/g)\<close>.\<close>

function runs :: "'a \<Rightarrow> 'a list \<Rightarrow> nat list" where
  "runs c [] = []"
| "runs c (x # xs) =
     (if x = c then Suc (length (takeWhile ((=) c) xs)) # runs c (dropWhile ((=) c) xs) else runs c xs)"
  by pat_completeness auto
termination
  by (relation "measure (length \<circ> snd)") (auto simp: less_Suc_eq_le length_dropWhile_le)

definition fence_length :: "nat \<Rightarrow> jstr \<Rightarrow> nat" where
  "fence_length least s = fold max (map Suc (runs bt s)) least"

definition padded :: "jstr \<Rightarrow> bool" where
  "padded s \<longleftrightarrow> s \<noteq> [] \<and> (is_ws (hd s) \<or> is_ws (last s))"

definition code_span :: "jstr \<Rightarrow> jstr" where
  "code_span s =
     (let t = spaced s;
          fence = replicate (fence_length 1 t) bt;
          padding = (if padded t then [space] else [])
      in fence @ padding @ t @ padding @ fence)"

text \<open>\<open>replace(/\n+$/, "")\<close>.\<close>

definition strip_newlines :: "jstr \<Rightarrow> jstr" where
  "strip_newlines s = rev (dropWhile ((=) lf) (rev s))"

definition fenced_code :: "jstr \<Rightarrow> jstr \<Rightarrow> jstr" where
  "fenced_code s language =
     (let t = strip_newlines (normalize_eol s);
          fence = replicate (fence_length 3 t) bt
      in fence @ language @ lf # t @ lf # fence)"

section \<open>Readers\<close>

text \<open>
  The text of a paragraph, after CommonMark with the tables and strike-through of GitHub: a backslash
  before ASCII punctuation stands for the punctuation; an entity reference stands for its text, which
  \<open>entity\<close> gives for what is between \<open>&\<close> and \<open>;\<close>; a character that starts or ends a code span, an
  emphasis, a link, HTML, strike-through or a table cell, or ends the line, is not text and is refused.
\<close>

definition ascii_punctuation :: "code_unit \<Rightarrow> bool" where
  "ascii_punctuation u \<longleftrightarrow> 33 \<le> u \<and> u \<le> 47 \<or> 58 \<le> u \<and> u \<le> 64 \<or> 91 \<le> u \<and> u \<le> 96 \<or> 123 \<le> u \<and> u \<le> 126"

definition marks_up :: "code_unit \<Rightarrow> bool" where
  "marks_up u \<longleftrightarrow> u \<in> {bt, lf, cr} \<or> u \<in> set (lit ''*_[]<~|'')"

definition reference_unit :: "code_unit \<Rightarrow> bool" where
  "reference_unit u \<longleftrightarrow> u = cu CHR ''#'' \<or> 48 \<le> u \<and> u \<le> 57 \<or> 65 \<le> u \<and> u \<le> 90 \<or> 97 \<le> u \<and> u \<le> 122"

text \<open>The reference at the start of a text after \<open>&\<close>: what it stands for.\<close>

definition reference_text :: "(jstr \<Rightarrow> jstr option) \<Rightarrow> jstr \<Rightarrow> jstr option" where
  "reference_text entity us = (if prefix [cu CHR '';''] (dropWhile reference_unit us)
     then entity (takeWhile reference_unit us) else None)"

definition after_reference :: "jstr \<Rightarrow> jstr" where
  "after_reference us = tl (dropWhile reference_unit us)"

lemma after_reference_less: "length (after_reference us) \<le> length us"
  using length_dropWhile_le [of reference_unit us] by (simp add: after_reference_def)

function read_inline :: "(jstr \<Rightarrow> jstr option) \<Rightarrow> jstr \<Rightarrow> jstr option" where
  "read_inline entity [] = Some []"
| "read_inline entity (u # us) =
     (if u = backslash \<and> us \<noteq> [] \<and> ascii_punctuation (hd us) then map_option (Cons (hd us)) (read_inline entity (tl us))
      else if u = cu CHR ''&'' then
        (case reference_text entity us of
           Some t \<Rightarrow> map_option ((@) t) (read_inline entity (after_reference us))
         | None \<Rightarrow> map_option (Cons u) (read_inline entity us))
      else if marks_up u then None
      else map_option (Cons u) (read_inline entity us))"
  by pat_completeness auto
termination
  by (relation "measure (length \<circ> snd)") (auto simp: less_Suc_eq_le after_reference_less)

text \<open>
  A paragraph. It is none if it may start another block: a heading, a quotation, a list, a rule, a
  fence, HTML, a link definition, a table, or indented code; blanks at its end are dropped, which a text that
  ends in none does not feel.
\<close>

definition may_start_block :: "code_unit \<Rightarrow> bool" where
  "may_start_block u \<longleftrightarrow> u \<in> {space, 9, bt} \<or> u \<in> set (lit ''#>-+*_~<[|='') \<or> 48 \<le> u \<and> u \<le> 57"

text \<open>Those of them, and the line ends, that the writer does not escape.\<close>

definition block_marker :: "code_unit \<Rightarrow> bool" where
  "block_marker u \<longleftrightarrow> u \<in> {space, 9, lf, cr} \<or> u \<in> set (lit ''#-+='') \<or> 48 \<le> u \<and> u \<le> 57"

definition read_paragraph :: "(jstr \<Rightarrow> jstr option) \<Rightarrow> jstr \<Rightarrow> jstr option" where
  "read_paragraph entity s = (if s = [] \<or> may_start_block (hd s) \<or> last s = space \<or> last s = 9 then None
     else read_inline entity s)"

text \<open>What a text shows if nothing in it is markup but its entity references.\<close>

function decode_references :: "(jstr \<Rightarrow> jstr option) \<Rightarrow> jstr \<Rightarrow> jstr" where
  "decode_references entity [] = []"
| "decode_references entity (u # us) =
     (case (if u = cu CHR ''&'' then reference_text entity us else None) of
        Some t \<Rightarrow> t @ decode_references entity (after_reference us)
      | None \<Rightarrow> u # decode_references entity us)"
  by pat_completeness auto
termination
  by (relation "measure (length \<circ> snd)") (auto simp: less_Suc_eq_le after_reference_less)

text \<open>The lines of a document: they end with a line feed, a carriage return or both.\<close>

definition markdown_lines :: "jstr \<Rightarrow> jstr list" where
  "markdown_lines s = split_on lf (normalize_eol s)"

text \<open>
  A code span: it opens with a run of backticks and closes with the next run of the same length;
  line endings in it are spaces, and one space at either end is dropped unless all is spaces.
\<close>

function closing :: "nat \<Rightarrow> jstr \<Rightarrow> (jstr \<times> jstr) option" where
  "closing n [] = None"
| "closing n (u # us) =
     (if u = bt then
        (let k = Suc (length (takeWhile ((=) bt) us)); rest = dropWhile ((=) bt) us
         in if k = n then Some ([], rest)
            else map_option (\<lambda>(content, after). (replicate k bt @ content, after)) (closing n rest))
      else map_option (\<lambda>(content, after). (u # content, after)) (closing n us))"
  by pat_completeness auto
termination
  by (relation "measure (length \<circ> snd)") (auto simp: less_Suc_eq_le length_dropWhile_le)

definition one_line :: "jstr \<Rightarrow> jstr" where
  "one_line s = map (\<lambda>u. if u = lf then space else u) (normalize_eol s)"

definition strip_one :: "jstr \<Rightarrow> jstr" where
  "strip_one s =
     (if 2 \<le> length s \<and> hd s = space \<and> last s = space \<and> list_ex (\<lambda>u. u \<noteq> space) s
      then butlast (tl s) else s)"

definition read_code_span :: "jstr \<Rightarrow> (jstr \<times> jstr) option" where
  "read_code_span s =
     (let n = length (takeWhile ((=) bt) s) in
      if n = 0 then None
      else map_option (\<lambda>(content, after). (strip_one (one_line content), after))
        (closing n (dropWhile ((=) bt) s)))"

text \<open>
  A fenced code block: it opens with at least three backticks and an info text without any, and
  closes with the first line that, after at most three spaces, holds at least as many backticks and
  then only spaces and tabs.
\<close>

definition closes :: "nat \<Rightarrow> jstr \<Rightarrow> bool" where
  "closes n l \<longleftrightarrow>
     (let indent = length (takeWhile ((=) space) l); fence = takeWhile ((=) bt) (drop indent l)
      in indent \<le> 3 \<and> n \<le> length fence \<and>
         list_all (\<lambda>u. u = space \<or> u = 9) (drop (indent + length fence) l))"

definition read_fenced_code :: "jstr \<Rightarrow> (jstr \<times> jstr list) option" where
  "read_fenced_code s =
     (case split_on lf s of
        [] \<Rightarrow> None
      | l # ls \<Rightarrow>
          (let n = length (takeWhile ((=) bt) l); info = drop n l
           in if 3 \<le> n \<and> bt \<notin> set info
              then Some (info, takeWhile (\<lambda>l. \<not> closes n l) ls) else None))"

section \<open>Laws\<close>

lemma fence_length_alt: "fence_length least s = Max (insert least (Suc ` set (runs bt s)))"
  using Max.set_eq_fold [of least "map Suc (runs bt s)"] by (simp add: fence_length_def)

lemma fence_length_bounds: "least \<le> fence_length least s" "r \<in> set (runs bt s) \<Longrightarrow> r < fence_length least s"
  by (auto simp: fence_length_alt Suc_le_eq [symmetric] intro!: Max_ge)

lemma run_split: "x # xs = replicate (Suc (length (takeWhile ((=) x) xs))) x @ dropWhile ((=) x) xs"
proof -
  have "replicate (length (takeWhile ((=) x) xs)) x = takeWhile ((=) x) xs"
    by (rule replicate_length_same) (auto dest: set_takeWhileD)
  then show ?thesis by simp
qed

lemma dropWhile_run [simp]: "dropWhile ((=) c) xs \<noteq> c # ys"
  by (induction xs) auto

lemma runs_cover:
  assumes "sublist (replicate k c) s" and "0 < k"
  shows "\<exists>r \<in> set (runs c s). k \<le> r"
  using assms(1)
proof (induction c s rule: runs.induct)
  case (2 c x xs)
  show ?case
  proof (cases "x = c")
    case True
    let ?m = "Suc (length (takeWhile ((=) c) xs))" and ?rest = "dropWhile ((=) c) xs"
    have rest: "prefix (replicate j c) ?rest \<Longrightarrow> j = 0" for j
      by (cases j; cases ?rest) (auto simp: prefix_def)
    consider "sublist (replicate k c) (replicate ?m c)" | "sublist (replicate k c) ?rest"
      | a b where "replicate k c = a @ b" "suffix a (replicate ?m c)" "prefix b ?rest"
      using "2.prems" run_split [of x xs] True by (metis sublist_append)
    then show ?thesis
    proof cases
      case 1
      then have "k \<le> ?m" using sublist_length_le by fastforce
      with True show ?thesis by simp
    next
      case 2
      with "2.IH"(1) [OF True] True show ?thesis by auto
    next
      case 3
      then have "b = replicate (length b) c" by (metis append_eq_conv_conj drop_replicate length_replicate)
      with rest 3(3) have "b = []" by (metis replicate_0)
      with 3(1,2) have "k \<le> ?m" using suffix_length_le by fastforce
      with True show ?thesis by simp
    qed
  next
    case False
    with "2.prems" assms(2) have "sublist (replicate k c) xs"
      by (cases k) (auto simp: sublist_Cons_right)
    with "2.IH"(2) [OF False] False show ?thesis by simp
  qed
qed (use assms(2) in auto)

lemma runs_snoc: "x \<noteq> c \<Longrightarrow> runs c (s @ [x]) = runs c s"
proof (induction c s rule: runs.induct)
  case (2 c y ys)
  show ?case
  proof (cases "\<forall>u \<in> set ys. c = u")
    case True
    with "2.prems" have eqs: "takeWhile ((=) c) (ys @ [x]) = ys" "dropWhile ((=) c) (ys @ [x]) = [x]"
      "takeWhile ((=) c) ys = ys" "dropWhile ((=) c) ys = []"
      by (simp_all add: takeWhile_append dropWhile_append takeWhile_eq_all_conv dropWhile_eq_Nil_conv)
    show ?thesis using 2 by (simp add: eqs)
  next
    case False
    then have "takeWhile ((=) c) (ys @ [x]) = takeWhile ((=) c) ys"
      "dropWhile ((=) c) (ys @ [x]) = dropWhile ((=) c) ys @ [x]"
      by (auto simp add: takeWhile_append dropWhile_append)
    with 2 show ?thesis by simp
  qed
qed auto

lemma takeWhile_replicate_append:
  "after = [] \<or> hd after \<noteq> c \<Longrightarrow> takeWhile ((=) c) (replicate n c @ after) = replicate n c"
  "after = [] \<or> hd after \<noteq> c \<Longrightarrow> dropWhile ((=) c) (replicate n c @ after) = after"
  by (induction n; cases after; auto)+

lemma closing_text:
  assumes "\<forall>r \<in> set (runs bt t). r \<noteq> n" and "0 < n"
    and "t = [] \<or> last t \<noteq> bt" and "after = [] \<or> hd after \<noteq> bt"
  shows "closing n (t @ replicate n bt @ after) = Some (t, after)"
  using assms(1,3)
proof (induction t rule: length_induct)
  case (1 t)
  show ?case
  proof (cases t)
    case Nil
    obtain m where "n = Suc m" using assms(2) by (cases n) auto
    with Nil takeWhile_replicate_append [OF assms(4), of m] show ?thesis by (simp add: Let_def)
  next
    case (Cons u us)
    show ?thesis
    proof (cases "u = bt")
      case True
      let ?rest = "dropWhile ((=) bt) us" and ?k = "Suc (length (takeWhile ((=) bt) us))"
      have some: "\<not> (\<forall>v \<in> set us. bt = v)"
      proof
        assume "\<forall>v \<in> set us. bt = v"
        with True Cons have "\<forall>v \<in> set t. v = bt" by auto
        with "1.prems"(2) Cons show False using last_in_set [of t] by auto
      qed
      then have rest: "?rest \<noteq> []" by (simp add: dropWhile_eq_Nil_conv)
      have "last us = last ?rest" by (metis rest last_appendR takeWhile_dropWhile_id)
      moreover have "us \<noteq> []" using some by auto
      ultimately have "last ?rest \<noteq> bt" using "1.prems"(2) Cons by simp
      moreover have "length ?rest < length t" using Cons by (simp add: less_Suc_eq_le length_dropWhile_le)
      moreover have "\<forall>r \<in> set (runs bt ?rest). r \<noteq> n" "?k \<noteq> n" using "1.prems"(1) Cons True by auto
      ultimately have "closing n (?rest @ replicate n bt @ after) = Some (?rest, after)"
        using "1.IH" rest by blast
      moreover have "takeWhile ((=) bt) (us @ replicate n bt @ after) = takeWhile ((=) bt) us"
        "dropWhile ((=) bt) (us @ replicate n bt @ after) = ?rest @ replicate n bt @ after"
        using some by (auto simp add: takeWhile_append dropWhile_append)
      moreover have "replicate ?k bt @ ?rest = t" using run_split [of u us] True Cons by simp
      ultimately show ?thesis using True Cons \<open>?k \<noteq> n\<close> by (simp add: Let_def)
    next
      case False
      with "1.prems" Cons have "closing n (us @ replicate n bt @ after) = Some (us, after)"
        by (intro "1.IH" [rule_format]) (auto split: if_splits)
      with False Cons show ?thesis by simp
    qed
  qed
qed

text \<open>Line endings.\<close>

lemma normalize_eol_Cons:
  "normalize_eol (u # us) =
     (if u = cr then lf # normalize_eol (if prefix [lf] us then tl us else us) else u # normalize_eol us)"
  by (cases us) auto

lemma spaced_no_lf [simp]: "lf \<notin> set (spaced s)"
  by (induction s rule: spaced.induct) auto

lemma spaced_eq_Nil [simp]: "spaced s = [] \<longleftrightarrow> s = []"
  by (cases s) auto

lemma no_lf_normalize: "lf \<notin> set s \<Longrightarrow> normalize_eol s = map (\<lambda>u. if u = cr then lf else u) s"
  by (induction s) (auto simp: normalize_eol_Cons prefix_def)

lemma no_lf_one_line: "lf \<notin> set s \<Longrightarrow> one_line s = map (\<lambda>u. if u = cr then space else u) s"
  by (auto simp: one_line_def no_lf_normalize)

lemma one_line_spaced: "one_line (spaced s) = one_line s"
proof -
  have "map (\<lambda>u. if u = cr then space else u) (spaced s) = map (\<lambda>u. if u = lf then space else u) (normalize_eol s)"
    by (induction s rule: spaced.induct) (auto simp: normalize_eol_Cons prefix_def)
  then show ?thesis by (simp add: no_lf_one_line) (simp add: one_line_def)
qed

lemma spaced_ends:
  assumes "s \<noteq> []"
  shows "hd (spaced s) = hd s \<or> hd (spaced s) = space" "last (spaced s) = last s \<or> last (spaced s) = space"
proof -
  show "hd (spaced s) = hd s \<or> hd (spaced s) = space" by (cases s) (use assms in auto)
  show "last (spaced s) = last s \<or> last (spaced s) = space"
    using assms
  proof (induction s rule: spaced.induct)
    case (2 u us)
    show ?case
    proof (cases "u = cr \<and> prefix [lf] us")
      case True
      then obtain vs where "us = lf # vs" by (auto simp: prefix_def)
      with True 2 show ?thesis by (cases "vs = []") auto
    next
      case False
      with 2 show ?thesis by (cases "us = []") auto
    qed
  qed simp
qed

lemma special_simps [simp]: "\<not> special space" "\<not> special lf" "\<not> special cr" "special backslash"
  by (simp_all add: special_def lit_Cons str_simps)

lemma spaced_escape: "spaced (escape s) = escape (spaced s)"
proof (induction s rule: spaced.induct)
  case (2 u us)
  have "prefix [lf] (escape us) \<longleftrightarrow> prefix [lf] us" by (cases us) (auto simp: special_def lit_Cons str_simps)
  moreover have "tl (escape us) = escape (tl us)" if "prefix [lf] us" using that by (cases us) auto
  ultimately show ?case using 2 by (auto simp: special_def lit_Cons str_simps)
qed simp

lemma special_units: "special u \<Longrightarrow> ascii_punctuation u" "special u \<Longrightarrow> \<not> reference_unit u" "special u \<Longrightarrow> u \<noteq> cu CHR '';''"
  "special u \<Longrightarrow> u \<noteq> cu CHR ''&''" "marks_up u \<Longrightarrow> special u \<or> u = lf \<or> u = cr" "backslash \<noteq> cu CHR ''&''"
  by (auto simp: special_def ascii_punctuation_def reference_unit_def marks_up_def lit_Cons cu_def)

lemma reference_escape:
  "takeWhile reference_unit (escape s) = takeWhile reference_unit s"
  "dropWhile reference_unit (escape s) = escape (dropWhile reference_unit s)"
proof -
  have "\<not> reference_unit backslash" by (simp add: reference_unit_def cu_def)
  then show "takeWhile reference_unit (escape s) = takeWhile reference_unit s"
    "dropWhile reference_unit (escape s) = escape (dropWhile reference_unit s)"
    using special_units(2) by (induction s; auto)+
qed

lemma semicolon_escape: "prefix [cu CHR '';''] (escape s) \<longleftrightarrow> prefix [cu CHR '';''] s"
  "prefix [cu CHR '';''] s \<Longrightarrow> tl (escape s) = escape (tl s)"
  using special_units(3) by (cases s; auto simp: cu_def)+

lemma after_escape:
  "reference_text entity (escape s) = reference_text entity s"
  "reference_text entity s = Some t \<Longrightarrow> after_reference (escape s) = escape (after_reference s)"
  by (auto simp: reference_text_def after_reference_def reference_escape semicolon_escape split: if_splits)

lemma after_reference_subset: "set (after_reference us) \<subseteq> set us"
proof -
  have "set (tl xs) \<subseteq> set xs" for xs :: jstr by (cases xs) auto
  then show ?thesis unfolding after_reference_def using set_dropWhileD by (metis subset_trans subsetI)
qed

lemma read_inline_escape:
  "lf \<notin> set s \<Longrightarrow> cr \<notin> set s \<Longrightarrow> read_inline entity (escape s) = Some (decode_references entity s)"
proof (induction entity s rule: decode_references.induct)
  case (2 entity u us)
  show ?case
  proof (cases "special u")
    case True
    then show ?thesis using 2 special_units(1,4) by (auto split: option.split)
  next
    case False
    then have "u \<noteq> backslash" "u \<noteq> cu CHR ''&'' \<Longrightarrow> \<not> marks_up u" using 2(3,4) special_units(5) by auto
    moreover have "lf \<notin> set (after_reference us)" "cr \<notin> set (after_reference us)"
      using 2(3,4) subsetD [OF after_reference_subset] by auto
    ultimately show ?thesis using 2 False by (auto simp: after_escape split: option.split)
  qed
qed simp

lemma one_line_padded:
  assumes "lf \<notin> set t"
  shows "one_line (space # t @ [space]) = space # one_line t @ [space]"
  using assms by (simp add: no_lf_one_line)

lemma strip_one_padded: "list_ex (\<lambda>u. u \<noteq> space) t \<Longrightarrow> strip_one (space # t @ [space]) = t"
  by (auto simp: strip_one_def list_ex_iff)

lemma strip_one_id: "t = [] \<or> hd t \<noteq> space \<Longrightarrow> strip_one t = t"
  by (auto simp: strip_one_def)

text \<open>Reading a span whose content meets the fence in no backtick.\<close>

lemma read_span:
  assumes "0 < n" and "\<forall>r \<in> set (runs bt t). r \<noteq> n" and "t \<noteq> []" and "hd t \<noteq> bt" "last t \<noteq> bt"
    and "after = [] \<or> hd after \<noteq> bt"
  shows "read_code_span (replicate n bt @ t @ replicate n bt @ after) = Some (strip_one (one_line t), after)"
proof -
  have start: "t @ replicate n bt @ after = [] \<or> hd (t @ replicate n bt @ after) \<noteq> bt" using assms(3,4) by simp
  have "closing n (t @ replicate n bt @ after) = Some (t, after)"
    by (rule closing_text) (use assms in auto)
  then show ?thesis
    unfolding read_code_span_def takeWhile_replicate_append [OF start] using assms(1) by simp
qed

lemma list_ex_one_line:
  "list_ex (\<lambda>u. u \<notin> {space, lf, cr}) s \<Longrightarrow> list_ex (\<lambda>u. u \<noteq> space) (one_line s)"
proof -
  assume "list_ex (\<lambda>u. u \<notin> {space, lf, cr}) s"
  then have "list_ex (\<lambda>u. u \<notin> {space, lf}) (normalize_eol s)"
    by (induction s rule: normalize_eol.induct) (auto split: if_splits)
  then show ?thesis by (auto simp: one_line_def list_ex_iff)
qed

lemma runs_padded: "runs bt (space # t @ [space]) = runs bt t"
  by (simp add: runs_snoc)

lemma split_count: "length (split_on c s) = Suc (length (filter ((=) c) s))"
  by (induction s) (auto split: list.splits)

fun lone_returns :: "jstr \<Rightarrow> nat" where
  "lone_returns [] = 0"
| "lone_returns (u # us) = (if u = cr \<and> \<not> prefix [lf] us then 1 else 0) + lone_returns us"

lemma returns_spaced: "length (filter ((=) cr) (spaced s)) = lone_returns s"
proof (induction s rule: spaced.induct)
  case (2 u us)
  then show ?case by (cases us) auto
qed simp

lemma escape_eq_Nil [simp]: "escape s = [] \<longleftrightarrow> s = []"
  by (cases s) auto

lemma last_escape: "s \<noteq> [] \<Longrightarrow> last (escape s) = last s"
  by (induction s) auto

lemma last_spaced: "s \<noteq> [] \<Longrightarrow> last (spaced s) = last s \<or> last s = lf"
proof (induction s rule: spaced.induct)
  case (2 u us)
  show ?case
  proof (cases "u = cr \<and> prefix [lf] us")
    case True
    then obtain vs where "us = lf # vs" by (auto simp: prefix_def)
    with True 2 show ?thesis by (cases "vs = []") auto
  next
    case False
    with 2 show ?thesis by (cases "us = []") auto
  qed
qed simp

lemma returns_escape: "filter ((=) cr) (escape s) = filter ((=) cr) s"
  by (induction s) auto

lemma returns_mapped:
  "lf \<notin> set s \<Longrightarrow> length (filter ((=) lf \<circ> (\<lambda>u. if u = cr then lf else u)) s) = length (filter ((=) cr) s)"
  by (induction s) auto

text \<open>The lines of a fenced block.\<close>

lemma sublist_join: "w \<in> set ws \<Longrightarrow> sublist w (join sep ws)"
proof (induction sep ws rule: join.induct)
  case (3 sep x y xs)
  have "sublist (join sep (y # xs)) (x @ sep @ join sep (y # xs))" by (metis append.assoc sublist_append_leftI)
  with 3 show ?case by (auto intro: sublist_order.order_trans)
qed auto

lemma sublist_line: "w \<in> set (split_on c s) \<Longrightarrow> sublist w s"
  using sublist_join [of w "split_on c s" "[c]"] by simp

lemma line_keeps_fence:
  assumes "\<forall>r \<in> set (runs bt t). r < n" and "0 < n" and "w \<in> set (split_on lf t)"
  shows "\<not> closes n w"
proof
  assume "closes n w"
  then obtain i where i: "n \<le> length (takeWhile ((=) bt) (drop i w))" by (auto simp: closes_def Let_def)
  let ?b = "takeWhile ((=) bt) (drop i w)"
  have "replicate (length ?b) bt = ?b" by (rule replicate_length_same) (auto dest: set_takeWhileD)
  moreover have "sublist ?b w" by (metis append_take_drop_id sublist_append_leftI sublist_order.order_trans
      prefix_imp_sublist takeWhile_is_prefix)
  ultimately have "sublist (replicate (length ?b) bt) t"
    using sublist_line [OF assms(3)] sublist_order.order_trans by metis
  with runs_cover [of "length ?b" bt t] i assms(1,2) show False by fastforce
qed

lemma closes_fence: "0 < n \<Longrightarrow> closes n (replicate n bt)"
  by (cases n) (simp_all add: closes_def)

section \<open>Properties\<close>

text \<open>C23: a report text is one paragraph of text: no character of it acts as markup, and a reader shows the
  text, with line feeds as spaces and with its entity references replaced, which the writer leaves as they
  are. The text must not begin with an unescaped character that may start a block (\<open>#\<close>, \<open>-\<close>, \<open>+\<close>, \<open>=\<close>, a
  digit, a blank or line end), not end in a blank or line feed, and hold no carriage return that no line feed follows.\<close>

theorem markdown_text_reads_back:
  assumes "s \<noteq> []" and "lone_returns s = 0" and "\<not> block_marker (hd s)" and "last s \<notin> {space, 9, lf}"
  shows "read_paragraph entity (markdown_text s) = Some (decode_references entity (spaced s))"
proof -
  let ?t = "spaced s"
  have returns: "cr \<notin> set ?t" using assms(2) returns_spaced [of s] by (auto simp: filter_empty_conv)
  have t: "?t \<noteq> []" using assms(1) by simp
  have "hd s \<noteq> lf" "hd s \<noteq> cr" using assms(3) by (auto simp: block_marker_def)
  then have "hd ?t = hd s" using assms(1) by (cases s) auto
  then have head: "\<not> may_start_block (hd (escape ?t))"
    using t assms(3) by (cases ?t) (auto simp: special_def block_marker_def may_start_block_def lit_Cons cu_def)
  have "last ?t \<noteq> space" "last ?t \<noteq> 9"
    using last_spaced [OF assms(1)] assms(4) by auto
  moreover have "last (escape ?t) = last ?t" using t by (rule last_escape)
  moreover have "escape ?t \<noteq> []" using t by (cases ?t) auto
  ultimately show ?thesis
    using head returns by (simp add: markdown_text_def spaced_escape read_paragraph_def read_inline_escape)
qed

text \<open>A name that looks like markup, and one that holds a reference, with an \<open>entity\<close> of HTML.\<close>

definition some_entities :: "jstr \<Rightarrow> jstr option" where
  "some_entities body = (if body = lit ''lt'' then Some (lit ''<'') else None)"

lemma markdown_text_reads_back_witness:
  "read_paragraph some_entities (markdown_text (lit ''*a* <b> & [c](d)'')) = Some (lit ''*a* <b> & [c](d)'')"
proof -
  let ?s = "lit ''*a* <b> & [c](d)''"
  have "read_paragraph some_entities (markdown_text ?s) = Some (decode_references some_entities (spaced ?s))"
    by (rule markdown_text_reads_back) code_simp+
  moreover have "decode_references some_entities (spaced ?s) = ?s" by code_simp
  ultimately show ?thesis by simp
qed

text \<open>An ampersand is not escaped, so that a text that holds a reference is shown as another one; and
  neither is what starts a block.\<close>

lemma references_are_decoded:
  "read_paragraph some_entities (markdown_text (lit ''a&lt;b'')) = Some (lit ''a<b'')"
  "read_paragraph some_entities (markdown_text (lit ''# a'')) = None"
  by code_simp+

text \<open>The text of a report item stays on its line, with one exception: every carriage return that
  no line feed follows is kept and starts a new Markdown line, on which markup is read afresh.\<close>

theorem markdown_text_lines: "length (markdown_lines (markdown_text s)) = Suc (lone_returns s)"
proof -
  have "lf \<notin> set (escape (spaced s))" using spaced_no_lf [of s] by (metis spaced_escape spaced_no_lf)
  then have "length (markdown_lines (markdown_text s)) = Suc (length (filter ((=) cr) (escape (spaced s))))"
    by (simp add: markdown_lines_def markdown_text_def spaced_escape split_count no_lf_normalize returns_mapped)
  then show ?thesis by (simp add: returns_escape returns_spaced)
qed

text \<open>A code span is read back exactly: for text that is not all blank and neither starts nor
  ends with a backtick, whatever runs of backticks it holds, a Markdown reader finds the end of the
  span where the writer put it and the content is the text, line breaks as spaces and every other
  blank kept.\<close>

theorem code_span_reads_back:
  assumes "hd s \<noteq> bt" and "last s \<noteq> bt" and "list_ex (\<lambda>u. u \<notin> {space, lf, cr}) s"
    and "after = [] \<or> hd after \<noteq> bt"
  shows "read_code_span (code_span s @ after) = Some (one_line s, after)"
proof -
  let ?t = "spaced s" and ?n = "fence_length 1 (spaced s)"
  have s: "s \<noteq> []" using assms(3) by auto
  then have ends: "hd ?t \<noteq> bt" "last ?t \<noteq> bt" "?t \<noteq> []" using spaced_ends [OF s] assms(1,2) by auto
  have n: "0 < ?n" "\<forall>r \<in> set (runs bt ?t). r \<noteq> ?n"
    using fence_length_bounds [where least = 1 and s = ?t] by fastforce+
  have some: "list_ex (\<lambda>u. u \<noteq> space) (one_line s)" by (rule list_ex_one_line [OF assms(3)])
  show ?thesis
  proof (cases "padded ?t")
    case True
    have "read_code_span (replicate ?n bt @ (space # ?t @ [space]) @ replicate ?n bt @ after) =
        Some (strip_one (one_line (space # ?t @ [space])), after)"
      by (rule read_span) (use n assms(4) in \<open>simp_all add: runs_padded [simplified]\<close>)
    with True some show ?thesis
      by (simp add: code_span_def Let_def one_line_padded [simplified] one_line_spaced strip_one_padded [simplified])
  next
    case False
    have "read_code_span (replicate ?n bt @ ?t @ replicate ?n bt @ after) =
        Some (strip_one (one_line ?t), after)"
      by (rule read_span) (use n ends assms(4) in simp_all)
    moreover have "hd (one_line ?t) \<noteq> space"
    proof -
      have "\<not> is_ws (hd ?t)" using False ends(3) by (simp add: padded_def)
      then have "hd ?t \<noteq> space" "hd ?t \<noteq> cr" by (auto simp: is_ws_def)
      then show ?thesis using ends(3) by (simp add: no_lf_one_line hd_map)
    qed
    ultimately show ?thesis using False by (simp add: code_span_def Let_def strip_one_id one_line_spaced)
  qed
qed

lemma code_span_reads_back_witness:
  "read_code_span (code_span (lit ''a``b'') @ lit ''.'') = Some (lit ''a``b'', lit ''.'')"
proof -
  have "read_code_span (code_span (lit ''a``b'') @ lit ''.'') = Some (one_line (lit ''a``b''), lit ''.'')"
    by (rule code_span_reads_back) (simp_all add: lit_Cons cu_def)
  then show ?thesis by (simp add: one_line_def lit_Cons cu_def)
qed

text \<open>A backtick at either end breaks the span, because no space separates it from the fence: the
  text \<open>`a\<close> gives no code span at all, and of \<open>`a`\<close> the reader sees only \<open>a\<close>.\<close>

theorem code_span_broken_at_backticks:
  "read_code_span (code_span (lit ''`a'')) = None \<and>
   read_code_span (code_span (lit ''`a`'')) = Some (lit ''a'', [])"
  by (simp add: code_span_def read_code_span_def Let_def fence_length_def padded_def is_ws_def
      lit_Cons cu_def one_line_def strip_one_def)


text \<open>C24: an example in the report cannot escape its block: whatever runs of backticks it holds, a
  Markdown reader finds the language and exactly the lines of the text, line endings unified and
  newlines at the end dropped, and the block ends where the writer ended it.\<close>

theorem fenced_code_reads_back:
  assumes "bt \<notin> set language" and "lf \<notin> set language" and "after = [] \<or> hd after = lf"
  shows "read_fenced_code (fenced_code s language @ after) =
    Some (language, split_on lf (strip_newlines (normalize_eol s)))"
proof -
  let ?t = "strip_newlines (normalize_eol s)"
  let ?n = "fence_length 3 ?t"
  let ?fence = "replicate ?n bt"
  have n: "3 \<le> ?n" "\<forall>r \<in> set (runs bt ?t). r < ?n"
    using fence_length_bounds [where least = 3 and s = ?t] by auto
  have lang: "language = [] \<or> hd language \<noteq> bt" using assms(1) by (cases language) auto
  obtain ls where ls: "split_on lf (?fence @ after) = ?fence # ls"
  proof (cases after)
    case Nil
    with that [of "[]"] show ?thesis by (simp add: split_on_id)
  next
    case (Cons u us)
    with assms(3) that [of "split_on lf us"] show ?thesis by (simp add: split_on_append_sep)
  qed
  have "split_on lf (fenced_code s language @ after) =
      (?fence @ language) # split_on lf ?t @ ?fence # ls"
    using assms(2) by (simp add: fenced_code_def Let_def split_on_append_sep [of lf "?fence @ language", simplified]
        split_on_append ls)
  moreover have "takeWhile (\<lambda>l. \<not> closes ?n l) (split_on lf ?t @ ?fence # ls) = split_on lf ?t"
    using line_keeps_fence [OF n(2)] n(1) closes_fence [of ?n] by (simp add: takeWhile_append2)
  ultimately show ?thesis
    using n(1) assms(1) by (simp add: read_fenced_code_def Let_def takeWhile_replicate_append [OF lang])
qed

lemma fenced_code_reads_back_witness:
  "read_fenced_code (fenced_code (lit ''a'' @ [lf] @ lit ''```'' @ [lf]) (lit ''yaml'')) =
     Some (lit ''yaml'', [lit ''a'', lit ''```''])"
proof -
  have "read_fenced_code (fenced_code (lit ''a'' @ [lf] @ lit ''```'' @ [lf]) (lit ''yaml'') @ []) =
     Some (lit ''yaml'', split_on lf (strip_newlines (normalize_eol (lit ''a'' @ [lf] @ lit ''```'' @ [lf]))))"
    by (rule fenced_code_reads_back) (simp_all add: lit_Cons cu_def)
  then show ?thesis by (simp add: strip_newlines_def lit_Cons cu_def)
qed

end
