(* ===== verification/Finding.thy ===== *)
theory Finding
  imports JsValue
begin

text \<open>
  Findings, the unit of the Workbench's review: severity levels, the OWASP Kubernetes Top Ten
  entries they may cite (\<open>OWASP_STANDARDS\<close> of \<open>owasp-profile.js\<close>), the builders \<open>finding\<close>,
  \<open>owasp\<close> and \<open>k01\<close> of \<open>analyze.js\<close>, and one constructor per \<open>add(...)\<close> call of its \<open>findings\<close>
  function with the call's level, title, path and texts. \<open>Rules\<close> says when each is reported.
\<close>

named_theorems finding_fields \<open>the constructors of findings and their fields\<close>

section \<open>Levels and standards\<close>

text \<open>\<open>Valid\<close> is the level of a resource that passed its schema; no finding has it.\<close>

datatype level = Error | Warning | Note | Valid

datatype owasp_key = K01 | K02 | K03 | K04 | K05 | K06 | K07 | K08 | K09 | K10

text \<open>Keys are ordered by number, the order of the profile.\<close>

instantiation owasp_key :: linorder
begin

fun key_number :: "owasp_key \<Rightarrow> nat" where
  "key_number K01 = 1"
| "key_number K02 = 2"
| "key_number K03 = 3"
| "key_number K04 = 4"
| "key_number K05 = 5"
| "key_number K06 = 6"
| "key_number K07 = 7"
| "key_number K08 = 8"
| "key_number K09 = 9"
| "key_number K10 = 10"

definition less_eq_owasp_key :: "owasp_key \<Rightarrow> owasp_key \<Rightarrow> bool" where
  "a \<le> b \<longleftrightarrow> key_number a \<le> key_number b"

definition less_owasp_key :: "owasp_key \<Rightarrow> owasp_key \<Rightarrow> bool" where
  "a < b \<longleftrightarrow> key_number a < key_number b"

instance
proof
  fix a b :: owasp_key
  show "a \<le> b \<Longrightarrow> b \<le> a \<Longrightarrow> a = b"
    by (cases a; cases b) (simp_all add: less_eq_owasp_key_def)
qed (auto simp: less_eq_owasp_key_def less_owasp_key_def)

end

record standard =
  std_id :: jstr
  std_title :: jstr
  std_url :: jstr

definition owasp_profile_version :: jstr where
  "owasp_profile_version = lit ''2025''"

definition owasp_source_commit :: jstr where
  "owasp_source_commit = lit ''828cfa2e2d7af63cdf7025c09ca871265d71f59c''"

definition source_url :: "jstr \<Rightarrow> jstr" where
  "source_url slug =
     lit ''https://github.com/OWASP/www-project-kubernetes-top-ten/blob/'' @
     owasp_source_commit @ lit ''/2025/en/src/'' @ slug @ lit ''.md''"

fun owasp_standard :: "owasp_key \<Rightarrow> standard" where
  "owasp_standard K01 = \<lparr>std_id = lit ''K01:2025'',
     std_title = lit ''Insecure Workload Configurations'',
     std_url = source_url (lit ''K01-Insecure-Workload-Configurations'')\<rparr>"
| "owasp_standard K02 = \<lparr>std_id = lit ''K02:2025'',
     std_title = lit ''Overly Permissive Authorization Configurations'',
     std_url = source_url (lit ''K02-Overly-Permissive-Authorization-Configurations'')\<rparr>"
| "owasp_standard K03 = \<lparr>std_id = lit ''K03:2025'',
     std_title = lit ''Secrets Management Failures'',
     std_url = source_url (lit ''K03-Secrets-Management-Failures'')\<rparr>"
| "owasp_standard K04 = \<lparr>std_id = lit ''K04:2025'',
     std_title = lit ''Lack of Cluster-Level Policy Enforcement'',
     std_url = source_url (lit ''K04-Lack-Of-Cluster-Level-Policy-Enforcement'')\<rparr>"
| "owasp_standard K05 = \<lparr>std_id = lit ''K05:2025'',
     std_title = lit ''Missing Network Segmentation Controls'',
     std_url = source_url (lit ''K05-Missing-Network-Segmentation-Controls'')\<rparr>"
| "owasp_standard K06 = \<lparr>std_id = lit ''K06:2025'',
     std_title = lit ''Overly Exposed Kubernetes Components'',
     std_url = source_url (lit ''K06-Overly-Exposed-Kubernetes-Components'')\<rparr>"
| "owasp_standard K07 = \<lparr>std_id = lit ''K07:2025'',
     std_title = lit ''Misconfigured and Vulnerable Cluster Components'',
     std_url = source_url (lit ''K07-Misconfigured-And-Vulnerable-Cluster-Components'')\<rparr>"
| "owasp_standard K08 = \<lparr>std_id = lit ''K08:2025'',
     std_title = lit ''Cluster-to-Cloud Lateral Movement'',
     std_url = source_url (lit ''K08-Cluster-To-Cloud-Lateral-Movement'')\<rparr>"
| "owasp_standard K09 = \<lparr>std_id = lit ''K09:2025'',
     std_title = lit ''Broken Authentication Mechanisms'',
     std_url = source_url (lit ''K09-Broken-Authentication-Mechanisms'')\<rparr>"
| "owasp_standard K10 = \<lparr>std_id = lit ''K10:2025'',
     std_title = lit ''Inadequate Logging and Monitoring'',
     std_url = source_url (lit ''K10-Inadequate-Logging-And-Monitoring'')\<rparr>"

section \<open>Records\<close>

text \<open>What a finding may carry beside its texts: the \<open>guidance\<close> argument of \<open>finding\<close>.\<close>

record guidance =
  g_example :: "jstr option"
  g_caution :: jstr
  g_standard :: standard
  g_standards :: "standard list"

text \<open>A finding; \<open>attachFindingLocations\<close> fills line and column, absent until then.\<close>

record finding =
  f_level :: level
  f_title :: jstr
  f_path :: jstr
  f_detail :: jstr
  f_explanation :: jstr
  f_suggestion :: jstr
  f_example :: "jstr option"
  f_caution :: "jstr option"
  f_standard :: "standard option"
  f_standards :: "standard list option"
  f_line :: "nat option"
  f_column :: "nat option"

definition make_finding ::
  "level \<Rightarrow> jstr \<Rightarrow> jstr \<Rightarrow> jstr \<Rightarrow> jstr \<Rightarrow> guidance option \<Rightarrow> finding" where
  "make_finding level title path explanation suggestion guidance =
     \<lparr>f_level = level, f_title = title, f_path = path, f_detail = explanation,
       f_explanation = explanation, f_suggestion = suggestion,
       f_example = Option.bind guidance g_example, f_caution = map_option g_caution guidance,
       f_standard = map_option g_standard guidance, f_standards = map_option g_standards guidance,
       f_line = None, f_column = None\<rparr>"

definition owasp :: "owasp_key list \<Rightarrow> jstr option \<Rightarrow> jstr \<Rightarrow> guidance" where
  "owasp keys example caution =
     (let standards = map owasp_standard keys
      in \<lparr>g_example = example, g_caution = caution,
           g_standard = hd standards, g_standards = standards\<rparr>)"

definition k01 :: "jstr \<Rightarrow> jstr \<Rightarrow> guidance" where
  "k01 example caution = owasp [K01] (Some example) caution"

lemma make_finding_fields [finding_fields, simp]:
  "f_level (make_finding l t p e s g) = l"
  "f_title (make_finding l t p e s g) = t"
  "f_path (make_finding l t p e s g) = p"
  "f_standard (make_finding l t p e s g) = map_option g_standard g"
  "f_standards (make_finding l t p e s g) = map_option g_standards g"
  by (simp_all add: make_finding_def)

lemma owasp_fields [finding_fields, simp]:
  "g_standard (owasp (k # ks) ex ca) = owasp_standard k"
  "g_standards (owasp ks ex ca) = map owasp_standard ks"
  "g_standard (k01 ex' ca') = owasp_standard K01"
  "g_standards (k01 ex' ca') = [owasp_standard K01]"
  by (simp_all add: owasp_def k01_def Let_def)

lemma owasp_standard_id_inject [simp]:
  "std_id (owasp_standard a) = std_id (owasp_standard b) \<longleftrightarrow> a = b"
  by (cases a; cases b) (simp_all add: lit_inject)

text \<open>Standards stay symbolic: nothing but their identifiers is ever compared.\<close>

declare owasp_standard.simps [simp del]

lemma owasp_standard_inject [simp]: "owasp_standard a = owasp_standard b \<longleftrightarrow> a = b"
  using owasp_standard_id_inject [of a b] by metis

section \<open>The findings of the rules\<close>

subsection \<open>Resource identity and workloads\<close>

definition missing_api_version :: "finding" where
  "missing_api_version =
    make_finding Error (lit ''Missing apiVersion'') (lit ''.apiVersion'')
      (lit ''Kubernetes cannot identify the API group and version.'')
      (lit ''Add the API version supported by the target cluster, such as apiVersion: v1.'')
      None"

definition missing_kind :: "finding" where
  "missing_kind =
    make_finding Error (lit ''Missing kind'') (lit ''.kind'')
      (lit ''Kubernetes cannot identify the resource type.'')
      (lit ''Add the Kubernetes resource kind, such as kind: Deployment.'')
      None"

definition missing_name :: "finding" where
  "missing_name =
    make_finding Error (lit ''Missing metadata.name'') (lit ''.metadata.name'')
      (lit ''The resource has neither a fixed name nor a generated-name prefix.'')
      (lit ''Set metadata.name or metadata.generateName.'')
      None"

definition no_containers :: "jstr \<Rightarrow> finding" where
  "no_containers path =
    make_finding Error (lit ''No containers found'') (path @ lit ''.containers'')
      (lit ''This workload has no containers in its Pod template.'')
      (lit ''Add at least one container under '' @ path @ lit ''.containers.'')
      None"

subsection \<open>Containers\<close>

definition mutable_image :: "jstr \<Rightarrow> jstr \<Rightarrow> finding" where
  "mutable_image name path =
    make_finding Warning (name @ lit '': mutable image reference'') (path @ lit ''.image'')
      (lit ''A missing or latest image reference can resolve to different content over time.'')
      (lit ''Use a version tag or immutable digest for repeatable deployments.'')
      None"

definition no_readiness_probe :: "jstr \<Rightarrow> jstr \<Rightarrow> finding" where
  "no_readiness_probe name path =
    make_finding Note (name @ lit '': no readiness probe'') (path @ lit ''.readinessProbe'')
      (lit ''Traffic may reach the container before it is ready.'')
      (lit ''Add a readinessProbe that represents whether this container can receive traffic.'')
      None"

definition no_liveness_probe :: "jstr \<Rightarrow> jstr \<Rightarrow> finding" where
  "no_liveness_probe name path =
    make_finding Note (name @ lit '': no liveness probe'') (path @ lit ''.livenessProbe'')
      (lit ''Kubernetes cannot detect every stuck process.'')
      (lit ''Add a livenessProbe only when the application has a reliable self-health signal.'')
      None"

definition no_requests :: "jstr \<Rightarrow> jstr \<Rightarrow> finding" where
  "no_requests name path =
    make_finding Warning (name @ lit '': no resource requests'') (path @ lit ''.resources.requests'')
      (lit ''Scheduling will not account for expected CPU and memory use.'')
      (lit ''Set measured CPU and memory requests.'')
      (Some (k01 (lit ''resources:\<newline>  requests:\<newline>    cpu: 100m\<newline>    memory: 128Mi'')
        (lit ''These values are examples, not sizing recommendations. Measure the workload and adjust them before deployment.'')))"

definition no_limits :: "jstr \<Rightarrow> jstr \<Rightarrow> finding" where
  "no_limits name path =
    make_finding Note (name @ lit '': no resource limits'') (path @ lit ''.resources.limits'')
      (lit ''The container has no explicit CPU or memory ceiling.'')
      (lit ''Set an appropriate memory limit and evaluate whether a CPU limit fits the workload.'')
      (Some (k01 (lit ''resources:\<newline>  limits:\<newline>    memory: 512Mi'')
        (lit ''An undersized memory limit can cause OOM termination. CPU limits can also introduce throttling, so evaluate them separately.'')))"

definition privileged_container :: "jstr \<Rightarrow> jstr \<Rightarrow> finding" where
  "privileged_container name path =
    make_finding Warning (name @ lit '': privileged container'') (path @ lit ''.securityContext.privileged'')
      (lit ''Privileged mode grants broad host-level access.'')
      (lit ''Remove privileged: true unless the workload has a documented host-level requirement.'')
      (Some (k01 (lit ''securityContext:\<newline>  privileged: false'')
        (lit ''Changing this can break workloads that intentionally manage host devices or kernel facilities. Confirm that privileged access is truly unnecessary.'')))"

definition runs_as_root :: "jstr \<Rightarrow> jstr \<Rightarrow> finding" where
  "runs_as_root name path =
    make_finding Warning (name @ lit '': runs as root'') (path @ lit ''.securityContext.runAsUser'')
      (lit ''UID 0 runs the container process as root.'')
      (lit ''Use a non-zero runAsUser and set runAsNonRoot: true when the image supports it.'')
      (Some (k01 (lit ''securityContext:\<newline>  runAsNonRoot: true\<newline>  runAsUser: 1000'')
        (lit ''The UID must exist or be supported by the image, and required files and ports must remain accessible to that user.'')))"

definition escalation_allowed :: "jstr \<Rightarrow> jstr \<Rightarrow> finding" where
  "escalation_allowed name path =
    make_finding Note (name @ lit '': privilege escalation not disabled'') (path @ lit ''.securityContext.allowPrivilegeEscalation'')
      (lit ''The container does not explicitly prevent gaining additional process privileges.'')
      (lit ''Set securityContext.allowPrivilegeEscalation: false.'')
      (Some (k01 (lit ''securityContext:\<newline>  allowPrivilegeEscalation: false'')
        (lit ''This is appropriate for most applications, but confirm that the process does not rely on setuid or setgid behavior.'')))"

definition writable_root :: "jstr \<Rightarrow> jstr \<Rightarrow> finding" where
  "writable_root name path =
    make_finding Note (name @ lit '': root filesystem is writable'') (path @ lit ''.securityContext.readOnlyRootFilesystem'')
      (lit ''A writable image filesystem increases the container's mutation surface.'')
      (lit ''Set readOnlyRootFilesystem: true and mount bounded writable volumes where required.'')
      (Some (k01 (lit ''securityContext:\<newline>  readOnlyRootFilesystem: true'')
        (lit ''The application may need explicit writable volumes for paths such as /tmp, caches, uploads, or generated configuration.'')))"

definition capabilities_kept :: "jstr \<Rightarrow> jstr \<Rightarrow> finding" where
  "capabilities_kept name path =
    make_finding Note (name @ lit '': Linux capabilities not fully dropped'') (path @ lit ''.securityContext.capabilities.drop'')
      (lit ''The container does not explicitly drop every inherited Linux capability.'')
      (lit ''Set securityContext.capabilities.drop to [ALL], then add back only documented requirements.'')
      (Some (k01 (lit ''securityContext:\<newline>  capabilities:\<newline>    drop:\<newline>      - ALL'')
        (lit ''If the application needs a Linux capability, add back only that documented capability after testing.'')))"

definition root_possible :: "jstr \<Rightarrow> jstr \<Rightarrow> finding" where
  "root_possible name path =
    make_finding Note (name @ lit '': non-root execution not required'') (path @ lit ''.securityContext.runAsNonRoot'')
      (lit ''Neither the Pod nor container security context explicitly requires non-root execution.'')
      (lit ''Set runAsNonRoot: true at the Pod or container level when the image supports it.'')
      (Some (k01 (lit ''securityContext:\<newline>  runAsNonRoot: true'')
        (lit ''Images that default to UID 0 will fail to start until they are rebuilt or configured to use a non-zero UID.'')))"

definition seccomp_missing :: "level \<Rightarrow> jstr \<Rightarrow> jstr \<Rightarrow> finding" where
  "seccomp_missing level name path =
    make_finding level (name @ lit '': RuntimeDefault seccomp profile not required'') (path @ lit ''.securityContext.seccompProfile.type'')
      (lit ''Neither the Pod nor this container explicitly requires a default or locally managed syscall filter.'')
      (lit ''Set the Pod or container seccomp profile type to RuntimeDefault unless a reviewed Localhost profile is required.'')
      (Some (k01 (lit ''securityContext:\<newline>  seccompProfile:\<newline>    type: RuntimeDefault'')
        (lit ''Test application startup and normal operations after enabling seccomp. A Localhost profile is also valid when it is deliberately managed on every eligible node.'')))"

subsection \<open>Credentials in the environment\<close>

definition secret_env :: "jstr \<Rightarrow> jstr \<Rightarrow> nat \<Rightarrow> finding" where
  "secret_env name path index =
    make_finding Note (name @ lit '': Secret injected through environment'') (path @ lit ''.env['' @ nat_text index @ lit ''].valueFrom.secretKeyRef'')
      (lit ''Secret values exposed as environment variables may appear in diagnostics or process environments.'')
      (lit ''Prefer a read-only Secret volume when the application supports file-based credentials.'')
      (Some (owasp [K03] (Some (lit ''volumes:\<newline>  - name: credentials\<newline>    secret:\<newline>      secretName: app-credentials''))
        (lit ''Changing how the application receives credentials requires application support and a coordinated rollout.'')))"

definition literal_credential :: "jstr \<Rightarrow> jstr \<Rightarrow> nat \<Rightarrow> jstr \<Rightarrow> finding" where
  "literal_credential name path index variable =
    make_finding Warning (name @ lit '': literal cloud credential environment variable'') (path @ lit ''.env['' @ nat_text index @ lit ''].value'')
      (lit ''A cloud credential-shaped environment variable contains a literal value in this manifest.'')
      (lit ''Remove the literal credential and use a workload identity or a reviewed Secret delivery mechanism.'')
      (Some (owasp [K03, K08] (Some (lit ''env:\<newline>  - name: '' @ variable @ lit ''\<newline>    valueFrom:\<newline>      secretKeyRef:\<newline>        name: cloud-credentials\<newline>        key: credential''))
        (lit ''Treat the current value as potentially exposed and rotate it outside the Workbench. Prefer workload identity over a long-lived replacement secret.'')))"

definition secret_env_from :: "jstr \<Rightarrow> jstr \<Rightarrow> nat \<Rightarrow> finding" where
  "secret_env_from name path index =
    make_finding Note (name @ lit '': Secret imported through environment'') (path @ lit ''.envFrom['' @ nat_text index @ lit ''].secretRef'')
      (lit ''Every key in the referenced Secret is projected into the process environment.'')
      (lit ''Import only required keys, and prefer read-only Secret volumes when the application supports file-based credentials.'')
      (Some (owasp [K03] (Some (lit ''env:\<newline>  - name: REQUIRED_VALUE\<newline>    valueFrom:\<newline>      secretKeyRef:\<newline>        name: app-credentials\<newline>        key: required-value''))
        (lit ''Changing envFrom can remove variables the application expects. Inventory required keys before narrowing the reference.'')))"

subsection \<open>Pods\<close>

definition host_network :: "jstr \<Rightarrow> finding" where
  "host_network path =
    make_finding Warning (lit ''Host networking enabled'') (path @ lit ''.hostNetwork'')
      (lit ''The Pod shares the node network namespace.'')
      (lit ''Remove hostNetwork: true unless direct node networking is required and reviewed.'')
      (Some (k01 (lit ''hostNetwork: false'')
        (lit ''Removing host networking changes the Pod's network identity and may require Service, DNS, or port configuration changes.'')))"

definition host_pid :: "jstr \<Rightarrow> finding" where
  "host_pid path =
    make_finding Warning (lit ''Host PID namespace enabled'') (path @ lit ''.hostPID'')
      (lit ''The Pod can observe processes in the node PID namespace.'')
      (lit ''Remove hostPID: true unless host process visibility is explicitly required.'')
      (Some (k01 (lit ''hostPID: false'')
        (lit ''Host-level monitoring and troubleshooting agents may intentionally need this access; document and isolate any exception.'')))"

definition host_ipc :: "jstr \<Rightarrow> finding" where
  "host_ipc path =
    make_finding Warning (lit ''Host IPC namespace enabled'') (path @ lit ''.hostIPC'')
      (lit ''The Pod shares the node IPC namespace.'')
      (lit ''Remove hostIPC: true unless host IPC access is explicitly required.'')
      (Some (k01 (lit ''hostIPC: false'')
        (lit ''Applications that intentionally communicate through host IPC will need another supported communication mechanism.'')))"

definition host_path_volume :: "jstr \<Rightarrow> nat \<Rightarrow> finding" where
  "host_path_volume path index =
    make_finding Warning (lit ''HostPath volume present'') (path @ lit ''.volumes['' @ nat_text index @ lit ''].hostPath'')
      (lit ''The Pod directly accesses a node filesystem path.'')
      (lit ''Prefer a PVC, ConfigMap, Secret, or bounded emptyDir when possible.'')
      (Some (k01 (lit ''volumes:\<newline>  - name: app-data\<newline>    persistentVolumeClaim:\<newline>      claimName: app-data'')
        (lit ''This is a structural example. Select a volume type and access mode that match the application's storage and lifecycle requirements.'')))"

definition token_mounted :: "jstr \<Rightarrow> finding" where
  "token_mounted path =
    make_finding Note (lit ''ServiceAccount token may be mounted'') (path @ lit ''.automountServiceAccountToken'')
      (lit ''The default token mount may provide Kubernetes API credentials the workload does not need.'')
      (lit ''Set automountServiceAccountToken: false when the workload does not call the Kubernetes API.'')
      (Some (k01 (lit ''automountServiceAccountToken: false'')
        (lit ''Do not disable the token if this workload legitimately calls the Kubernetes API. In that case, use a dedicated least-privilege ServiceAccount.'')))"

subsection \<open>Services, Ingress and Namespaces\<close>

definition service_without_selector :: "finding" where
  "service_without_selector =
    make_finding Warning (lit ''Service has no selector'') (lit ''.spec.selector'')
      (lit ''Kubernetes will not automatically select Pods for this Service.'')
      (lit ''Add a selector or document how EndpointSlices are managed separately.'')
      None"

definition external_service :: "finding" where
  "external_service =
    make_finding Note (lit ''Service declares external exposure'') (lit ''.spec.type'')
      (lit ''This Service type can expose traffic beyond the cluster network, depending on the environment.'')
      (lit ''Confirm the intended audience and restrict network and firewall paths outside the manifest.'')
      (Some (owasp [K06] (Some (lit ''spec:\<newline>  type: ClusterIP''))
        (lit ''Changing the Service type removes its current external access path. Confirm an approved replacement before applying.'')))"

definition ingress_surface :: "finding" where
  "ingress_surface =
    make_finding Note (lit ''Ingress declares an external routing surface'') (lit ''.spec'')
      (lit ''Ingress reachability and TLS depend on the installed controller, addresses, DNS, and surrounding network controls.'')
      (lit ''Review host, path, TLS, controller, and firewall configuration with live cluster context.'')
      (Some (owasp [K06] (Some (lit ''spec:\<newline>  tls:\<newline>    - secretName: example-tls''))
        (lit ''This fragment is not a complete Ingress. TLS configuration must match the intended hosts and controller behavior.'')))"

definition no_pod_security_label :: "finding" where
  "no_pod_security_label =
    make_finding Note (lit ''Pod Security Admission enforcement label not declared'') (lit ''.metadata.labels'')
      (lit ''This Namespace manifest does not declare an enforce-level Pod Security Admission label.'')
      (lit ''Declare the intended enforce level, or document the different admission policy that governs this namespace.'')
      (Some (owasp [K04] (Some (lit ''metadata:\<newline>  labels:\<newline>    pod-security.kubernetes.io/enforce: restricted\<newline>    pod-security.kubernetes.io/enforce-version: latest''))
        (lit ''A stricter policy can reject existing workloads. Audit compatibility and stage enforcement deliberately.'')))"

subsection \<open>RBAC\<close>

definition rbac_wildcard :: "jstr \<Rightarrow> finding" where
  "rbac_wildcard path =
    make_finding Warning (lit ''RBAC rule contains wildcard permissions'') (path)
      (lit ''Wildcard verbs, resources, or API groups can grant more authority than the subject needs.'')
      (lit ''Replace wildcards with the smallest reviewed verb, resource, and API-group set.'')
      (Some (owasp [K02] (Some (lit ''rules:\<newline>  - apiGroups: ['' @ [34] @ [34] @ lit '']\<newline>    resources: [pods]\<newline>    verbs: [get, list]''))
        (lit ''The example is illustrative. Derive required permissions from observed application behavior before narrowing a live role.'')))"

definition rbac_escalation :: "jstr \<Rightarrow> finding" where
  "rbac_escalation path =
    make_finding Warning (lit ''RBAC rule grants privilege-escalation verbs'') (path @ lit ''.verbs'')
      (lit ''The escalate, bind, and impersonate verbs can bypass ordinary authorization boundaries.'')
      (lit ''Remove these verbs unless the subject has a narrowly documented control-plane responsibility.'')
      (Some (owasp [K02] None
        (lit ''Removing these verbs can disrupt controllers that legitimately manage RBAC. Confirm the caller and exact operation first.'')))"

definition rbac_nodes_proxy :: "jstr \<Rightarrow> finding" where
  "rbac_nodes_proxy path =
    make_finding Warning (lit ''RBAC rule grants nodes/proxy access'') (path @ lit ''.resources'')
      (lit ''Node proxy access can reach kubelet APIs and bypass normal API-server audit and admission paths.'')
      (lit ''Remove nodes/proxy unless a reviewed component explicitly requires kubelet proxy access.'')
      (Some (owasp [K02] None
        (lit ''Verify monitoring and node-management dependencies before changing this permission.'')))"

definition rbac_secret_read :: "jstr \<Rightarrow> finding" where
  "rbac_secret_read path =
    make_finding Note (lit ''RBAC rule can read Secret values'') (path)
      (lit ''Get, list, or watch access to Secret resources can disclose their data.'')
      (lit ''Restrict Secret access to named resources and only the verbs the workload requires.'')
      (Some (owasp [K02, K03] None
        (lit ''Controllers may need list or watch for reconciliation. Validate their documented permission requirements before narrowing access.'')))"

definition binds_cluster_admin :: "finding" where
  "binds_cluster_admin =
    make_finding Warning (lit ''Binding grants cluster-admin'') (lit ''.roleRef.name'')
      (lit ''The cluster-admin ClusterRole provides unrestricted authority across the cluster.'')
      (lit ''Bind subjects to a purpose-built least-privilege role instead.'')
      (Some (owasp [K02] None
        (lit ''Replacing cluster-admin can interrupt administration or automation. Inventory the subject's required operations first.'')))"

subsection \<open>Selectors\<close>

definition no_selector_terms :: "finding" where
  "no_selector_terms =
    make_finding Error (lit ''Workload has no selector terms'') (lit ''.spec.selector'')
      (lit ''The controller needs a stable selector for its Pod template.'')
      (lit ''Set matchLabels or matchExpressions so the selector matches the labels under .spec.template.metadata.labels.'')
      None"

definition selector_mismatch :: "finding" where
  "selector_mismatch =
    make_finding Error (lit ''Selector does not match Pod template labels'') (lit ''.spec.selector.matchLabels'')
      (lit ''At least one selector label differs from or is absent in the Pod template.'')
      (lit ''Make every matchLabels entry identical to a label under .spec.template.metadata.labels.'')
      None"

text \<open>The token finding cites two entries: its \<open>standards\<close> are assigned after it is added.\<close>

definition token_mounted_twice :: "jstr \<Rightarrow> finding" where
  "token_mounted_twice path =
     (token_mounted path)\<lparr>f_standards := Some [owasp_standard K01, owasp_standard K09]\<rparr>"

lemmas finding_texts =
  missing_api_version_def missing_kind_def missing_name_def no_containers_def
  mutable_image_def no_readiness_probe_def no_liveness_probe_def no_requests_def
  no_limits_def privileged_container_def runs_as_root_def escalation_allowed_def
  writable_root_def capabilities_kept_def root_possible_def seccomp_missing_def
  secret_env_def literal_credential_def secret_env_from_def host_network_def
  host_pid_def host_ipc_def host_path_volume_def token_mounted_def
  service_without_selector_def external_service_def ingress_surface_def no_pod_security_label_def
  rbac_wildcard_def rbac_escalation_def rbac_nodes_proxy_def rbac_secret_read_def
  binds_cluster_admin_def no_selector_terms_def selector_mismatch_def
  token_mounted_twice_def

end
