(* ===== verification/Resource.thy ===== *)
theory Resource
  imports Finding
begin

text \<open>
  What \<open>analyze.js\<close> extracts from a manifest before any rule runs: the Pod part of a workload
  (\<open>podContext\<close>), the parts of an image reference (\<open>splitImage\<close>), the label texts, and the summary
  of a container (\<open>summarizeContainer\<close>).

  \<open>summarizeResource\<close> reads a property of the manifest before it calls anything, so an undefined or
  null manifest throws there; in the functions below \<open>resource.k\<close> is \<open>opt_get resource k\<close>
  (\<open>get_Some_opt_get\<close>). List items have had no such read, and theirs are \<open>get\<close>.
\<close>

section \<open>Pods\<close>

definition workloads :: "string list" where
  "workloads = [''Pod'', ''Deployment'', ''StatefulSet'', ''DaemonSet'', ''ReplicaSet'', ''Job'', ''CronJob'']"

definition selector_workloads :: "string list" where
  "selector_workloads = [''Deployment'', ''StatefulSet'', ''DaemonSet'', ''ReplicaSet'']"

record pod =
  pod_spec :: jsval
  pod_path :: jstr
  pod_labels :: jsval

text \<open>\<open>v?.a?.b?.c\<close>.\<close>

fun opt_path :: "jsval \<Rightarrow> string list \<Rightarrow> jsval" where
  "opt_path v [] = v"
| "opt_path v (k # ks) = opt_path (opt_get v (lit k)) ks"

definition kind_of :: "jsval \<Rightarrow> jsval" where
  "kind_of resource = opt_get resource (lit ''kind'')"

definition pod_context :: "jsval \<Rightarrow> pod" where
  "pod_context resource =
     (if is_lit (kind_of resource) ''Pod'' then
        \<lparr>pod_spec = js_object (opt_path resource [''spec'']), pod_path = lit ''.spec'',
          pod_labels = js_object (opt_path resource [''metadata'', ''labels''])\<rparr>
      else if is_lit (kind_of resource) ''CronJob'' then
        \<lparr>pod_spec = js_object
            (opt_path resource [''spec'', ''jobTemplate'', ''spec'', ''template'', ''spec'']),
          pod_path = lit ''.spec.jobTemplate.spec.template.spec'',
          pod_labels = js_object
            (opt_path resource [''spec'', ''jobTemplate'', ''spec'', ''template'', ''metadata'', ''labels''])\<rparr>
      else if among (kind_of resource) workloads then
        \<lparr>pod_spec = js_object (opt_path resource [''spec'', ''template'', ''spec'']),
          pod_path = lit ''.spec.template.spec'',
          pod_labels = js_object (opt_path resource [''spec'', ''template'', ''metadata'', ''labels''])\<rparr>
      else \<lparr>pod_spec = JObj 0 [], pod_path = lit ''.spec'', pod_labels = JObj 0 []\<rparr>)"

section \<open>Images\<close>

text \<open>
  \<open>indexOf\<close>, \<open>lastIndexOf\<close> and \<open>slice\<close> exist on strings and on arrays, where they search for an
  element; on any other value the call throws. The array \<open>slice\<close> returns is new.
\<close>

fun js_index_of :: "jsval \<Rightarrow> jstr \<Rightarrow> int option" where
  "js_index_of (JStr s) p = Some (index_of s p)"
| "js_index_of (JArr _ vs) p = Some (index_of vs [JStr p])"
| "js_index_of _ p = None"

fun js_last_index_of :: "jsval \<Rightarrow> code_unit \<Rightarrow> int option" where
  "js_last_index_of (JStr s) u = Some (last_index_of s u)"
| "js_last_index_of (JArr _ vs) u = Some (last_index_of vs (JStr [u]))"
| "js_last_index_of _ u = None"

fun js_slice :: "jsval \<Rightarrow> nat \<Rightarrow> nat option \<Rightarrow> jsval" where
  "js_slice (JStr s) a b = JStr (case b of Some n \<Rightarrow> slice s a n | None \<Rightarrow> drop a s)"
| "js_slice (JArr _ vs) a b = JArr 0 (case b of Some n \<Rightarrow> slice vs a n | None \<Rightarrow> drop a vs)"
| "js_slice v a b = v"

datatype reference_type = Digest | Tag

record image_parts =
  repository :: jsval
  reference :: jsval
  reference_type :: reference_type

definition split_image :: "jsval \<Rightarrow> image_parts option" where
  "split_image img = do {
     digest_at \<leftarrow> js_index_of img (lit ''@sha256:'');
     if digest_at \<ge> 0 then
       Some \<lparr>repository = js_slice img 0 (Some (nat digest_at)),
         reference = js_slice img (nat digest_at + 1) None, reference_type = Digest\<rparr>
     else do {
       slash_at \<leftarrow> js_last_index_of img (cu CHR ''/'');
       colon_at \<leftarrow> js_last_index_of img (cu CHR '':'');
       if colon_at > slash_at then
         Some \<lparr>repository = js_slice img 0 (Some (nat colon_at)),
           reference = js_slice img (nat colon_at + 1) None, reference_type = Tag\<rparr>
       else Some \<lparr>repository = img, reference = jlit ''latest (implicit)'', reference_type = Tag\<rparr>
     }
   }"

section \<open>Labels and selectors\<close>

definition labels :: "jsval \<Rightarrow> jstr list option" where
  "labels value =
     traverse (\<lambda>(key, item). map_option (\<lambda>t. key @ lit ''='' @ t) (to_str item))
       (own_entries (js_object value))"

definition selector_matches :: "jsval \<Rightarrow> jsval \<Rightarrow> bool" where
  "selector_matches selector candidate_labels =
     list_all (\<lambda>(key, value). strict_eq (opt_get candidate_labels key) value)
       (own_entries (js_object selector))"

section \<open>Containers\<close>

datatype container_type = Init_container | Container

fun container_type_text :: "container_type \<Rightarrow> jstr" where
  "container_type_text Init_container = lit ''init container''"
| "container_type_text Container = lit ''container''"

record port =
  port_name :: jsval
  container_port :: jsval
  protocol :: jsval

record container =
  c_type :: container_type
  c_name :: jsval
  c_image :: jsval
  image_repository :: jsval
  image_reference :: jsval
  image_reference_type :: reference_type
  ports :: "port list"
  env_count :: nat
  env_from_count :: nat
  mounts :: "jstr list"
  resources :: jsval
  startup :: bool
  readiness :: bool
  liveness :: bool
  security_context :: jsval
  c_raw :: jsval
  c_path :: jstr

definition summarize_port :: "jsval \<Rightarrow> port option" where
  "summarize_port p = map_option
     (\<lambda>name. \<lparr>port_name = or_else name (JStr []), container_port = opt_get p (lit ''containerPort''),
       protocol = or_else (opt_get p (lit ''protocol'')) (jlit ''TCP'')\<rparr>)
     (get p (lit ''name''))"

text \<open>The arrow between name and path is U+2192 between two spaces.\<close>

definition mount_text :: "jsval \<Rightarrow> jstr option" where
  "mount_text mount = do {
     name \<leftarrow> get mount (lit ''name'');
     name_text \<leftarrow> to_str name;
     mount_path \<leftarrow> to_str (opt_get mount (lit ''mountPath''));
     Some (name_text @ [32, 0x2192, 32] @ mount_path)
   }"

definition summarize_container :: "jsval \<Rightarrow> container_type \<Rightarrow> jstr \<Rightarrow> container option" where
  "summarize_container container type path = do {
     given \<leftarrow> get container (lit ''image'');
     img \<leftarrow> split_image (or_else given (JStr []));
     port_list \<leftarrow> traverse summarize_port (js_array (opt_get container (lit ''ports'')));
     mount_list \<leftarrow> traverse mount_text (js_array (opt_get container (lit ''volumeMounts'')));
     Some \<lparr>c_type = type,
       c_name = or_else (opt_get container (lit ''name'')) (jlit ''unnamed''),
       c_image = or_else given (jlit ''not set''),
       image_repository = or_else (repository img) (jlit ''not set''),
       image_reference = reference img,
       image_reference_type = reference_type img,
       ports = port_list,
       env_count = length (js_array (opt_get container (lit ''env''))),
       env_from_count = length (js_array (opt_get container (lit ''envFrom''))),
       mounts = mount_list,
       resources = js_object (opt_get container (lit ''resources'')),
       startup = truthy (opt_get container (lit ''startupProbe'')),
       readiness = truthy (opt_get container (lit ''readinessProbe'')),
       liveness = truthy (opt_get container (lit ''livenessProbe'')),
       security_context = js_object (opt_get container (lit ''securityContext'')),
       c_raw = container,
       c_path = path\<rparr>
   }"

section \<open>Laws\<close>

lemma opt_path_nullish: "nullish v \<Longrightarrow> ks \<noteq> [] \<Longrightarrow> opt_path v ks = JUndef"
proof (induction ks arbitrary: v)
  case (Cons k ks)
  then show ?case by (cases ks) auto
qed simp

lemma js_index_of_None_iff [throw_simps]:
  "js_index_of v p = None \<longleftrightarrow> \<not> is_string v \<and> (\<forall>i vs. v \<noteq> JArr i vs)"
  by (cases v) (auto simp: is_string_def)

lemma js_last_index_of_None_iff:
  "js_last_index_of v u = None \<longleftrightarrow> js_index_of v p = None"
  by (cases v) auto

text \<open>\<open>splitImage\<close> throws exactly on values with no \<open>indexOf\<close> method.\<close>

definition indexable :: "jsval \<Rightarrow> bool" where
  "indexable v \<longleftrightarrow> is_string v \<or> (\<exists>i vs. v = JArr i vs)"

lemma split_image_None_iff [throw_simps]: "split_image v = None \<longleftrightarrow> \<not> indexable v"
  by (cases v) (auto simp: split_image_def indexable_def is_string_def Let_def)

lemma summarize_port_None_iff [throw_simps]: "summarize_port p = None \<longleftrightarrow> nullish p"
  by (simp add: summarize_port_def)

lemma mount_text_None_iff [throw_simps]:
  "mount_text m = None \<longleftrightarrow> nullish m \<or> to_str (opt_get m (lit ''name'')) = None
     \<or> to_str (opt_get m (lit ''mountPath'')) = None"
  by (cases m) (auto simp: mount_text_def bind_eq_None not_None_eq)

lemma labels_None_iff [throw_simps]:
  "labels v = None \<longleftrightarrow> (\<exists>(k, w) \<in> set (own_entries (js_object v)). to_str w = None)"
  unfolding labels_def traverse_None_iff by (auto simp: case_prod_beta)

text \<open>Splitting a reference string at its separator.\<close>

lemma find_sub_cut:
  assumes "find_sub (c # p) s = Some n"
  obtains r t where "s = r @ c # t" "length r = n" "prefix p t"
    "\<forall>k < n. \<not> prefix (c # p) (drop k s)" "sublist (c # p) s"
proof -
  from find_sub_Some [OF assms] have n: "n < length s" and t: "take (Suc (length p)) (drop n s) = c # p"
    by auto
  then have d: "drop n s = s ! n # drop (Suc n) s" by (simp add: Cons_nth_drop_Suc)
  with t have c: "s ! n = c" "take (length p) (drop (Suc n) s) = p" by auto
  show ?thesis
  proof
    show "s = take n s @ c # drop (Suc n) s" using c(1) d by (metis append_take_drop_id)
    show "length (take n s) = n" using n by simp
    show "prefix p (drop (Suc n) s)" using c(2) by (metis take_is_prefix)
    show "\<forall>k < n. \<not> prefix (c # p) (drop k s)" using find_sub_least [OF assms] by blast
    show "sublist (c # p) s" using find_sub_None [of "c # p" s] assms by simp
  qed
qed

lemma last_index_of_cut:
  assumes "last_index_of s c = int n"
  obtains r t where "s = r @ c # t" "length r = n" "c \<notin> set t"
    "\<And>d. last_index_of s d < int n \<Longrightarrow> d \<notin> set t"
proof -
  have "c \<in> set s" using assms last_index_of_None [of s c] by force
  then obtain r t where s: "s = r @ c # t" "c \<notin> set t" by (meson split_list_last)
  then have n: "length r = n" using last_index_of_split [of c t r] assms by simp
  show ?thesis
  proof
    show "d \<notin> set t" if "last_index_of s d < int n" for d
      using last_index_of_drop [OF that] s(1) n by simp
  qed (use s n in auto)
qed

text \<open>A colon is after the last slash exactly if it is in the last component.\<close>

lemma colon_in_last_component:
  assumes "c \<noteq> d"
  shows "last_index_of s c > last_index_of s d \<longleftrightarrow> c \<in> set (last (split_on d s))"
proof -
  obtain a where a: "s = a @ last (split_on d s)" "last_index_of s d = int (length a) - 1"
    "a = [] \<or> last a = d" using split_last_component [of s d] by blast
  let ?b = "last (split_on d s)"
  have c: "last_index_of s c =
      (if c \<in> set ?b then int (length a) + last_index_of ?b c else last_index_of a c)"
    using last_index_of_append [of a ?b c] a(1) by simp
  have "last_index_of a c \<le> int (length a) - 1"
    using last_index_of_bounds [of a c] by simp
  moreover have "0 \<le> last_index_of ?b c" if "c \<in> set ?b"
    using that last_index_of_None [of ?b c] by linarith
  ultimately show ?thesis using a(2) c by auto
qed

text \<open>The three ways an image reference is split.\<close>

lemma split_image_cases:
  obtains
    (digest) r t where "s = r @ lit ''@'' @ t" "prefix (lit ''sha256:'') t"
      "\<forall>k < length r. \<not> prefix (lit ''@sha256:'') (drop k s)" "sublist (lit ''@sha256:'') s"
      "split_image (JStr s) = Some \<lparr>repository = JStr r, reference = JStr t, reference_type = Digest\<rparr>"
  | (tag) r t where "s = r @ lit '':'' @ t" "cu CHR '':'' \<notin> set t" "cu CHR ''/'' \<notin> set t"
      "\<not> sublist (lit ''@sha256:'') s" "cu CHR '':'' \<in> set (last (split_on (cu CHR ''/'') s))"
      "split_image (JStr s) = Some \<lparr>repository = JStr r, reference = JStr t, reference_type = Tag\<rparr>"
  | (implicit) "\<not> sublist (lit ''@sha256:'') s" "cu CHR '':'' \<notin> set (last (split_on (cu CHR ''/'') s))"
      "split_image (JStr s) =
         Some \<lparr>repository = JStr s, reference = jlit ''latest (implicit)'', reference_type = Tag\<rparr>"
proof (cases "find_sub (lit ''@sha256:'') s")
  case (Some n)
  have at: "lit ''@sha256:'' = cu CHR ''@'' # lit ''sha256:''" "lit ''@'' = [cu CHR ''@'']"
    by (simp_all add: lit_Cons)
  obtain r t where "s = r @ cu CHR ''@'' # t" "length r = n" "prefix (lit ''sha256:'') t"
    "\<forall>k < n. \<not> prefix (lit ''@sha256:'') (drop k s)" "sublist (lit ''@sha256:'') s"
    using find_sub_cut [OF Some [unfolded at(1)]] at(1) by metis
  then show ?thesis
    using Some digest [of r t]
    by (simp add: split_image_def index_of_def js_index_def slice_def at(2))
next
  case None
  then have no: "\<not> sublist (lit ''@sha256:'') s" using find_sub_None by blast
  let ?colon = "last_index_of s (cu CHR '':'')"
  note place = colon_in_last_component [of "cu CHR '':''" "cu CHR ''/''" s]
  show ?thesis
  proof (cases "cu CHR '':'' \<in> set (last (split_on (cu CHR ''/'') s))")
    case True
    with place have later: "last_index_of s (cu CHR ''/'') < ?colon" by simp
    then obtain n where n: "?colon = int n"
      using last_index_of_bounds [of s "cu CHR ''/''"] nonneg_int_cases [of ?colon] by fastforce
    then obtain r t where "s = r @ cu CHR '':'' # t" "length r = n" "cu CHR '':'' \<notin> set t"
      "cu CHR ''/'' \<notin> set t"
      using last_index_of_cut [OF n] later by metis
    with True no None later n show ?thesis
      using tag [of r t] by (simp add: split_image_def index_of_def js_index_def slice_def lit_Cons)
  next
    case False
    with no None place show ?thesis
      using implicit by (simp add: split_image_def index_of_def js_index_def)
  qed
qed

lemma selector_matches_iff:
  "selector_matches selector candidate \<longleftrightarrow>
     (\<forall>(k, v) \<in> set (own_entries (js_object selector)). strict_eq (opt_get candidate k) v)"
  by (simp add: selector_matches_def list_all_iff)

lemma summarize_container_SomeD:
  assumes "summarize_container v type path = Some c"
  shows "c_type c = type" "c_path c = path" "c_raw c = v" "\<not> nullish v"
    "c_name c = or_else (opt_get v (lit ''name'')) (jlit ''unnamed'')"
    "c_image c = or_else (opt_get v (lit ''image'')) (jlit ''not set'')"
    "security_context c = js_object (opt_get v (lit ''securityContext''))"
    "resources c = js_object (opt_get v (lit ''resources''))"
    "readiness c = truthy (opt_get v (lit ''readinessProbe''))"
    "liveness c = truthy (opt_get v (lit ''livenessProbe''))"
  using assms by (cases v; auto simp: summarize_container_def bind_eq_Some_conv)+

lemma summarize_container_image:
  assumes "summarize_container v type path = Some c"
  obtains img where "split_image (or_else (opt_get v (lit ''image'')) (JStr [])) = Some img"
    "image_reference c = reference img"
proof -
  have "\<not> nullish v" by (rule summarize_container_SomeD(4) [OF assms])
  with assms that show ?thesis
    by (auto simp: summarize_container_def get_Some_opt_get bind_eq_Some_conv)
qed

lemma summarize_container_None:
  assumes "\<not> nullish v"
  shows "summarize_container v type path = None \<longleftrightarrow>
    split_image (or_else (opt_get v (lit ''image'')) (JStr [])) = None
    \<or> traverse summarize_port (js_array (opt_get v (lit ''ports''))) = None
    \<or> traverse mount_text (js_array (opt_get v (lit ''volumeMounts''))) = None"
  unfolding summarize_container_def get_Some_opt_get [OF assms] Option.bind.simps
  by (intro bind_const_None) simp_all

section \<open>Properties\<close>

text \<open>C7: an image reference is taken apart without loss, and at the right place: a digest reference
  is what follows the first \<open>@\<close> before \<open>sha256:\<close>; a tag is what follows the last colon, and only
  if that colon lies in the last path component, so that a registry port is never read as a tag;
  otherwise the whole text is the repository and the tag is the implicit one.\<close>

theorem split_image_reassembles:
  "\<exists>p r. split_image (JStr s) = Some p \<and> repository p = JStr r \<and>
     (if sublist (lit ''@sha256:'') s
      then reference_type p = Digest \<and> (\<exists>t. reference p = JStr t \<and>
        s = r @ lit ''@'' @ t \<and> prefix (lit ''sha256:'') t \<and>
        (\<forall>k < length r. \<not> prefix (lit ''@sha256:'') (drop k s)))
      else reference_type p = Tag \<and>
        (if cu CHR '':'' \<in> set (last (split_on (cu CHR ''/'') s))
         then \<exists>t. reference p = JStr t \<and> s = r @ lit '':'' @ t \<and> cu CHR '':'' \<notin> set t \<and> cu CHR ''/'' \<notin> set t
         else r = s \<and> reference p = jlit ''latest (implicit)''))"
  by (cases rule: split_image_cases [of s]) auto

lemma split_image_reassembles_witness:
  "\<exists>p. split_image (jlit ''h:5/a'') = Some p \<and> repository p = jlit ''h:5/a''"
proof -
  have "\<not> sublist (lit ''@sha256:'') (lit ''h:5/a'')"
    "cu CHR '':'' \<notin> set (last (split_on (cu CHR ''/'') (lit ''h:5/a'')))"
    by (simp_all add: has_sub_iff [symmetric] has_sub_def lit_Cons)
  with split_image_reassembles [of "lit ''h:5/a''"] show ?thesis by auto
qed

text \<open>C8: exactly when a container cannot be summarised and the uncaught \<open>TypeError\<close> ends the whole
  analysis: it is null, its image is set but neither text nor a list, one of its ports is null, or
  one of its volume mounts is null or has a name or path that no string can be made of.\<close>

theorem summarize_container_throws_iff:
  "summarize_container v type path = None \<longleftrightarrow>
     nullish v
     \<or> truthy (opt_get v (lit ''image'')) \<and> \<not> indexable (opt_get v (lit ''image''))
     \<or> (\<exists>p \<in> set (js_array (opt_get v (lit ''ports''))). nullish p)
     \<or> (\<exists>m \<in> set (js_array (opt_get v (lit ''volumeMounts''))). nullish m
          \<or> to_str (opt_get m (lit ''name'')) = None \<or> to_str (opt_get m (lit ''mountPath'')) = None)"
proof (cases "nullish v")
  case False
  let ?img = "opt_get v (lit ''image'')"
  have "split_image (or_else ?img (JStr [])) = None \<longleftrightarrow> truthy ?img \<and> \<not> indexable ?img"
    by (auto simp: split_image_None_iff or_else_def indexable_def is_string_def)
  with False show ?thesis
    by (simp add: summarize_container_None traverse_None_iff summarize_port_None_iff mount_text_None_iff)
qed (cases v; simp add: summarize_container_def)

end
