(* ===== verification/Rules.thy ===== *)
theory Rules
  imports Resource
begin

text \<open>
  The rules of the review (\<open>findings\<close> of \<open>analyze.js\<close>): which finding is reported for which
  manifest, in the order of the code. A group of rules that can throw returns an option: a title
  built from a container name that no string can be made of throws, and so does a null item in
  \<open>volumes\<close> or in the \<open>rules\<close> of a role.
\<close>

section \<open>Model\<close>

definition when_found :: "bool \<Rightarrow> finding \<Rightarrow> finding list" where
  "when_found c f = (if c then [f] else [])"

text \<open>A finding whose title needs the text of a container name, made only when it is reported.\<close>

definition when_named :: "bool \<Rightarrow> jstr option \<Rightarrow> (jstr \<Rightarrow> finding) \<Rightarrow> finding list option" where
  "when_named c name f = (if c then map_option (\<lambda>n. [f n]) name else Some [])"

definition gather :: "finding list option list \<Rightarrow> finding list option" where
  "gather gs = map_option concat (those gs)"

definition gather_indexed :: "(nat \<Rightarrow> 'a \<Rightarrow> finding list option) \<Rightarrow> 'a list \<Rightarrow> finding list option" where
  "gather_indexed f xs = map_option concat (traverse_indexed f xs)"

definition no_keys :: "jsval \<Rightarrow> bool" where
  "no_keys v \<longleftrightarrow> own_keys (js_object v) = []"

definition identity_rules :: "jsval \<Rightarrow> container list \<Rightarrow> pod \<Rightarrow> finding list" where
  "identity_rules resource containers pod =
     when_found (\<not> truthy (opt_get resource (lit ''apiVersion''))) missing_api_version @
     when_found (\<not> truthy (kind_of resource)) missing_kind @
     when_found (\<not> truthy (opt_path resource [''metadata'', ''name''])
        \<and> \<not> truthy (opt_path resource [''metadata'', ''generateName''])) missing_name @
     when_found (among (kind_of resource) workloads \<and> containers = []) (no_containers (pod_path pod))"

definition has_seccomp_profile :: "jsval \<Rightarrow> bool" where
  "has_seccomp_profile v \<longleftrightarrow> is_lit v ''RuntimeDefault'' \<or> is_lit v ''Localhost''"

definition cloud_credential_env_names :: "string list" where
  "cloud_credential_env_names =
     [''AWS_ACCESS_KEY_ID'', ''AWS_SECRET_ACCESS_KEY'', ''AWS_SESSION_TOKEN'',
      ''AZURE_CLIENT_SECRET'', ''AZURE_CLIENT_CERTIFICATE_PASSWORD'',
      ''GOOGLE_CREDENTIALS'', ''GOOGLE_PRIVATE_KEY'']"

definition env_rules :: "jstr option \<Rightarrow> jstr \<Rightarrow> jsval list \<Rightarrow> finding list option" where
  "env_rules name path = gather_indexed (\<lambda>index environment. gather
     [when_named (truthy (opt_path environment [''valueFrom'', ''secretKeyRef''])) name
        (\<lambda>n. secret_env n path index),
      when_named (\<not> nullish (opt_get environment (lit ''value''))
          \<and> among (opt_get environment (lit ''name'')) cloud_credential_env_names) name
        (\<lambda>n. literal_credential n path index (text_of (opt_get environment (lit ''name''))))])"

definition env_from_rules :: "jstr option \<Rightarrow> jstr \<Rightarrow> jsval list \<Rightarrow> finding list option" where
  "env_from_rules name path = gather_indexed (\<lambda>index source.
     when_named (truthy (opt_get source (lit ''secretRef''))) name (\<lambda>n. secret_env_from n path index))"

definition container_group :: "pod \<Rightarrow> container \<Rightarrow> jstr option \<Rightarrow> finding list option" where
  "container_group pod c name =
     (let path = c_path c;
          security = security_context c;
          pod_seccomp = opt_path (pod_spec pod) [''securityContext'', ''seccompProfile'', ''type''];
          own_seccomp = opt_path security [''seccompProfile'', ''type''];
          unconfined = is_lit pod_seccomp ''Unconfined'' \<or> is_lit own_seccomp ''Unconfined''
      in gather
       [when_named (\<not> truthy (c_image c) \<or> is_lit (image_reference c) ''latest''
            \<or> is_lit (image_reference c) ''latest (implicit)'') name (\<lambda>n. mutable_image n path),
        when_named (c_type c = Container \<and> \<not> readiness c) name (\<lambda>n. no_readiness_probe n path),
        when_named (c_type c = Container \<and> \<not> liveness c) name (\<lambda>n. no_liveness_probe n path),
        when_named (no_keys (opt_get (resources c) (lit ''requests''))) name (\<lambda>n. no_requests n path),
        when_named (no_keys (opt_get (resources c) (lit ''limits''))) name (\<lambda>n. no_limits n path),
        when_named (opt_get security (lit ''privileged'') = JBool True) name
          (\<lambda>n. privileged_container n path),
        when_named (opt_get security (lit ''runAsUser'') = JNum (JInt 0)) name (\<lambda>n. runs_as_root n path),
        when_named (opt_get security (lit ''allowPrivilegeEscalation'') \<noteq> JBool False) name
          (\<lambda>n. escalation_allowed n path),
        when_named (opt_get security (lit ''readOnlyRootFilesystem'') \<noteq> JBool True) name
          (\<lambda>n. writable_root n path),
        when_named (jlit ''ALL'' \<notin> set (js_array (opt_path security [''capabilities'', ''drop'']))) name
          (\<lambda>n. capabilities_kept n path),
        when_named (opt_path (pod_spec pod) [''securityContext'', ''runAsNonRoot''] \<noteq> JBool True
            \<and> opt_get security (lit ''runAsNonRoot'') \<noteq> JBool True
            \<and> nullish (opt_get security (lit ''runAsUser''))) name (\<lambda>n. root_possible n path),
        when_named (\<not> has_seccomp_profile pod_seccomp \<and> \<not> has_seccomp_profile own_seccomp) name
          (\<lambda>n. seccomp_missing (if unconfined then Warning else Note) n path),
        env_rules name path (js_array (opt_get (c_raw c) (lit ''env''))),
        env_from_rules name path (js_array (opt_get (c_raw c) (lit ''envFrom'')))])"

definition container_rules :: "pod \<Rightarrow> container \<Rightarrow> finding list option" where
  "container_rules pod c = container_group pod c (to_str (c_name c))"

definition host_rules :: "pod \<Rightarrow> finding list" where
  "host_rules pod =
     when_found (opt_get (pod_spec pod) (lit ''hostNetwork'') = JBool True) (host_network (pod_path pod)) @
     when_found (opt_get (pod_spec pod) (lit ''hostPID'') = JBool True) (host_pid (pod_path pod)) @
     when_found (opt_get (pod_spec pod) (lit ''hostIPC'') = JBool True) (host_ipc (pod_path pod))"

definition volume_rules :: "pod \<Rightarrow> finding list option" where
  "volume_rules pod = gather_indexed (\<lambda>index volume.
       map_option (\<lambda>h. when_found (truthy h) (host_path_volume (pod_path pod) index))
         (get volume (lit ''hostPath'')))
     (js_array (opt_get (pod_spec pod) (lit ''volumes'')))"

definition token_rule :: "jsval \<Rightarrow> pod \<Rightarrow> finding list" where
  "token_rule resource pod =
     when_found (among (kind_of resource) workloads
         \<and> opt_get (pod_spec pod) (lit ''automountServiceAccountToken'') \<noteq> JBool False)
       (token_mounted_twice (pod_path pod))"

definition exposure_rules :: "jsval \<Rightarrow> finding list" where
  "exposure_rules resource =
     when_found (is_lit (kind_of resource) ''Service''
         \<and> no_keys (opt_path resource [''spec'', ''selector''])
         \<and> \<not> is_lit (opt_path resource [''spec'', ''type'']) ''ExternalName'') service_without_selector @
     when_found (is_lit (kind_of resource) ''Service''
         \<and> among (opt_path resource [''spec'', ''type'']) [''NodePort'', ''LoadBalancer''])
       external_service @
     when_found (is_lit (kind_of resource) ''Ingress'') ingress_surface @
     when_found (is_lit (kind_of resource) ''Namespace''
         \<and> \<not> truthy (opt_path resource
             [''metadata'', ''labels'', ''pod-security.kubernetes.io/enforce'']))
       no_pod_security_label"

definition rbac_rule_rules :: "nat \<Rightarrow> jsval \<Rightarrow> finding list option" where
  "rbac_rule_rules index r = map_option (\<lambda>given_verbs.
     let verbs = js_array given_verbs;
         resources = js_array (opt_get r (lit ''resources''));
         path = lit ''.rules['' @ nat_text index @ lit '']''
     in when_found (jlit ''*'' \<in> set verbs \<or> jlit ''*'' \<in> set resources
            \<or> jlit ''*'' \<in> set (js_array (opt_get r (lit ''apiGroups'')))) (rbac_wildcard path) @
        when_found (list_ex (\<lambda>verb. among verb [''escalate'', ''bind'', ''impersonate'']) verbs)
          (rbac_escalation path) @
        when_found (jlit ''nodes/proxy'' \<in> set resources) (rbac_nodes_proxy path) @
        when_found (jlit ''secrets'' \<in> set resources
            \<and> list_ex (\<lambda>verb. among verb [''get'', ''list'', ''watch'', ''*'']) verbs)
          (rbac_secret_read path))
     (get r (lit ''verbs''))"

definition role_rules :: "jsval \<Rightarrow> finding list option" where
  "role_rules resource =
     (if among (kind_of resource) [''Role'', ''ClusterRole'']
      then gather_indexed rbac_rule_rules (js_array (opt_get resource (lit ''rules'')))
      else Some [])"

definition binding_rule :: "jsval \<Rightarrow> finding list" where
  "binding_rule resource =
     when_found (among (kind_of resource) [''RoleBinding'', ''ClusterRoleBinding'']
         \<and> is_lit (opt_path resource [''roleRef'', ''kind'']) ''ClusterRole''
         \<and> is_lit (opt_path resource [''roleRef'', ''name'']) ''cluster-admin'') binds_cluster_admin"

definition selector_rules :: "jsval \<Rightarrow> pod \<Rightarrow> finding list" where
  "selector_rules resource pod =
     (if among (kind_of resource) selector_workloads then
        let selector = js_object (opt_path resource [''spec'', ''selector'', ''matchLabels'']);
            expressions = js_array (opt_path resource [''spec'', ''selector'', ''matchExpressions''])
        in if own_keys selector = [] \<and> expressions = [] then [no_selector_terms]
           else when_found (\<not> selector_matches selector (pod_labels pod)) selector_mismatch
      else [])"

definition findings :: "jsval \<Rightarrow> container list \<Rightarrow> pod \<Rightarrow> finding list option" where
  "findings resource containers pod = gather
     [Some (identity_rules resource containers pod),
      gather (map (container_rules pod) containers),
      Some (host_rules pod),
      volume_rules pod,
      Some (token_rule resource pod),
      Some (exposure_rules resource),
      role_rules resource,
      Some (binding_rule resource),
      Some (selector_rules resource pod)]"

section \<open>Laws of the rule combinators\<close>

text \<open>\<open>every P g\<close>: whatever the rule group \<open>g\<close> reports has \<open>P\<close>.\<close>

definition every :: "(finding \<Rightarrow> bool) \<Rightarrow> finding list option \<Rightarrow> bool" where
  "every P g \<longleftrightarrow> (\<forall>fs. g = Some fs \<longrightarrow> (\<forall>f \<in> set fs. P f))"

named_theorems rule_simps \<open>groups of rules reduced to their parts\<close>

lemma gather_simps:
  "gather [] = Some []"
  "gather (g # gs) = Option.bind g (\<lambda>fs. map_option ((@) fs) (gather gs))"
  by (cases g; cases "those gs"; simp add: gather_def)+

lemma gather_None_iff: "gather gs = None \<longleftrightarrow> list_ex Option.is_none gs"
  by (induction gs) (auto simp: gather_simps Option.is_none_def bind_eq_None not_None_eq)

lemma gather_Nil_iff: "gather gs = Some [] \<longleftrightarrow> (\<forall>g \<in> set gs. g = Some [])"
  by (induction gs) (auto simp: gather_simps bind_eq_Some_conv)

lemma gather_indexed_alt:
  "gather_indexed f xs = gather (map (\<lambda>(i, x). f i x) (enumerate 0 xs))"
  by (simp add: gather_indexed_def gather_def traverse_indexed_def)

lemma gather_indexed_None_iff [throw_simps]:
  "gather_indexed f xs = None \<longleftrightarrow> (\<exists>i < length xs. f i (xs ! i) = None)"
  by (simp add: gather_indexed_def traverse_indexed_None_iff)

lemma gather_indexed_throws:
  "(\<And>i x. f i x = None \<longleftrightarrow> Q x) \<Longrightarrow> gather_indexed f xs = None \<longleftrightarrow> (\<exists>x \<in> set xs. Q x)"
  unfolding gather_indexed_None_iff by (metis in_set_conv_nth)

lemma gather_indexed_Nil_iff:
  "gather_indexed f xs = Some [] \<longleftrightarrow> (\<forall>i < length xs. f i (xs ! i) = Some [])"
  by (simp add: gather_indexed_alt gather_Nil_iff all_set_conv_all_nth nth_enumerate_eq del: set_map)

lemma gather_indexed_clean:
  "(\<And>i x. x \<in> set xs \<Longrightarrow> f i x = Some [] \<longleftrightarrow> Q x) \<Longrightarrow>
     gather_indexed f xs = Some [] \<longleftrightarrow> (\<forall>x \<in> set xs. Q x)"
  unfolding gather_indexed_Nil_iff by (metis in_set_conv_nth)

lemma when_named_None_iff [throw_simps]: "when_named c name f = None \<longleftrightarrow> c \<and> name = None"
  by (simp add: when_named_def)

lemma when_named_Nil_iff [rule_simps]: "when_named c name f = Some [] \<longleftrightarrow> \<not> c"
  by (auto simp: when_named_def)

lemma when_found_Nil_iff [rule_simps]: "when_found c f = [] \<longleftrightarrow> \<not> c"
  by (simp add: when_found_def)

lemma when_found_mem [rule_simps]: "g \<in> set (when_found c f) \<longleftrightarrow> c \<and> g = f"
  by (auto simp: when_found_def)

lemma every_Some [rule_simps]: "every P (Some fs) \<longleftrightarrow> (\<forall>f \<in> set fs. P f)"
  by (simp add: every_def)

lemma every_gather: "(\<And>g. g \<in> set gs \<Longrightarrow> every P g) \<Longrightarrow> every P (gather gs)"
proof (induction gs)
  case (Cons g gs)
  then have "every P g" "every P (gather gs)" by simp_all
  then show ?case by (auto simp: every_def gather_simps bind_eq_Some_conv)
qed (simp add: every_def gather_simps)

lemma every_gather_indexed: "(\<And>i x. every P (f i x)) \<Longrightarrow> every P (gather_indexed f xs)"
  unfolding gather_indexed_alt by (rule every_gather) auto

lemma every_when_named: "(\<And>n. P (f n)) \<Longrightarrow> every P (when_named c name f)"
  by (auto simp: every_def when_named_def split: if_splits)

lemmas every_intros = every_gather every_gather_indexed every_when_named

text \<open>
  A group that depends on a name is lazy in it: it never throws with a printable name, and with an
  unprintable one it throws exactly if it has something to report.
\<close>

definition lazy :: "(jstr option \<Rightarrow> finding list option) \<Rightarrow> bool" where
  "lazy g \<longleftrightarrow> (\<forall>n. g (Some n) \<noteq> None \<and> (g None = None \<longleftrightarrow> g (Some n) \<noteq> Some []))"

lemma lazy_when_named: "lazy (\<lambda>name. when_named c name f)"
  by (simp add: lazy_def when_named_def)

lemma lazy_gather_Nil: "lazy (\<lambda>name. gather [])"
  by (simp add: lazy_def gather_simps)

lemma lazy_gather_Cons:
  "lazy g \<Longrightarrow> lazy (\<lambda>name. gather (gs name)) \<Longrightarrow> lazy (\<lambda>name. gather (g name # gs name))"
  unfolding lazy_def gather_None_iff gather_Nil_iff by (auto simp: Option.is_none_def)

lemmas lazy_intros = lazy_gather_Cons lazy_gather_Nil lazy_when_named

lemma lazy_gather_map:
  "(\<And>y. lazy (\<lambda>name. f name y)) \<Longrightarrow> lazy (\<lambda>name. gather (map (f name) ys))"
  by (induction ys) (simp_all add: lazy_gather_Nil lazy_gather_Cons)

lemma lazy_gather_indexed:
  "(\<And>i x. lazy (\<lambda>name. f name i x)) \<Longrightarrow> lazy (\<lambda>name. gather_indexed (f name) xs)"
  unfolding gather_indexed_alt by (rule lazy_gather_map) auto

lemma lazy_env_rules: "lazy (\<lambda>name. env_rules name path es)"
  unfolding env_rules_def by (intro lazy_gather_indexed lazy_intros)

lemma lazy_env_from_rules: "lazy (\<lambda>name. env_from_rules name path es)"
  unfolding env_from_rules_def by (intro lazy_gather_indexed lazy_intros)

lemma lazy_container_group: "lazy (container_group pod c)"
  unfolding container_group_def Let_def
  by (intro lazy_intros lazy_env_rules lazy_env_from_rules)

lemma lazyD: "lazy g \<Longrightarrow> g None = None \<longleftrightarrow> g (Some n) \<noteq> Some []"
  by (simp add: lazy_def)

lemma lazy_total: "lazy g \<Longrightarrow> g (Some n) \<noteq> None"
  by (simp add: lazy_def)

subsection \<open>What a single finding looks like\<close>

text \<open>
  A coherent finding: errors are structural and cite no standard; one that cites standards names the
  first of them as its standard, and only those of the profile a manifest can give evidence for.
\<close>

definition manifest_keys :: "owasp_key set" where
  "manifest_keys = {K01, K02, K03, K04, K06, K08, K09}"

definition coherent :: "finding \<Rightarrow> bool" where
  "coherent f \<longleftrightarrow> f_level f \<noteq> Valid \<and>
     (case f_standards f of
        None \<Rightarrow> f_standard f = None
      | Some ss \<Rightarrow> f_level f \<noteq> Error \<and>
          (\<exists>k ks. ss = map owasp_standard (k # ks) \<and> f_standard f = Some (owasp_standard k) \<and>
             insert k (set ks) \<subseteq> manifest_keys))"

lemma coherent_plain [rule_simps]: "coherent (make_finding l t p e s None) \<longleftrightarrow> l \<noteq> Valid"
  by (simp add: coherent_def)

lemma coherent_owasp [rule_simps]:
  "l \<noteq> Valid \<Longrightarrow> l \<noteq> Error \<Longrightarrow> insert k (set ks) \<subseteq> manifest_keys \<Longrightarrow>
     coherent (make_finding l t p e s (Some (owasp (k # ks) ex ca)))"
  by (auto simp: coherent_def)

lemma coherent_k01 [rule_simps]:
  "l \<noteq> Valid \<Longrightarrow> l \<noteq> Error \<Longrightarrow> coherent (make_finding l t p e s (Some (k01 ex ca)))"
  by (simp add: k01_def coherent_owasp manifest_keys_def)

lemma coherent_token [rule_simps]: "coherent (token_mounted_twice path)"
  by (auto simp: coherent_def token_mounted_twice_def token_mounted_def manifest_keys_def
      intro!: exI [of _ "[K09]"])

text \<open>Every finding of a container points into the container.\<close>

definition inside :: "jstr \<Rightarrow> finding \<Rightarrow> bool" where
  "inside path f \<longleftrightarrow> prefix path (f_path f)"

lemma inside_make [rule_simps]:
  "inside path (make_finding l t (path @ q) e s g)" by (simp add: inside_def)

lemma coherent_container_group: "every coherent (container_group pod c name)"
  unfolding container_group_def env_rules_def env_from_rules_def Let_def
  by (rule every_gather) (auto intro!: every_intros simp: rule_simps finding_texts manifest_keys_def)

lemma inside_container_group: "every (inside (c_path c)) (container_group pod c name)"
  unfolding container_group_def env_rules_def env_from_rules_def Let_def
  by (rule every_gather) (auto intro!: every_intros simp: rule_simps finding_texts)

lemma coherent_rbac: "every coherent (rbac_rule_rules index r)"
  by (auto simp: every_def rbac_rule_rules_def Let_def rule_simps finding_texts manifest_keys_def)

lemma coherent_volumes: "every coherent (volume_rules pod)"
  unfolding volume_rules_def
  by (rule every_gather_indexed) (auto simp: every_def rule_simps finding_texts)

lemma coherent_findings: "every coherent (findings resource containers pod)"
proof -
  have "every coherent (gather (map (container_rules pod) containers))"
    by (rule every_gather) (auto simp: container_rules_def coherent_container_group)
  moreover have "every coherent (role_rules resource)"
    by (auto simp: role_rules_def rule_simps intro!: every_gather_indexed coherent_rbac)
  ultimately show ?thesis
    unfolding findings_def
    by (intro every_gather)
      (auto simp: coherent_volumes rule_simps identity_rules_def host_rules_def token_rule_def
        exposure_rules_def binding_rule_def selector_rules_def Let_def finding_texts(1-4)
        host_network_def host_pid_def host_ipc_def service_without_selector_def external_service_def
        ingress_surface_def no_pod_security_label_def binds_cluster_admin_def no_selector_terms_def
        selector_mismatch_def manifest_keys_def coherent_token)
qed

subsection \<open>When a rule throws\<close>

lemma findings_None:
  "findings resource containers pod = None \<longleftrightarrow>
     (\<exists>c \<in> set containers. container_rules pod c = None)
     \<or> volume_rules pod = None \<or> role_rules resource = None"
proof -
  have "gather (map (container_rules pod) containers) = None \<longleftrightarrow>
      (\<exists>c \<in> set containers. container_rules pod c = None)"
    by (simp only: gather_def option.map_disc_iff traverse_None_iff)
  then show ?thesis
    unfolding findings_def by (subst gather_None_iff) (simp add: Option.is_none_def)
qed

lemma volume_rules_None:
  "volume_rules pod = None \<longleftrightarrow>
     (\<exists>v \<in> set (js_array (opt_get (pod_spec pod) (lit ''volumes''))). nullish v)"
  unfolding volume_rules_def by (rule gather_indexed_throws) simp

lemma role_rules_None:
  "role_rules resource = None \<longleftrightarrow> among (kind_of resource) [''Role'', ''ClusterRole'']
     \<and> (\<exists>r \<in> set (js_array (opt_get resource (lit ''rules''))). nullish r)"
proof -
  have "rbac_rule_rules i r = None \<longleftrightarrow> nullish r" for i r
    by (simp add: rbac_rule_rules_def)
  then show ?thesis by (simp add: role_rules_def gather_indexed_throws [where Q = nullish])
qed

lemma container_rules_total: "to_str (c_name c) \<noteq> None \<Longrightarrow> container_rules pod c \<noteq> None"
  using lazy_total [OF lazy_container_group [of pod c]] by (auto simp: container_rules_def)

section \<open>Secrets stay out of the review\<close>

text \<open>
  \<open>redact s v\<close> replaces the literal values of the environment of a container by \<open>s\<close>, wherever one
  is given.
\<close>

fun redact_env :: "jsval \<Rightarrow> jsval \<Rightarrow> jsval" where
  "redact_env s (JObj i es) =
     JObj i (map (\<lambda>(k, v). (k, if k = lit ''value'' \<and> \<not> nullish v then s else v)) es)"
| "redact_env s v = v"

fun redact_list :: "jsval \<Rightarrow> jsval \<Rightarrow> jsval" where
  "redact_list s (JArr i vs) = JArr i (map (redact_env s) vs)"
| "redact_list s v = v"

fun redact :: "jsval \<Rightarrow> jsval \<Rightarrow> jsval" where
  "redact s (JObj i es) =
     JObj i (map (\<lambda>(k, v). (k, if k = lit ''env'' then redact_list s v else v)) es)"
| "redact s v = v"

lemma lookup_map:
  assumes "P JUndef \<Longrightarrow> f JUndef = JUndef"
  shows "lookup (map (\<lambda>(k, v). (k, if k = l \<and> P v then f v else v)) es) k =
    (if k = l \<and> P (lookup es k) then f (lookup es k) else lookup es k)"
  using assms by (induction es k rule: lookup.induct) auto

lemma redact_env_get:
  assumes "\<not> nullish s"
  shows "k \<noteq> lit ''value'' \<Longrightarrow> opt_get (redact_env s e) k = opt_get e k"
    and "nullish (opt_get (redact_env s e) (lit ''value'')) = nullish (opt_get e (lit ''value''))"
proof -
  have "lookup (map (\<lambda>(k, v). (k, if k = lit ''value'' \<and> \<not> nullish v then s else v)) es) k =
      (if k = lit ''value'' \<and> \<not> nullish (lookup es k) then s else lookup es k)" for es k
    using lookup_map [of "\<lambda>v. \<not> nullish v" "\<lambda>_. s" "lit ''value''" es k] by simp
  with assms show "k \<noteq> lit ''value'' \<Longrightarrow> opt_get (redact_env s e) k = opt_get e k"
    and "nullish (opt_get (redact_env s e) (lit ''value'')) = nullish (opt_get e (lit ''value''))"
    by (cases e; simp)+
qed

lemma redact_get:
  "opt_get (redact s v) k = (if k = lit ''env'' then redact_list s (opt_get v k) else opt_get v k)"
proof (cases v)
  case (JObj i es)
  then show ?thesis
    using lookup_map [of "\<lambda>_. True" "redact_list s" "lit ''env''" es k] by auto
qed auto

lemma redact_list_array: "js_array (redact_list s v) = map (redact_env s) (js_array v)"
  by (cases v) (auto simp: js_array_def)

lemma redact_nullish [simp]: "nullish (redact s v) = nullish v"
  by (cases v) auto

lemma gather_indexed_map:
  "gather_indexed f (map g xs) = gather_indexed (\<lambda>i x. f i (g x)) xs"
proof -
  have "map (\<lambda>(i, x). f i x) (enumerate n (map g xs)) = map (\<lambda>(i, x). f i (g x)) (enumerate n xs)" for n
    by (induction xs arbitrary: n) auto
  then show ?thesis by (simp add: gather_indexed_alt)
qed

lemma env_rules_redact:
  "\<not> nullish s \<Longrightarrow> env_rules name path (map (redact_env s) es) = env_rules name path es"
  unfolding env_rules_def gather_indexed_map
  by (simp add: redact_env_get)

section \<open>The baseline a container is reviewed against\<close>

text \<open>An image that names one build: by digest, or by a tag of its own in the last path component.\<close>

definition pinned :: "jstr \<Rightarrow> bool" where
  "pinned s \<longleftrightarrow> s \<noteq> [] \<and> (sublist (lit ''@sha256:'') s \<or>
     (\<exists>r t. s = r @ lit '':'' @ t \<and> cu CHR '':'' \<notin> set t \<and> cu CHR ''/'' \<notin> set t
       \<and> t \<noteq> lit ''latest'' \<and> t \<noteq> lit ''latest (implicit)''))"

definition leaks_secret :: "jsval \<Rightarrow> bool" where
  "leaks_secret e \<longleftrightarrow> truthy (opt_path e [''valueFrom'', ''secretKeyRef''])
     \<or> \<not> nullish (opt_get e (lit ''value''))
        \<and> among (opt_get e (lit ''name'')) cloud_credential_env_names"

text \<open>
  The security baseline, said of the manifest: \<open>v\<close> is the container as written and \<open>p\<close> the
  \<open>securityContext\<close> of its Pod.
\<close>

definition sandboxed :: "jsval \<Rightarrow> jsval \<Rightarrow> bool" where
  "sandboxed p v \<longleftrightarrow>
     (let s = opt_get v (lit ''securityContext'') in
      opt_get s (lit ''privileged'') \<noteq> JBool True
      \<and> opt_get s (lit ''runAsUser'') \<noteq> JNum (JInt 0)
      \<and> opt_get s (lit ''allowPrivilegeEscalation'') = JBool False
      \<and> opt_get s (lit ''readOnlyRootFilesystem'') = JBool True
      \<and> jlit ''ALL'' \<in> set (js_array (opt_path s [''capabilities'', ''drop'']))
      \<and> (opt_get p (lit ''runAsNonRoot'') = JBool True \<or> opt_get s (lit ''runAsNonRoot'') = JBool True
          \<or> \<not> nullish (opt_get s (lit ''runAsUser'')))
      \<and> (has_seccomp_profile (opt_path p [''seccompProfile'', ''type''])
          \<or> has_seccomp_profile (opt_path s [''seccompProfile'', ''type''])))"

definition hardened :: "jsval \<Rightarrow> jsval \<Rightarrow> bool" where
  "hardened p v \<longleftrightarrow>
     pinned (text_of (opt_get v (lit ''image'')))
     \<and> truthy (opt_get v (lit ''readinessProbe'')) \<and> truthy (opt_get v (lit ''livenessProbe''))
     \<and> own_keys (js_object (opt_path v [''resources'', ''requests''])) \<noteq> []
     \<and> own_keys (js_object (opt_path v [''resources'', ''limits''])) \<noteq> []
     \<and> sandboxed p v
     \<and> (\<forall>e \<in> set (js_array (opt_get v (lit ''env''))). \<not> leaks_secret e)
     \<and> (\<forall>e \<in> set (js_array (opt_get v (lit ''envFrom''))). \<not> truthy (opt_get e (lit ''secretRef'')))"

lemma env_rules_Nil_iff: "env_rules name path es = Some [] \<longleftrightarrow> (\<forall>e \<in> set es. \<not> leaks_secret e)"
  unfolding env_rules_def gather_indexed_Nil_iff gather_Nil_iff
  by (auto simp: rule_simps leaks_secret_def all_set_conv_all_nth)

lemma env_from_rules_Nil_iff:
  "env_from_rules name path es = Some [] \<longleftrightarrow>
     (\<forall>e \<in> set es. \<not> truthy (opt_get e (lit ''secretRef'')))"
  unfolding env_from_rules_def gather_indexed_Nil_iff
  by (auto simp: rule_simps all_set_conv_all_nth)

lemma split_image_pinned:
  assumes "split_image (JStr s) = Some p" and "s \<noteq> []"
  shows "is_lit (reference p) ''latest'' \<or> is_lit (reference p) ''latest (implicit)'' \<longleftrightarrow> \<not> pinned s"
proof (cases rule: split_image_cases [of s])
  case (digest r t)
  then have "t \<noteq> lit ''latest''" "t \<noteq> lit ''latest (implicit)''"
    by (auto simp: lit_Cons prefix_def)
  with digest assms show ?thesis by (auto simp: is_lit_def pinned_def)
next
  case (tag r t)
  have same: "t = t'" if "s = r' @ lit '':'' @ t'" "cu CHR '':'' \<notin> set t'" for r' t'
  proof -
    have "int (length r) = int (length r')"
      using last_index_of_split [OF tag(2), of r] last_index_of_split [OF that(2), of r']
        that(1) tag(1) by (simp add: lit_Cons)
    then show ?thesis using that(1) tag(1) by simp
  qed
  have "pinned s \<longleftrightarrow> t \<noteq> lit ''latest'' \<and> t \<noteq> lit ''latest (implicit)''"
    unfolding pinned_def using assms(2) tag(1-4) same by metis
  with tag(6) assms(1) show ?thesis by (auto simp: is_lit_def)
next
  case implicit
  have "cu CHR '':'' \<in> set (last (split_on (cu CHR ''/'') s))"
    if "s = r @ lit '':'' @ t" "cu CHR ''/'' \<notin> set t" for r t
  proof -
    have "last_index_of s (cu CHR ''/'') = last_index_of r (cu CHR ''/'')"
      using that last_index_of_append [of r "lit '':'' @ t" "cu CHR ''/''"] by (simp add: lit_Cons)
    moreover have "last_index_of s (cu CHR '':'') \<ge> int (length r)"
      using that(1) last_index_of_append [of r "lit '':'' @ t" "cu CHR '':''"]
        last_index_of_None [of "lit '':'' @ t" "cu CHR '':''"] by (simp add: lit_Cons)
    ultimately show ?thesis
      using last_index_of_bounds [of r "cu CHR ''/''"]
        colon_in_last_component [of "cu CHR '':''" "cu CHR ''/''" s] by simp
  qed
  with implicit assms show ?thesis by (auto simp: is_lit_def pinned_def)
qed

section \<open>A container for the witnesses\<close>

definition bare_container :: jsval where
  "bare_container = JObj 1 [(lit ''image'', jlit ''a:1''),
     (lit ''env'', JArr 2 [JObj 3 [(lit ''name'', jlit ''AWS_SESSION_TOKEN''), (lit ''value'', jlit ''k'')]])]"

definition bare_pod :: pod where
  "bare_pod = \<lparr>pod_spec = JObj 0 [], pod_path = lit ''.spec'', pod_labels = JObj 0 []\<rparr>"

definition bare_container_at :: "jstr \<Rightarrow> container" where
  "bare_container_at path = \<lparr>c_type = Container, c_name = jlit ''unnamed'', c_image = jlit ''a:1'',
     image_repository = jlit ''a'', image_reference = jlit ''1'', image_reference_type = Tag,
     ports = [], env_count = 1, env_from_count = 0, mounts = [], resources = JObj 0 [],
     startup = False, readiness = False, liveness = False, security_context = JObj 0 [],
     c_raw = bare_container, c_path = path\<rparr>"

lemma bare_summary:
  "summarize_container bare_container Container path = Some (bare_container_at path)"
  by (simp add: summarize_container_def bare_container_def split_image_def or_else_def js_array_def
      js_object_def index_of_def js_index_def slice_def lit_Cons bare_container_at_def)

lemma bare_rules:
  assumes "opt_get (pod_spec pod) (lit ''securityContext'') = JUndef"
  shows "container_rules pod (bare_container_at path) = Some
     [no_readiness_probe (lit ''unnamed'') path, no_liveness_probe (lit ''unnamed'') path,
      no_requests (lit ''unnamed'') path, no_limits (lit ''unnamed'') path,
      escalation_allowed (lit ''unnamed'') path, writable_root (lit ''unnamed'') path,
      capabilities_kept (lit ''unnamed'') path, root_possible (lit ''unnamed'') path,
      seccomp_missing Note (lit ''unnamed'') path,
      literal_credential (lit ''unnamed'') path 0 (lit ''AWS_SESSION_TOKEN'')]"
  using assms
  by (simp add: container_rules_def container_group_def gather_simps when_named_def
      env_rules_def env_from_rules_def gather_indexed_alt bare_container_def bare_container_at_def
      is_lit_def no_keys_def js_array_def js_object_def has_seccomp_profile_def
      cloud_credential_env_names_def text_of_def Let_def)

section \<open>Properties\<close>

text \<open>C9: the exact inputs on which the rules throw, and so end the whole analysis: a container with
  a name that no string can be made of and something to report about it, a null volume, or a null
  rule in a role. No other manifest, however malformed, makes them fail.\<close>

theorem findings_throws_iff:
  "findings resource containers pod = None \<longleftrightarrow>
     (\<exists>c \<in> set containers. to_str (c_name c) = None
        \<and> container_rules pod (c\<lparr>c_name := JStr []\<rparr>) \<noteq> Some [])
     \<or> (\<exists>v \<in> set (js_array (opt_get (pod_spec pod) (lit ''volumes''))). nullish v)
     \<or> among (kind_of resource) [''Role'', ''ClusterRole'']
        \<and> (\<exists>r \<in> set (js_array (opt_get resource (lit ''rules''))). nullish r)"
proof -
  have c: "container_rules pod c = None \<longleftrightarrow> to_str (c_name c) = None
      \<and> container_rules pod (c\<lparr>c_name := JStr []\<rparr>) \<noteq> Some []" for c
    using lazyD [OF lazy_container_group [of pod c]] lazy_total [OF lazy_container_group [of pod c]]
    by (cases "to_str (c_name c)") (auto simp: container_rules_def container_group_def)
  show ?thesis unfolding findings_None volume_rules_None role_rules_None by (simp only: c)
qed

text \<open>C10: every finding of every manifest is coherent: errors cite no standard, warnings and notes
  that cite any name the first as their standard, and none claims evidence for a standard that a
  manifest cannot give evidence for (K05, K07, K10).\<close>

theorem findings_are_coherent:
  assumes "findings resource containers pod = Some fs" and "f \<in> set fs"
  shows "coherent f"
  using coherent_findings [of resource containers pod] assms by (auto simp: every_def)

lemma findings_are_coherent_witness:
  "coherent missing_kind"
proof (rule findings_are_coherent)
  let ?pod = "\<lparr>pod_spec = JObj 0 [], pod_path = lit ''.spec'', pod_labels = JObj 0 []\<rparr>"
  show "findings (JObj 1 [(lit ''apiVersion'', jlit ''v1'')]) [] ?pod = Some [missing_kind, missing_name]"
    by (simp add: findings_def gather_simps identity_rules_def host_rules_def volume_rules_def
        gather_indexed_alt token_rule_def exposure_rules_def role_rules_def binding_rule_def
        selector_rules_def when_found_def kind_of_def is_lit_def js_array_def)
qed simp

text \<open>A finding about a container points into that container: its path extends the path of the
  container, so "Go to" never lands in a sibling.\<close>

theorem container_findings_point_inside:
  assumes "container_rules pod c = Some fs" and "f \<in> set fs"
  shows "prefix (c_path c) (f_path f)"
  using inside_container_group [of c pod] assms by (auto simp: every_def container_rules_def inside_def)

lemma container_findings_point_inside_witness:
  "prefix (lit ''.c'') (f_path (writable_root (lit ''unnamed'') (lit ''.c'')))"
  using container_findings_point_inside [OF bare_rules [of bare_pod "lit ''.c''"],
      of "writable_root (lit ''unnamed'') (lit ''.c'')"]
  by (simp add: bare_pod_def bare_container_at_def)

text \<open>C11: the review never reads a literal environment value: replacing every such value of a
  container by any other changes no finding about the container, and no other rule reads the environment,
  so no credential can reach a finding's text.\<close>

theorem review_ignores_secret_values:
  assumes "\<not> nullish s"
  shows "Option.bind (summarize_container (redact s v) type path) (container_rules pod) =
    Option.bind (summarize_container v type path) (container_rules pod)"
proof (cases "nullish v")
  case True
  then show ?thesis by (cases v) auto
next
  case False
  have "summarize_container (redact s v) type path =
      map_option (\<lambda>c. c\<lparr>c_raw := redact s v\<rparr>) (summarize_container v type path)"
    using False
    by (auto simp: summarize_container_def get_Some_opt_get redact_get redact_list_array
        map_option_case split: option.split Option.bind_splits)
  moreover have "container_rules pod (c\<lparr>c_raw := redact s v\<rparr>) = container_rules pod c" if "c_raw c = v" for c
    using that by (simp add: container_rules_def container_group_def redact_get redact_list_array
        env_rules_redact [OF assms])
  ultimately show ?thesis
    by (cases "summarize_container v type path") (auto dest: summarize_container_SomeD)
qed

lemma review_ignores_secret_values_witness:
  "Option.bind (summarize_container (redact (jlit ''hidden'') bare_container) Container (lit ''.c''))
     (container_rules bare_pod) =
   Option.bind (summarize_container bare_container Container (lit ''.c'')) (container_rules bare_pod)"
  by (rule review_ignores_secret_values) simp

text \<open>C12: a main container whose image is text draws no finding exactly when it meets the baseline:
  the review misses no departure from it, and reports nothing about a container that meets it.\<close>

theorem clean_iff_hardened:
  assumes "summarize_container v Container path = Some c"
    and "opt_get v (lit ''image'') = JStr s"
  shows "container_rules pod c = Some [] \<longleftrightarrow> hardened (opt_get (pod_spec pod) (lit ''securityContext'')) v"
proof -
  note c = summarize_container_SomeD [OF assms(1)]
  have "\<not> truthy (c_image c) \<or> is_lit (image_reference c) ''latest''
      \<or> is_lit (image_reference c) ''latest (implicit)'' \<longleftrightarrow> \<not> pinned s"
  proof (cases "s = []")
    case True
    then obtain img where "split_image (JStr []) = Some img" "image_reference c = reference img"
      using summarize_container_image [OF assms(1)] assms(2) by (auto simp: or_else_def)
    then show ?thesis
      using True by (cases rule: split_image_cases [of "[]"]) (auto simp: pinned_def is_lit_def)
  next
    case False
    then obtain img where "split_image (JStr s) = Some img" "image_reference c = reference img"
      using summarize_container_image [OF assms(1)] assms(2) by (auto simp: or_else_def)
    with False show ?thesis
      using split_image_pinned [of s img] by (simp add: c(6) assms(2) or_else_def)
  qed
  then show ?thesis
    unfolding container_rules_def container_group_def gather_Nil_iff Let_def
    by (simp add: rule_simps c assms(2) hardened_def sandboxed_def Let_def no_keys_def text_of_def
        env_rules_Nil_iff env_from_rules_Nil_iff)
qed

lemma clean_iff_hardened_witness:
  "\<not> hardened JUndef bare_container"
proof -
  have "opt_get bare_container (lit ''image'') = jlit ''a:1''" by (simp add: bare_container_def)
  from clean_iff_hardened [OF bare_summary this, of bare_pod] bare_rules [of bare_pod]
  show ?thesis by (simp add: bare_pod_def)
qed

end
