(* ===== verification/SchemaValidation.thy ===== *)
theory SchemaValidation
  imports Finding
begin

text \<open>
  Schema validation (\<open>schema-validation.js\<close>): which bundled validator a manifest selects, the status
  of its result, and the translation of the validator's errors into paths and sentences.

  The validators are generated code (\<open>schema/kubernetes-v1.36.4-validators.js\<close>, compiled by Ajv from
  the schema bundle), so the table of validators is the parameter \<open>validators\<close>: it maps a key to the
  validating function, which returns a verdict and leaves its \<open>errors\<close>. \<open>toUpperCase\<close> depends on
  the Unicode tables and is the parameter \<open>upper\<close>.
\<close>

section \<open>Model\<close>

definition kubernetes_schema_version :: jstr where
  "kubernetes_schema_version = lit ''v1.36.4''"

text \<open>The API groups of the bundled Kubernetes release (\<open>builtInGroups\<close> of the bundle).\<close>

definition built_in_groups :: "string list" where
  "built_in_groups =
     ['''', ''admission.k8s.io'', ''admissionregistration.k8s.io'', ''apiextensions.k8s.io'',
      ''apiregistration.k8s.io'', ''apps'', ''authentication.k8s.io'', ''authorization.k8s.io'',
      ''autoscaling'', ''batch'', ''certificates.k8s.io'', ''coordination.k8s.io'',
      ''discovery.k8s.io'', ''events.k8s.io'', ''extensions'', ''flowcontrol.apiserver.k8s.io'',
      ''imagepolicy.k8s.io'', ''internal.apiserver.k8s.io'', ''networking.k8s.io'',
      ''node.k8s.io'', ''policy'', ''rbac.authorization.k8s.io'', ''resource.k8s.io'',
      ''scheduling.k8s.io'', ''storage.k8s.io'', ''storagemigration.k8s.io'']"

text \<open>An error as Ajv documents it; \<open>params\<close> depends on the keyword.\<close>

record ajv_error =
  instance_path :: jstr
  keyword :: jstr
  params :: jsval
  message :: "jstr option"

type_synonym validator = "jsval \<Rightarrow> bool \<times> ajv_error list option"

definition resource_key :: "jstr \<Rightarrow> jstr \<Rightarrow> jstr" where
  "resource_key api_version kind = api_version @ lit ''|'' @ kind"

definition api_group :: "jsval \<Rightarrow> jstr option" where
  "api_group api_version =
     (case api_version of
        JStr s \<Rightarrow>
          if s = [] then None
          else let slash = index_of s (lit ''/'')
               in Some (if slash < 0 then [] else slice s 0 (nat slash))
      | _ \<Rightarrow> None)"

definition decode_pointer_segment :: "jstr \<Rightarrow> jstr" where
  "decode_pointer_segment segment =
     replace_all (lit ''~0'') (lit ''~'') (replace_all (lit ''~1'') (lit ''/'') segment)"

text \<open>\<open>/^\d+$/\<close>.\<close>

definition all_digits :: "jstr \<Rightarrow> bool" where
  "all_digits s \<longleftrightarrow> s \<noteq> [] \<and> list_all is_digit s"

definition render_segment :: "jstr \<Rightarrow> jstr" where
  "render_segment segment =
     (if all_digits segment then lit ''['' @ segment @ lit '']'' else lit ''.'' @ segment)"

definition pointer_path :: "jstr \<Rightarrow> jstr" where
  "pointer_path pointer =
     (if pointer = [] then []
      else concat (map (render_segment \<circ> decode_pointer_segment)
        (tl (split_on (cu CHR ''/'') pointer))))"

text \<open>A parameter of an error, in a template literal.\<close>

definition param_text :: "ajv_error \<Rightarrow> string \<Rightarrow> jstr option" where
  "param_text e name = Option.bind (get (params e) (lit name)) to_str"

definition error_path :: "ajv_error \<Rightarrow> jstr option" where
  "error_path e =
     (let base = pointer_path (instance_path e) in
      if keyword e = lit ''required'' then
        map_option (\<lambda>t. base @ lit ''.'' @ t) (param_text e ''missingProperty'')
      else if keyword e = lit ''additionalProperties'' then
        map_option (\<lambda>t. base @ lit ''.'' @ t) (param_text e ''additionalProperty'')
      else Some (if base = [] then lit ''.'' else base))"

text \<open>\<open>allowedValues.join(", ")\<close>, which throws on anything but an array.\<close>

definition join_values :: "jsval \<Rightarrow> jstr option" where
  "join_values v =
     (case v of
        JArr _ vs \<Rightarrow> map_option (join (lit '', ''))
          (traverse (\<lambda>w. if nullish w then Some [] else to_str w) vs)
      | _ \<Rightarrow> None)"

definition describe_error :: "(jstr \<Rightarrow> jstr) \<Rightarrow> ajv_error \<Rightarrow> jstr option" where
  "describe_error upper e =
     (if keyword e = lit ''required'' then
        map_option (\<lambda>t. lit ''Required field '' @ t @ lit '' is missing.'')
          (param_text e ''missingProperty'')
      else if keyword e = lit ''additionalProperties'' then
        map_option (\<lambda>t. lit ''Field '' @ t @ lit '' is not defined by this Kubernetes schema.'')
          (param_text e ''additionalProperty'')
      else if keyword e = lit ''type'' then
        map_option (\<lambda>t. lit ''Expected '' @ t @ lit '', but received a different value type.'')
          (param_text e ''type'')
      else if keyword e = lit ''enum'' then
        map_option (\<lambda>t. lit ''Value must be one of: '' @ t @ lit ''.'')
          (Option.bind (get (params e) (lit ''allowedValues'')) join_values)
      else Some (case message e of
          Some m \<Rightarrow> if m = [] then lit ''The value does not match the schema.''
            else upper (take 1 m) @ drop 1 m @ lit ''.''
        | None \<Rightarrow> lit ''The value does not match the schema.''))"

datatype schema_status = Schema_valid | Schema_invalid | Unsupported | Schema_unavailable | Not_evaluated

fun status_text :: "schema_status \<Rightarrow> jstr" where
  "status_text Schema_valid = lit ''valid''"
| "status_text Schema_invalid = lit ''invalid''"
| "status_text Unsupported = lit ''unsupported''"
| "status_text Schema_unavailable = lit ''schema-unavailable''"
| "status_text Not_evaluated = lit ''not-evaluated''"

record schema_error =
  e_level :: level
  e_title :: jstr
  e_path :: jstr
  e_explanation :: jstr
  e_keyword :: jstr
  e_line :: "nat option"
  e_column :: "nat option"

record schema_result =
  schema_version :: jstr
  schema_api_version :: jsval
  schema_kind :: jsval
  schema_errors :: "schema_error list"
  schema_status :: schema_status
  schema_message :: jstr

definition schema_mismatch :: "(jstr \<Rightarrow> jstr) \<Rightarrow> ajv_error \<Rightarrow> schema_error option" where
  "schema_mismatch upper e = do {
     path \<leftarrow> error_path e;
     explanation \<leftarrow> describe_error upper e;
     Some \<lparr>e_level = Error, e_title = lit ''Schema mismatch'', e_path = path,
       e_explanation = explanation, e_keyword = keyword e, e_line = None, e_column = None\<rparr>
   }"

definition validate_kubernetes_resource ::
  "(jstr \<Rightarrow> jstr) \<Rightarrow> (jstr \<Rightarrow> validator option) \<Rightarrow> jsval \<Rightarrow> schema_result option" where
  "validate_kubernetes_resource upper validators resource =
     (let api_version = opt_get resource (lit ''apiVersion'');
          kind = opt_get resource (lit ''kind'');
          base = (\<lambda>status msg errors. \<lparr>schema_version = kubernetes_schema_version,
            schema_api_version = api_version, schema_kind = kind, schema_errors = errors,
            schema_status = status, schema_message = msg\<rparr>)
      in case (api_version, kind) of
        (JStr (v # vs), JStr (k # ks)) \<Rightarrow>
          (case validators (resource_key (v # vs) (k # ks)) of
             None \<Rightarrow>
               Some (case api_group api_version of
                   Some (g # gs) \<Rightarrow>
                     if (g # gs) \<notin> lit ` set built_in_groups
                     then base Schema_unavailable
                       (lit ''CRD schema unavailable for '' @ (v # vs) @ lit '' '' @ (k # ks) @
                        lit ''; no custom-resource schemas are bundled.'') []
                     else base Unsupported
                       (lit ''No bundled '' @ kubernetes_schema_version @ lit '' schema supports '' @
                        (v # vs) @ lit '' '' @ (k # ks) @ lit ''.'') []
                 | _ \<Rightarrow> base Unsupported
                       (lit ''No bundled '' @ kubernetes_schema_version @ lit '' schema supports '' @
                        (v # vs) @ lit '' '' @ (k # ks) @ lit ''.'') [])
           | Some validate \<Rightarrow>
               (case validate resource of
                  (True, _) \<Rightarrow> Some (base Schema_valid
                    (lit ''Matches the bundled Kubernetes '' @ kubernetes_schema_version @ lit '' schema.'') [])
                | (False, errors) \<Rightarrow>
                    map_option (base Schema_invalid
                      (lit ''Does not match the bundled Kubernetes '' @ kubernetes_schema_version @
                       lit '' schema.''))
                      (traverse (schema_mismatch upper) (case errors of None \<Rightarrow> [] | Some es \<Rightarrow> es))))
      | _ \<Rightarrow> Some (base Not_evaluated
          (lit ''Schema validation was not run because apiVersion and kind are both required to select a schema.'')
          []))"

section \<open>Pointers\<close>

text \<open>
  The encoding of a pointer segment (RFC 6901), which Ajv applies to the property names of
  \<open>instancePath\<close>: the tilde becomes \<open>~0\<close>, the slash \<open>~1\<close>.
\<close>

definition encode_unit :: "code_unit \<Rightarrow> jstr" where
  "encode_unit u = (if u = cu CHR ''~'' then lit ''~0'' else if u = cu CHR ''/'' then lit ''~1'' else [u])"

definition encode_segment :: "jstr \<Rightarrow> jstr" where
  "encode_segment s = concat (map encode_unit s)"

definition pointer_of :: "jstr list \<Rightarrow> jstr" where
  "pointer_of segments = concat (map (\<lambda>s. cu CHR ''/'' # encode_segment s) segments)"

lemma decode_slashes:
  "replace_all (lit ''~1'') (lit ''/'') (encode_segment s) =
     concat (map (\<lambda>u. if u = cu CHR ''~'' then lit ''~0'' else [u]) s)"
  by (induction s) (auto simp: encode_segment_def encode_unit_def lit_Cons)

lemma decode_tildes:
  "replace_all (lit ''~0'') (lit ''~'') (concat (map (\<lambda>u. if u = cu CHR ''~'' then lit ''~0'' else [u]) s)) = s"
  by (induction s) (auto simp: lit_Cons)

lemma decode_encode [simp]: "decode_pointer_segment (encode_segment s) = s"
  by (simp add: decode_pointer_segment_def decode_slashes decode_tildes)

lemma encode_no_slash: "cu CHR ''/'' \<notin> set (encode_segment s)"
  by (auto simp: encode_segment_def encode_unit_def lit_Cons split: if_splits)

lemma split_pointer:
  "split_on (cu CHR ''/'') (pointer_of segments) = [] # map encode_segment segments"
proof -
  have "split_on c (concat (map (\<lambda>w. c # w) ws)) = [] # ws" if "\<forall>w \<in> set ws. c \<notin> set w"
    for c :: code_unit and ws
    using that
  proof (induction ws)
    case (Cons w ws)
    have "split_on c (w @ concat (map (\<lambda>w. c # w) ws)) = w # ws"
    proof (cases ws)
      case (Cons w' ws')
      then show ?thesis
        using Cons.IH Cons.prems split_on_append_sep [of c w] by simp
    qed (use Cons.prems in \<open>simp add: split_on_id\<close>)
    then show ?case by simp
  qed simp
  from this [of "map encode_segment segments" "cu CHR ''/''"] show ?thesis
    by (simp add: pointer_of_def comp_def encode_no_slash)
qed

lemma pointer_path_pointer_of:
  "pointer_path (pointer_of segments) = concat (map render_segment segments)"
proof (cases segments)
  case Nil
  then show ?thesis by (simp add: pointer_path_def pointer_of_def)
next
  case (Cons s ss)
  then have "pointer_of segments \<noteq> []" by (simp add: pointer_of_def)
  then show ?thesis by (simp add: pointer_path_def split_pointer comp_def)
qed

section \<open>Properties\<close>

text \<open>The path shown for a schema error is the one the validator meant: for every list of
  property names and indices, whatever slashes and tildes they contain, the pointer that encodes it
  is rendered segment by segment, indices in brackets and names after a dot.\<close>

theorem pointer_path_reads_pointer:
  "pointer_path (pointer_of segments) = concat (map render_segment segments)"
  by (rule pointer_path_pointer_of)

text \<open>
  What Ajv documents of \<open>params\<close>: the missing or additional property and the expected type as text,
  the allowed values of an enumeration as a list of values that have a text.
\<close>

definition documented :: "ajv_error \<Rightarrow> bool" where
  "documented e \<longleftrightarrow>
     (keyword e = lit ''required'' \<longrightarrow> is_string (opt_get (params e) (lit ''missingProperty''))) \<and>
     (keyword e = lit ''additionalProperties'' \<longrightarrow> is_string (opt_get (params e) (lit ''additionalProperty''))) \<and>
     (keyword e = lit ''type'' \<longrightarrow> is_string (opt_get (params e) (lit ''type''))) \<and>
     (keyword e = lit ''enum'' \<longrightarrow>
        (\<exists>i vs. opt_get (params e) (lit ''allowedValues'') = JArr i vs \<and> (\<forall>v \<in> set vs. to_str v \<noteq> None)))"

lemma string_param: "is_string (opt_get v k) \<Longrightarrow> \<exists>t. Option.bind (get v k) to_str = Some t"
  by (cases v; cases "opt_get v k") (auto simp: is_string_def)

lemma documented_mismatch: "documented e \<Longrightarrow> schema_mismatch upper e \<noteq> None"
proof -
  assume doc: "documented e"
  have "Option.bind (get (params e) (lit ''allowedValues'')) join_values \<noteq> None"
    if enum: "keyword e = lit ''enum''"
  proof -
    obtain i vs where vs: "opt_get (params e) (lit ''allowedValues'') = JArr i vs"
      "\<forall>v \<in> set vs. to_str v \<noteq> None" using doc enum by (auto simp: documented_def)
    then have "get (params e) (lit ''allowedValues'') = Some (JArr i vs)" by (cases "params e") auto
    moreover have "traverse (\<lambda>w. if nullish w then Some [] else to_str w) vs \<noteq> None"
      unfolding traverse_None_iff using vs(2) by auto
    ultimately show ?thesis by (simp add: join_values_def)
  qed
  moreover have "param_text e ''missingProperty'' \<noteq> None" if "keyword e = lit ''required''"
    using doc string_param that by (auto simp: documented_def param_text_def)
  moreover have "param_text e ''additionalProperty'' \<noteq> None"
    if "keyword e = lit ''additionalProperties''"
    using doc string_param that by (auto simp: documented_def param_text_def)
  moreover have "param_text e ''type'' \<noteq> None" if "keyword e = lit ''type''"
    using doc string_param that by (auto simp: documented_def param_text_def)
  ultimately have "error_path e \<noteq> None" "describe_error upper e \<noteq> None"
    unfolding error_path_def describe_error_def Let_def by simp_all
  then show ?thesis unfolding schema_mismatch_def by auto
qed

text \<open>The two ways a verdict is reached.\<close>

lemma unnamed_verdict:
  assumes "\<not> (is_string (opt_get resource (lit ''apiVersion'')) \<and> is_string (opt_get resource (lit ''kind''))
    \<and> truthy (opt_get resource (lit ''apiVersion'')) \<and> truthy (opt_get resource (lit ''kind'')))"
  shows "\<exists>r. validate_kubernetes_resource upper validators resource = Some r \<and>
    schema_status r = Not_evaluated \<and> schema_errors r = []"
  using assms
  by (auto simp: validate_kubernetes_resource_def Let_def is_string_def split: jsval.splits list.splits)

lemma named_verdict:
  assumes "opt_get resource (lit ''apiVersion'') = JStr av" "opt_get resource (lit ''kind'') = JStr k"
    and "av \<noteq> []" "k \<noteq> []"
  shows "validate_kubernetes_resource upper validators resource =
    (let base = (\<lambda>status msg errors. \<lparr>schema_version = kubernetes_schema_version,
       schema_api_version = JStr av, schema_kind = JStr k, schema_errors = errors,
       schema_status = status, schema_message = msg\<rparr>)
     in case validators (resource_key av k) of
       None \<Rightarrow>
         Some (if the (api_group (JStr av)) \<notin> insert [] (lit ` set built_in_groups)
           then base Schema_unavailable
             (lit ''CRD schema unavailable for '' @ av @ lit '' '' @ k @
              lit ''; no custom-resource schemas are bundled.'') []
           else base Unsupported
             (lit ''No bundled '' @ kubernetes_schema_version @ lit '' schema supports '' @
              av @ lit '' '' @ k @ lit ''.'') [])
     | Some validate \<Rightarrow>
         if fst (validate resource)
         then Some (base Schema_valid
           (lit ''Matches the bundled Kubernetes '' @ kubernetes_schema_version @ lit '' schema.'') [])
         else map_option (base Schema_invalid
           (lit ''Does not match the bundled Kubernetes '' @ kubernetes_schema_version @ lit '' schema.''))
           (traverse (schema_mismatch upper)
             (case snd (validate resource) of None \<Rightarrow> [] | Some es \<Rightarrow> es)))"
proof -
  obtain v vs w ws where "av = v # vs" "k = w # ws" using assms(3,4) by (meson neq_Nil_conv)
  then show ?thesis
    unfolding validate_kubernetes_resource_def Let_def assms(1,2)
    by (auto simp: api_group_def Let_def split: option.splits prod.splits bool.splits list.splits)
qed

text \<open>C13: with validators that report documented errors, validation always returns, and its status
  says exactly what happened: not evaluated without both identity texts, valid only if the validator
  of that very identity accepted the resource, invalid only if it refused it, unavailable only for a
  group outside Kubernetes; and no error is listed beside any status but invalid.\<close>

theorem schema_verdict_exact:
  assumes "\<And>key v es e. validators key = Some v \<Longrightarrow> v resource = (False, Some es) \<Longrightarrow> e \<in> set es \<Longrightarrow>
    documented e"
  shows "\<exists>r. validate_kubernetes_resource upper validators resource = Some r \<and>
    (let av = opt_get resource (lit ''apiVersion''); k = opt_get resource (lit ''kind'');
         named = (is_string av \<and> is_string k \<and> truthy av \<and> truthy k);
         validator = validators (resource_key (text_of av) (text_of k))
     in (schema_status r = Not_evaluated \<longleftrightarrow> \<not> named) \<and>
        (schema_status r = Schema_valid \<longleftrightarrow> named \<and> (\<exists>v. validator = Some v \<and> fst (v resource))) \<and>
        (schema_status r = Schema_invalid \<longleftrightarrow> named \<and> (\<exists>v. validator = Some v \<and> \<not> fst (v resource))) \<and>
        (schema_status r = Schema_unavailable \<longleftrightarrow> named \<and> validator = None \<and>
           (\<exists>g. api_group av = Some g \<and> g \<notin> lit ` set built_in_groups)) \<and>
        (schema_errors r \<noteq> [] \<longrightarrow> schema_status r = Schema_invalid))"
proof (cases "\<exists>av k. opt_get resource (lit ''apiVersion'') = JStr av \<and>
    opt_get resource (lit ''kind'') = JStr k \<and> av \<noteq> [] \<and> k \<noteq> []")
  case False
  then have "\<not> (is_string (opt_get resource (lit ''apiVersion'')) \<and> is_string (opt_get resource (lit ''kind''))
      \<and> truthy (opt_get resource (lit ''apiVersion'')) \<and> truthy (opt_get resource (lit ''kind'')))"
    by (auto simp: is_string_def split: jsval.splits)
  with unnamed_verdict [OF this, of upper validators] show ?thesis by (auto simp: Let_def)
next
  case True
  then obtain av k where id: "opt_get resource (lit ''apiVersion'') = JStr av"
    "opt_get resource (lit ''kind'') = JStr k" "av \<noteq> []" "k \<noteq> []" by blast
  note verdict = named_verdict [OF id, of upper validators]
  have group: "api_group (JStr av) = Some (the (api_group (JStr av)))" "[] \<in> lit ` set built_in_groups"
    using id(3) by (simp_all add: api_group_def Let_def built_in_groups_def)
  show ?thesis
  proof (cases "validators (resource_key av k)")
    case None
    with group show ?thesis
      by (simp add: verdict id Let_def is_string_def text_of_def insert_absorb) (metis option.sel)
  next
    case (Some v)
    have "\<exists>es. traverse (schema_mismatch upper) (case snd (v resource) of None \<Rightarrow> [] | Some es \<Rightarrow> es) = Some es"
      if "\<not> fst (v resource)"
    proof -
      have "schema_mismatch upper e \<noteq> None"
        if "e \<in> set (case snd (v resource) of None \<Rightarrow> [] | Some es \<Rightarrow> es)" for e
        using that assms [OF Some] \<open>\<not> fst (v resource)\<close> documented_mismatch
        by (cases "v resource") (auto split: option.splits)
      then show ?thesis by (metis not_None_eq traverse_None_iff)
    qed
    with Some show ?thesis by (auto simp: verdict id Let_def is_string_def text_of_def)
  qed
qed

lemma schema_verdict_exact_witness:
  "\<exists>r. validate_kubernetes_resource id (\<lambda>key. if key = lit ''v1|Pod'' then Some (\<lambda>_. (False, Some
       [\<lparr>instance_path = [], keyword = lit ''required'',
         params = JObj 1 [(lit ''missingProperty'', jlit ''spec'')], message = None\<rparr>])) else None)
     (JObj 2 [(lit ''apiVersion'', jlit ''v1''), (lit ''kind'', jlit ''Pod'')]) = Some r \<and>
     schema_status r = Schema_invalid"
proof -
  define validators :: "jstr \<Rightarrow> validator option" where
    "validators = (\<lambda>key. if key = lit ''v1|Pod'' then Some (\<lambda>_. (False, Some
       [\<lparr>instance_path = [], keyword = lit ''required'',
         params = JObj 1 [(lit ''missingProperty'', jlit ''spec'')], message = None\<rparr>])) else None)"
  let ?resource = "JObj 2 [(lit ''apiVersion'', jlit ''v1''), (lit ''kind'', jlit ''Pod'')]"
  have doc: "documented e" if "validators key = Some v" "v ?resource = (False, Some es)" "e \<in> set es"
    for key v es e
    using that by (auto simp: validators_def documented_def is_string_def split: if_splits)
  note verdict = schema_verdict_exact [where upper = id and validators = validators and resource = ?resource]
  obtain r where r: "validate_kubernetes_resource id validators ?resource = Some r"
    "schema_status r = Schema_invalid \<longleftrightarrow>
       (\<exists>v. validators (resource_key (lit ''v1'') (lit ''Pod'')) = Some v \<and> \<not> fst (v ?resource))"
    using verdict doc by (fastforce simp: Let_def is_string_def text_of_def)
  moreover have "resource_key (lit ''v1'') (lit ''Pod'') = lit ''v1|Pod''"
    by (simp add: resource_key_def lit_append [symmetric])
  ultimately show ?thesis by (auto simp: validators_def [symmetric]) (auto simp: validators_def)
qed

end
