(* ===== verification/Summary.thy ===== *)
theory Summary
  imports Rules SchemaValidation
begin

text \<open>
  The documents of an analysis: the summary of a Kubernetes resource (\<open>summarizeResource\<close> of
  \<open>analyze.js\<close>), of any other document (\<open>summarizeGeneralDocument\<close>), and the findings that compare
  the documents of one file (\<open>addBundleFindings\<close>): duplicate identities, Service selectors and named
  target ports.
\<close>

section \<open>Model\<close>

record document =
  index :: nat
  api_version :: jsval
  kind :: jsval
  doc_name :: jsval
  namespace :: jsval
  doc_labels :: "jstr list"
  annotations :: "jstr list"
  replicas :: jsval
  doc_selector :: "jstr list"
  service_type :: jsval
  service_ports :: "jsval list"
  service_account :: jsval
  containers :: "container list"
  volumes :: "(jsval \<times> jstr) list"
  doc_findings :: "finding list"
  workload_labels :: jsval
  raw :: jsval
  schema :: "schema_result option"

definition list_path :: "pod \<Rightarrow> string \<Rightarrow> nat \<Rightarrow> jstr" where
  "list_path pod name i = pod_path pod @ lit ''.'' @ lit name @ lit ''['' @ nat_text i @ lit '']''"

definition pod_containers :: "pod \<Rightarrow> container list option" where
  "pod_containers pod = do {
     init \<leftarrow> traverse_indexed
       (\<lambda>i c. summarize_container c Init_container (list_path pod ''initContainers'' i))
       (js_array (opt_get (pod_spec pod) (lit ''initContainers'')));
     main \<leftarrow> traverse_indexed
       (\<lambda>i c. summarize_container c Container (list_path pod ''containers'' i))
       (js_array (opt_get (pod_spec pod) (lit ''containers'')));
     Some (init @ main)
   }"

text \<open>The volume type: the first key that is not \<open>name\<close>, unless it is empty.\<close>

definition volume_type :: "jsval \<Rightarrow> jstr" where
  "volume_type volume =
     (case find (\<lambda>key. key \<noteq> lit ''name'') (own_keys volume) of
        Some (u # us) \<Rightarrow> u # us | _ \<Rightarrow> lit ''unknown'')"

definition summarize_volume :: "jsval \<Rightarrow> (jsval \<times> jstr) option" where
  "summarize_volume volume = map_option (\<lambda>name. (name, volume_type volume)) (get volume (lit ''name''))"

definition summarize_resource :: "jsval \<Rightarrow> nat \<Rightarrow> document option" where
  "summarize_resource resource number = do {
     given_spec \<leftarrow> get resource (lit ''spec'');
     let spec = js_object given_spec;
     let metadata = js_object (opt_get resource (lit ''metadata''));
     let pod = pod_context resource;
     let service = is_lit (kind_of resource) ''Service'';
     container_list \<leftarrow> pod_containers pod;
     label_list \<leftarrow> labels (opt_get metadata (lit ''labels''));
     annotation_list \<leftarrow> labels (opt_get metadata (lit ''annotations''));
     selector_list \<leftarrow> labels (or_else (opt_path spec [''selector'', ''matchLabels''])
       (opt_get spec (lit ''selector'')));
     volume_list \<leftarrow> traverse summarize_volume (js_array (opt_get (pod_spec pod) (lit ''volumes'')));
     finding_list \<leftarrow> findings resource container_list pod;
     Some \<lparr>index = number,
       api_version = or_else (opt_get resource (lit ''apiVersion'')) (jlit ''not set''),
       kind = or_else (kind_of resource) (jlit ''Unknown''),
       doc_name = or_else (or_else (opt_get metadata (lit ''name''))
         (opt_get metadata (lit ''generateName''))) (jlit ''unnamed''),
       namespace = or_else (opt_get metadata (lit ''namespace''))
         (if is_lit (kind_of resource) ''Namespace'' then jlit ''cluster-scoped''
          else jlit ''default / unspecified''),
       doc_labels = label_list, annotations = annotation_list,
       replicas = (if is_integer (opt_get spec (lit ''replicas''))
         then opt_get spec (lit ''replicas'') else JNull),
       doc_selector = selector_list,
       service_type = (if service then or_else (opt_get spec (lit ''type'')) (jlit ''ClusterIP'') else JNull),
       service_ports = (if service then js_array (opt_get spec (lit ''ports'')) else []),
       service_account = or_else (opt_get (pod_spec pod) (lit ''serviceAccountName'')) (jlit ''default''),
       containers = container_list, volumes = volume_list, doc_findings = finding_list,
       workload_labels = pod_labels pod, raw = resource, schema = None\<rparr>
   }"

subsection \<open>Any other document\<close>

datatype root_type = Sequence | Mapping | Scalar

fun root_type_text :: "root_type \<Rightarrow> jstr" where
  "root_type_text Sequence = lit ''sequence''"
| "root_type_text Mapping = lit ''mapping''"
| "root_type_text Scalar = lit ''scalar''"

record general_document =
  gen_index :: nat
  root_type :: root_type
  entry_count :: "nat option"
  keys :: "jstr list"
  scalar_value :: jsval
  gen_raw :: jsval

definition summarize_general_document :: "jsval \<Rightarrow> nat \<Rightarrow> general_document" where
  "summarize_general_document value number =
     (let t = (case value of JArr _ _ \<Rightarrow> Sequence | JObj _ _ \<Rightarrow> Mapping | _ \<Rightarrow> Scalar) in
      \<lparr>gen_index = number, root_type = t,
        entry_count = (if t = Mapping then Some (length (own_keys value))
          else if t = Sequence then Some (length (js_array value)) else None),
        keys = (if t = Mapping then own_keys value else []),
        scalar_value = (if t = Scalar then value else JUndef),
        gen_raw = value\<rparr>)"

subsection \<open>Findings across documents\<close>

definition given_name :: "document \<Rightarrow> jsval" where
  "given_name d = opt_path (raw d) [''metadata'', ''name'']"

definition same_identity :: "document \<Rightarrow> document \<Rightarrow> bool" where
  "same_identity c d \<longleftrightarrow> strict_eq (api_version c) (api_version d) \<and> strict_eq (kind c) (kind d)
     \<and> strict_eq (namespace c) (namespace d) \<and> strict_eq (doc_name c) (doc_name d)"

definition duplicate_of :: "document list \<Rightarrow> document \<Rightarrow> document option" where
  "duplicate_of earlier d =
     (if truthy (given_name d)
      then find (\<lambda>c. truthy (given_name c) \<and> same_identity c d) earlier else None)"

definition duplicate_identity :: "document \<Rightarrow> finding" where
  "duplicate_identity c = make_finding Error (lit ''Duplicate resource identity'') (lit ''.metadata.name'')
     (lit ''Document '' @ nat_text (index c) @
      lit '' already defines the same apiVersion, kind, namespace, and name.'')
     (lit ''Remove one definition or give the resources distinct identities.'') None"

definition selector_without_workload :: finding where
  "selector_without_workload = make_finding Warning
     (lit ''Service selector matches no workload in this file'') (lit ''.spec.selector'')
     (lit ''None of the included workload Pod labels satisfy this Service selector.'')
     (lit ''Align the Service selector with the intended workload's Pod-template labels.'') None"

definition unknown_target_port :: "nat \<Rightarrow> jstr \<Rightarrow> finding" where
  "unknown_target_port i target = make_finding Warning
     (lit ''Named targetPort is not exposed by the selected workload'')
     (lit ''.spec.ports['' @ nat_text i @ lit ''].targetPort'')
     (lit ''No selected container declares a port named '' @ target @ lit ''.'')
     (lit ''Use an existing container port name or a numeric targetPort.'') None"

definition port_names :: "document list \<Rightarrow> jsval list" where
  "port_names ds = concat (map (\<lambda>w. concat (map (\<lambda>c.
     filter truthy (map port_name (ports c))) (containers w))) ds)"

definition service_findings :: "document list \<Rightarrow> document \<Rightarrow> finding list option" where
  "service_findings documents d =
     (if \<not> is_lit (kind d) ''Service'' \<or> is_lit (service_type d) ''ExternalName'' then Some []
      else let selector = js_object (opt_path (raw d) [''spec'', ''selector'']) in
        if own_keys selector = [] then Some []
        else let same_namespace = filter (\<lambda>w. strict_eq (namespace w) (namespace d))
                (filter (\<lambda>w. among (kind w) workloads) documents) in
          if same_namespace = [] then Some []
          else let matches = filter (\<lambda>w. selector_matches selector (workload_labels w)) same_namespace in
            if matches = [] then Some [selector_without_workload]
            else gather_indexed (\<lambda>i p. map_option (\<lambda>target.
                when_found (is_string target \<and> target \<notin> set (port_names matches))
                  (unknown_target_port i (text_of target)))
                (get p (lit ''targetPort''))) (service_ports d))"

definition add_bundle_findings :: "document list \<Rightarrow> document list option" where
  "add_bundle_findings documents = traverse_indexed (\<lambda>i d. map_option (\<lambda>added.
       d\<lparr>doc_findings :=
         (case duplicate_of (take i documents) d of Some c \<Rightarrow> [duplicate_identity c] | None \<Rightarrow> [])
         @ doc_findings d @ added\<rparr>)
     (service_findings documents d)) documents"

section \<open>Laws\<close>

lemma duplicate_of_Some:
  assumes "duplicate_of (take j ds) d = Some c"
  shows "\<exists>i < j. i < length ds \<and> c = ds ! i \<and> truthy (given_name c) \<and> truthy (given_name d) \<and> same_identity c d
    \<and> (\<forall>k < i. \<not> (truthy (given_name (ds ! k)) \<and> same_identity (ds ! k) d))"
  using assms by (force simp: duplicate_of_def find_Some_iff split: if_splits)

lemma duplicate_of_None:
  "duplicate_of cs d = None \<longleftrightarrow>
     \<not> (truthy (given_name d) \<and> (\<exists>c \<in> set cs. truthy (given_name c) \<and> same_identity c d))"
  by (auto simp: duplicate_of_def find_None_iff)

lemma service_findings_level: "every (\<lambda>f. f_level f = Warning) (service_findings ds d)"
proof -
  have "every (\<lambda>f. f_level f = Warning) (gather_indexed (\<lambda>i p. map_option (\<lambda>target.
      when_found (is_string target \<and> target \<notin> set (port_names ws))
        (unknown_target_port i (text_of target))) (get p (lit ''targetPort''))) ps)" for ws ps
    by (rule every_gather_indexed) (auto simp: every_def when_found_mem unknown_target_port_def)
  then show ?thesis
    by (auto simp: service_findings_def Let_def every_Some selector_without_workload_def)
qed

lemma port_names_iff:
  "v \<in> set (port_names ws) \<longleftrightarrow>
     truthy v \<and> (\<exists>w \<in> set ws. \<exists>c \<in> set (containers w). \<exists>p \<in> set (ports c). port_name p = v)"
  by (force simp: port_names_def)

subsection \<open>Manifests on which nothing throws\<close>

text \<open>
  A tame value has no null list item, no property named \<open>toString\<close>, and no image that is set to
  something other than text or a list. It says nothing of Kubernetes: any field may be missing or of
  any other wrong type.
\<close>

fun tame :: "jsval \<Rightarrow> bool" where
  "tame (JArr _ vs) \<longleftrightarrow> (\<forall>v \<in> set vs. \<not> nullish v \<and> tame v)"
| "tame (JObj _ es) \<longleftrightarrow> (\<forall>(k, v) \<in> set es. k \<noteq> lit ''toString'' \<and>
     (k = lit ''image'' \<and> truthy v \<longrightarrow> indexable v) \<and> tame v)"
| "tame _ \<longleftrightarrow> True"

lemma tame_lookup: "tame (JObj i es) \<Longrightarrow> tame (lookup es k)"
  by (induction es k rule: lookup.induct) auto

lemma tame_get [intro, simp]: "tame v \<Longrightarrow> tame (opt_get v k)"
  by (cases v) (use tame_lookup in auto)

lemma tame_path [intro, simp]: "tame v \<Longrightarrow> tame (opt_path v ks)"
  by (induction v ks rule: opt_path.induct) auto

lemma tame_object [intro, simp]: "tame v \<Longrightarrow> tame (js_object v)"
  by (cases v) (auto simp: js_object_def)

lemma tame_array: "tame v \<Longrightarrow> w \<in> set (js_array v) \<Longrightarrow> \<not> nullish w \<and> tame w"
  by (cases v) (auto simp: js_array_def)

lemma tame_or_else [intro, simp]: "tame a \<Longrightarrow> tame b \<Longrightarrow> tame (or_else a b)"
  by (simp add: or_else_def)

lemma tame_text: "tame v \<Longrightarrow> to_str v \<noteq> None"
proof (induction v)
  case (JArr i vs)
  then have "\<exists>ts. traverse (\<lambda>v. if nullish v then Some [] else to_str v) vs = Some ts"
    by (intro traverse_total) auto
  then show ?case by auto
qed auto

lemma tame_entries: "tame v \<Longrightarrow> (k, w) \<in> set (own_entries v) \<Longrightarrow> tame w"
  by (cases v) (auto simp: in_set_enumerate_eq)

lemma tame_image:
  assumes "tame v" "truthy (opt_get v (lit ''image''))"
  shows "indexable (opt_get v (lit ''image''))"
proof (cases v)
  case (JObj i es)
  with assms lookup_mem [of es "lit ''image''", OF refl] show ?thesis by force
qed (use assms in auto)

lemma tame_labels: "tame v \<Longrightarrow> labels v \<noteq> None"
  unfolding labels_None_iff using tame_entries [OF tame_object] tame_text by blast

lemma tame_container:
  assumes "\<not> nullish v" "tame v"
  shows "summarize_container v type path \<noteq> None"
proof -
  have "split_image (or_else (opt_get v (lit ''image'')) (JStr [])) \<noteq> None"
    using tame_image [OF assms(2)]
    by (auto simp: split_image_None_iff or_else_def indexable_def is_string_def)
  moreover have "traverse summarize_port (js_array (opt_get v (lit ''ports''))) \<noteq> None"
    using tame_array [OF tame_get [OF assms(2)]]
    unfolding traverse_None_iff summarize_port_None_iff by blast
  moreover have "traverse mount_text (js_array (opt_get v (lit ''volumeMounts''))) \<noteq> None"
    using tame_array [OF tame_get [OF assms(2)]] tame_text tame_get
    unfolding traverse_None_iff mount_text_None_iff by blast
  ultimately show ?thesis using summarize_container_None [OF assms(1), of type path] by simp
qed

lemma tame_pod_spec: "tame resource \<Longrightarrow> tame (pod_spec (pod_context resource))"
  by (simp add: pod_context_def)

lemma tame_containers:
  assumes "tame (pod_spec pod)"
  shows "\<exists>cs. pod_containers pod = Some cs \<and> (\<forall>c \<in> set cs. to_str (c_name c) \<noteq> None)"
proof -
  have step: "\<exists>cs. traverse_indexed (\<lambda>i c. summarize_container c type (path i))
        (js_array (opt_get (pod_spec pod) k)) = Some cs \<and> (\<forall>c \<in> set cs. to_str (c_name c) \<noteq> None)"
    for type path k
  proof -
    have ok: "\<not> nullish c \<and> tame c" if "c \<in> set (js_array (opt_get (pod_spec pod) k))" for c
      using tame_array [OF tame_get [OF assms] that] .
    then obtain cs where cs: "traverse_indexed (\<lambda>i c. summarize_container c type (path i))
        (js_array (opt_get (pod_spec pod) k)) = Some cs"
      using traverse_indexed_total [of _ "\<lambda>i c. summarize_container c type (path i)"] tame_container
      by meson
    moreover have "to_str (c_name c) \<noteq> None" if mem: "c \<in> set cs" for c
    proof -
      obtain v where "v \<in> set (js_array (opt_get (pod_spec pod) k))"
        "summarize_container v type (c_path c) = Some c"
        using traverse_indexed_mem [OF cs mem] summarize_container_SomeD(2) nth_mem by metis
      with ok show ?thesis
        using tame_text [of "c_name c"] summarize_container_SomeD(5) [of v type "c_path c" c] by simp
    qed
    ultimately show ?thesis by blast
  qed
  from step [of Init_container "list_path pod ''initContainers''" "lit ''initContainers''"]
    step [of Container "list_path pod ''containers''" "lit ''containers''"]
  show ?thesis by (auto simp: pod_containers_def)
qed

lemma tame_findings:
  assumes "tame resource" "tame (pod_spec pod)" "\<forall>c \<in> set cs. to_str (c_name c) \<noteq> None"
  shows "findings resource cs pod \<noteq> None"
  using assms(3) container_rules_total tame_array [OF tame_get [OF assms(1)]]
    tame_array [OF tame_get [OF assms(2)]]
  unfolding findings_None volume_rules_None role_rules_None by blast

lemma tame_resource:
  assumes "\<not> nullish resource" "tame resource"
  shows "\<exists>d. summarize_resource resource i = Some d"
proof -
  let ?pod = "pod_context resource"
  note spec = tame_pod_spec [OF assms(2)]
  obtain cs fs where cs: "pod_containers ?pod = Some cs" "findings resource cs ?pod = Some fs"
    using tame_containers [OF spec] tame_findings [OF assms(2) spec] by (metis not_None_eq)
  moreover obtain ls as ss where
    "labels (opt_get (js_object (opt_get resource (lit ''metadata''))) (lit ''labels'')) = Some ls"
    "labels (opt_get (js_object (opt_get resource (lit ''metadata''))) (lit ''annotations'')) = Some as"
    "labels (or_else (opt_path (js_object (opt_get resource (lit ''spec''))) [''selector'', ''matchLabels''])
       (opt_get (js_object (opt_get resource (lit ''spec''))) (lit ''selector''))) = Some ss"
    using tame_labels assms(2) by (metis not_None_eq tame_get tame_object tame_or_else tame_path)
  moreover have "summarize_volume v \<noteq> None"
    if "v \<in> set (js_array (opt_get (pod_spec ?pod) (lit ''volumes'')))" for v
    using tame_array [OF tame_get [OF spec] that] by (simp add: summarize_volume_def)
  then obtain vs where
    "traverse summarize_volume (js_array (opt_get (pod_spec ?pod) (lit ''volumes''))) = Some vs"
    using traverse_total by blast
  ultimately show ?thesis
    unfolding summarize_resource_def get_Some_opt_get [OF assms(1)] Let_def Option.bind.simps
    by (simp only: Option.bind.simps) blast
qed

lemma bundle_shape:
  assumes "add_bundle_findings ds = Some ds'"
  shows "length ds' = length ds \<and> (\<forall>j < length ds. \<exists>post. service_findings ds (ds ! j) = Some post \<and>
    ds' ! j = (ds ! j)\<lparr>doc_findings :=
      (case duplicate_of (take j ds) (ds ! j) of Some c \<Rightarrow> [duplicate_identity c] | None \<Rightarrow> [])
      @ doc_findings (ds ! j) @ post\<rparr>)"
  using traverse_indexed_nth [OF assms [unfolded add_bundle_findings_def]]
  by (fastforce simp: map_option_case split: option.splits)

section \<open>Properties\<close>

text \<open>C14: reading a bundle never disturbs what was found in its documents, and duplicates are flagged
  exactly: a document keeps every field and its own findings in order; one error is put in front
  exactly if an earlier document with a given name has the same identity, and it names the first
  such document; all that is put behind are warnings about the Service.\<close>

theorem bundle_findings_surround:
  assumes "add_bundle_findings ds = Some ds'" and "j < length ds"
  shows "\<exists>before after. ds' ! j = (ds ! j)\<lparr>doc_findings := before @ doc_findings (ds ! j) @ after\<rparr> \<and>
    (let repeats = (\<lambda>i. truthy (given_name (ds ! i)) \<and> truthy (given_name (ds ! j)) \<and> same_identity (ds ! i) (ds ! j))
     in if \<exists>i < j. repeats i
        then \<exists>i < j. repeats i \<and> (\<forall>k < i. \<not> repeats k) \<and> before = [duplicate_identity (ds ! i)]
        else before = []) \<and>
    (\<forall>f \<in> set after. f_level f = Warning)"
proof -
  let ?dup = "duplicate_of (take j ds) (ds ! j)"
  let ?repeats = "\<lambda>i. truthy (given_name (ds ! i)) \<and> truthy (given_name (ds ! j))
    \<and> same_identity (ds ! i) (ds ! j)"
  obtain post where post: "service_findings ds (ds ! j) = Some post"
    "ds' ! j = (ds ! j)\<lparr>doc_findings :=
      (case ?dup of Some c \<Rightarrow> [duplicate_identity c] | None \<Rightarrow> []) @ doc_findings (ds ! j) @ post\<rparr>"
    using bundle_shape [OF assms(1)] assms(2) by blast
  have level: "\<forall>f \<in> set post. f_level f = Warning"
    using service_findings_level [of ds "ds ! j"] post(1) by (simp add: every_def)
  show ?thesis
  proof (cases ?dup)
    case None
    have "?repeats i \<Longrightarrow> False" if "i < j" for i
    proof -
      assume repeats: "?repeats i"
      have "take j ds ! i \<in> set (take j ds)" using that assms(2) by (intro nth_mem) simp
      then have "ds ! i \<in> set (take j ds)" using that by simp
      with None repeats show False unfolding duplicate_of_None by blast
    qed
    then have none: "\<not> (\<exists>i < j. ?repeats i)" by blast
    show ?thesis
      by (rule exI [of _ "[]"], rule exI [of _ post], intro conjI)
        (simp_all only: Let_def none if_False post(2) None option.case simp_thms, rule level)
  next
    case (Some c)
    obtain i where i: "i < j" "c = ds ! i" "?repeats i" "\<forall>k < i. \<not> ?repeats k"
      using duplicate_of_Some [OF Some] by blast
    then have some: "\<exists>i < j. ?repeats i" by blast
    have first: "\<exists>i < j. ?repeats i \<and> (\<forall>k < i. \<not> ?repeats k) \<and> [duplicate_identity c] = [duplicate_identity (ds ! i)]"
      using i by blast
    show ?thesis
      by (rule exI [of _ "[duplicate_identity c]"], rule exI [of _ post], intro conjI)
        (simp_all only: Let_def some first if_True post(2) Some option.case simp_thms, rule level)
  qed
qed

text \<open>A Pod named \<open>p\<close>, as document \<open>i\<close>, for the witnesses.\<close>

definition pod_document :: "nat \<Rightarrow> document" where
  "pod_document i = \<lparr>index = i, api_version = jlit ''v1'', kind = jlit ''Pod'', doc_name = jlit ''p'',
     namespace = jlit ''n'', doc_labels = [], annotations = [], replicas = JNull, doc_selector = [],
     service_type = JNull, service_ports = [], service_account = jlit ''default'', containers = [],
     volumes = [], doc_findings = [], workload_labels = JObj 0 [],
     raw = JObj i [(lit ''metadata'', JObj 0 [(lit ''name'', jlit ''p'')])], schema = None\<rparr>"

lemma bundle_findings_surround_witness:
  "\<exists>ds'. add_bundle_findings [pod_document 1, pod_document 2] = Some ds' \<and>
     hd (doc_findings (ds' ! 1)) = duplicate_identity (pod_document 1)"
proof -
  have "service_findings ds (pod_document i) = Some []" for ds i
    by (simp add: service_findings_def pod_document_def is_lit_def)
  then obtain ds' where ds': "add_bundle_findings [pod_document 1, pod_document 2] = Some ds'"
    by (auto simp: add_bundle_findings_def traverse_indexed_def)
  have same: "truthy (given_name (pod_document i))" "same_identity (pod_document i) (pod_document k)" for i k
    by (simp_all add: given_name_def pod_document_def same_identity_def)
  from bundle_findings_surround [OF ds', of 1] same
  obtain before after where "before = [duplicate_identity (pod_document 1)]"
    "doc_findings (ds' ! 1) = before @ doc_findings (pod_document 2) @ after"
    by (auto simp: Let_def split: if_splits)
  with ds' show ?thesis by auto
qed

text \<open>
  A Service that reaches the workloads of its file: it selects one of them whenever its namespace has
  any, and every port it names is declared by a container it selects.
\<close>

definition wired :: "document list \<Rightarrow> document \<Rightarrow> bool" where
  "wired ds d \<longleftrightarrow>
     (let selector = js_object (opt_path (raw d) [''spec'', ''selector'']);
          local = {w \<in> set ds. among (kind w) workloads \<and> strict_eq (namespace w) (namespace d)};
          chosen = {w \<in> local. selector_matches selector (workload_labels w)}
      in own_keys selector = [] \<or> local = {} \<or> chosen \<noteq> {} \<and>
         (\<forall>p \<in> set (service_ports d). \<forall>target. opt_get p (lit ''targetPort'') = JStr target \<longrightarrow>
            target \<noteq> [] \<and> (\<exists>w \<in> chosen. \<exists>c \<in> set (containers w). \<exists>q \<in> set (ports c). port_name q = JStr target)))"

lemma service_findings_clean:
  assumes "service_findings ds d = Some post" and "is_lit (kind d) ''Service''"
  shows "post = [] \<longleftrightarrow> is_lit (service_type d) ''ExternalName'' \<or> wired ds d"
proof -
  let ?ports = "\<lambda>ws. gather_indexed (\<lambda>i p. map_option (\<lambda>target.
        when_found (is_string target \<and> target \<notin> set (port_names ws)) (unknown_target_port i (text_of target)))
        (get p (lit ''targetPort''))) (service_ports d)"
  have ports: "?ports ws = Some [] \<longleftrightarrow>
      (\<forall>p \<in> set (service_ports d). \<forall>target. opt_get p (lit ''targetPort'') = JStr target \<longrightarrow>
         target \<noteq> [] \<and> (\<exists>w \<in> set ws. \<exists>c \<in> set (containers w). \<exists>q \<in> set (ports c). port_name q = JStr target))"
    if "?ports ws \<noteq> None" for ws
  proof -
    have given: "\<not> nullish p" if "p \<in> set (service_ports d)" for p
      using \<open>?ports ws \<noteq> None\<close> that by (auto simp: gather_indexed_None_iff in_set_conv_nth)
    have one: "map_option (\<lambda>target. when_found (is_string target \<and> target \<notin> set (port_names ws))
          (unknown_target_port i (text_of target))) (get p (lit ''targetPort'')) = Some [] \<longleftrightarrow>
        (\<forall>target. opt_get p (lit ''targetPort'') = JStr target \<longrightarrow> target \<noteq> [] \<and>
          (\<exists>w \<in> set ws. \<exists>c \<in> set (containers w). \<exists>q \<in> set (ports c). port_name q = JStr target))"
      if "\<not> nullish p" for i p
      using that by (cases "opt_get p (lit ''targetPort'')")
        (auto simp: get_Some_opt_get when_found_Nil_iff is_string_def port_names_iff)
    show ?thesis by (rule gather_indexed_clean) (rule one, rule given)
  qed
  define selector where "selector = js_object (opt_path (raw d) [''spec'', ''selector''])"
  define same where "same = filter (\<lambda>w. strict_eq (namespace w) (namespace d)) (filter (\<lambda>w. among (kind w) workloads) ds)"
  define chosen where "chosen = filter (\<lambda>w. selector_matches selector (workload_labels w)) same"
  have cases: "service_findings ds d = (if is_lit (service_type d) ''ExternalName'' \<or> own_keys selector = [] \<or> same = []
      then Some [] else if chosen = [] then Some [selector_without_workload] else ?ports chosen)"
    using assms(2) by (simp add: service_findings_def selector_def same_def chosen_def Let_def)
  have sets: "set same = {w \<in> set ds. among (kind w) workloads \<and> strict_eq (namespace w) (namespace d)}"
    "set chosen = {w \<in> set same. selector_matches selector (workload_labels w)}"
    by (auto simp: same_def chosen_def)
  have wired: "wired ds d \<longleftrightarrow> own_keys selector = [] \<or> same = [] \<or> chosen \<noteq> [] \<and>
      (\<forall>p \<in> set (service_ports d). \<forall>target. opt_get p (lit ''targetPort'') = JStr target \<longrightarrow>
         target \<noteq> [] \<and> (\<exists>w \<in> set chosen. \<exists>c \<in> set (containers w). \<exists>q \<in> set (ports c). port_name q = JStr target))"
    unfolding wired_def Let_def sets(1) [symmetric] selector_def [symmetric] sets(2) [symmetric] set_empty ..
  show ?thesis
  proof (cases "is_lit (service_type d) ''ExternalName'' \<or> own_keys selector = [] \<or> same = [] \<or> chosen = []")
    case True
    then show ?thesis using assms(1) unfolding wired cases by (auto split: if_splits simp: chosen_def)
  next
    case False
    then have post: "?ports chosen = Some post" using assms(1) unfolding cases by simp
    then have "post = [] \<longleftrightarrow> ?ports chosen = Some []" by simp
    also have "\<dots> \<longleftrightarrow> wired ds d" using False post unfolding wired by (subst ports) auto
    finally show ?thesis using False by blast
  qed
qed

text \<open>C15: reading the file as a whole adds nothing to a Service exactly when no earlier document has its
  identity and it is either an ExternalName or wired to the workloads of the file; whatever its ports
  are, as long as reading them does not throw.\<close>

theorem service_clean_iff_wired:
  assumes "add_bundle_findings ds = Some ds'" and "j < length ds" and "is_lit (kind (ds ! j)) ''Service''"
  shows "doc_findings (ds' ! j) = doc_findings (ds ! j) \<longleftrightarrow>
    (is_lit (service_type (ds ! j)) ''ExternalName'' \<or> wired ds (ds ! j)) \<and>
    \<not> (\<exists>i < j. truthy (given_name (ds ! i)) \<and> truthy (given_name (ds ! j)) \<and> same_identity (ds ! i) (ds ! j))"
proof -
  let ?dup = "duplicate_of (take j ds) (ds ! j)"
  obtain post where post: "service_findings ds (ds ! j) = Some post"
    "ds' ! j = (ds ! j)\<lparr>doc_findings :=
      (case ?dup of Some c \<Rightarrow> [duplicate_identity c] | None \<Rightarrow> []) @ doc_findings (ds ! j) @ post\<rparr>"
    using bundle_shape [OF assms(1)] assms(2) by blast
  have none: "?dup = None \<longleftrightarrow>
      \<not> (\<exists>i < j. truthy (given_name (ds ! i)) \<and> truthy (given_name (ds ! j)) \<and> same_identity (ds ! i) (ds ! j))"
    using assms(2) unfolding duplicate_of_None nth_image [of j ds, symmetric, OF less_imp_le [OF assms(2)]] by auto
  have "doc_findings (ds' ! j) = doc_findings (ds ! j) \<longleftrightarrow> ?dup = None \<and> post = []"
    using post(2) by (cases ?dup) (auto dest: arg_cong [of _ _ length])
  then show ?thesis unfolding none service_findings_clean [OF post(1) assms(3)] by blast
qed

text \<open>Two Services of the same identity that select nothing, and so are wired: the second one is flagged.\<close>

definition service_document :: "nat \<Rightarrow> document" where
  "service_document i = (pod_document i)\<lparr>kind := jlit ''Service'', service_type := jlit ''ClusterIP''\<rparr>"

lemma service_clean_iff_wired_witness:
  "\<exists>ds'. add_bundle_findings [service_document 1, service_document 2] = Some ds' \<and>
     doc_findings (ds' ! 0) = [] \<and> doc_findings (ds' ! 1) \<noteq> []"
proof -
  let ?ds = "[service_document 1, service_document 2]"
  have service: "is_lit (kind (service_document i)) ''Service''" "wired ?ds (service_document i)" for i
    by (simp_all add: service_document_def pod_document_def is_lit_def wired_def js_object_def)
  have "service_findings ?ds (service_document i) = Some []" for i
    by (simp add: service_findings_def service_document_def pod_document_def js_object_def)
  then obtain ds' where ds': "add_bundle_findings ?ds = Some ds'"
    by (auto simp: add_bundle_findings_def traverse_indexed_def)
  have same: "truthy (given_name (service_document i))" "same_identity (service_document i) (service_document k)" for i k
    by (simp_all add: given_name_def service_document_def pod_document_def same_identity_def)
  have own: "doc_findings (service_document i) = []" for i
    by (simp add: service_document_def pod_document_def)
  have "doc_findings (ds' ! 0) = []" "doc_findings (ds' ! 1) \<noteq> []"
    using service_clean_iff_wired [OF ds', of 0] service_clean_iff_wired [OF ds', of 1] service same own by auto
  with ds' show ?thesis by blast
qed

end
