(* ===== verification/OwaspProfile.thy ===== *)
theory OwaspProfile
  imports Summary
begin

text \<open>
  The OWASP Kubernetes Top Ten review profile (\<open>owasp-profile.js\<close>): for each of the ten entries the
  coverage a local file review can have, and the signals the documents of the file give for it.
\<close>

section \<open>Model\<close>

datatype coverage = Direct | Partial | Cluster_context

fun coverage_text :: "coverage \<Rightarrow> jstr" where
  "coverage_text Direct = lit ''direct''"
| "coverage_text Partial = lit ''partial''"
| "coverage_text Cluster_context = lit ''cluster-context-required''"

definition profile :: "(owasp_key \<times> coverage \<times> jstr) list" where
  "profile =
     [(K01, Direct, lit ''Workload securityContext, host namespaces, HostPath, resources, and ServiceAccount-token settings are directly reviewable in the supplied YAML.''),
      (K02, Partial, lit ''RBAC rules and bindings in the supplied YAML are reviewable; effective permissions, aggregation, and identities require cluster context.''),
      (K03, Partial, lit ''Secret-backed environment injection and literal cloud credentials in the supplied YAML are reviewable; storage encryption, repositories, images, rotation, and logs are not.''),
      (K04, Partial, lit ''Namespace Pod Security Admission labels and policy resources in the supplied YAML are visible; installed admission configuration and enforcement require cluster context.''),
      (K05, Partial, lit ''NetworkPolicy resources in the supplied YAML are visible; effective namespace-wide segmentation and CNI enforcement require cluster context.''),
      (K06, Partial, lit ''NodePort, LoadBalancer, and Ingress declarations are reviewable; actual reachability, firewalls, and control-plane exposure require cluster context.''),
      (K07, Cluster_context, lit ''Component versions, flags, patch status, and runtime vulnerability state are not established by workload YAML.''),
      (K08, Partial, lit ''Literal cloud credential environment variables are reviewable; node IAM, workload identity, metadata-service access, and cloud policy require cluster and cloud context.''),
      (K09, Partial, lit ''Automatic ServiceAccount-token mounting is reviewable; user authentication, API anonymous access, MFA, and token lifetime require cluster or identity-provider context.''),
      (K10, Cluster_context, lit ''Audit policy, log collection, alert delivery, retention, and monitoring health require live cluster and observability context.'')]"

record profile_entry =
  p_standard :: standard
  p_coverage :: coverage
  evidence_count :: nat
  evidence :: jstr
  boundary :: jstr

definition finding_standard_ids :: "finding \<Rightarrow> jstr list" where
  "finding_standard_ids f = map std_id
     ((case f_standard f of Some s \<Rightarrow> [s] | None \<Rightarrow> []) @
      (case f_standards f of Some ss \<Rightarrow> ss | None \<Rightarrow> []))"

definition finding_count :: "jstr \<Rightarrow> document list \<Rightarrow> nat" where
  "finding_count key_id documents = length (filter (\<lambda>f. key_id \<in> set (finding_standard_ids f))
     (concat (map doc_findings documents)))"

definition policy_resource :: "document \<Rightarrow> bool" where
  "policy_resource d \<longleftrightarrow>
     among (kind d) [''ValidatingAdmissionPolicy'', ''ValidatingWebhookConfiguration'']
     \<or> is_lit (kind d) ''Namespace'' \<and>
       truthy (opt_path (raw d) [''metadata'', ''labels'', ''pod-security.kubernetes.io/enforce''])"

definition resource_evidence :: "owasp_key \<Rightarrow> document list \<Rightarrow> nat" where
  "resource_evidence key documents =
     (if key = K05 then length (filter (\<lambda>d. is_lit (kind d) ''NetworkPolicy'') documents)
      else if key = K04 then length (filter policy_resource documents) else 0)"

definition profile_row :: "document list \<Rightarrow> owasp_key \<times> coverage \<times> jstr \<Rightarrow> profile_entry" where
  "profile_row documents row = (case row of (key, cover, bound) \<Rightarrow>
     let standard = owasp_standard key;
         n = finding_count (std_id standard) documents + resource_evidence key documents
     in \<lparr>p_standard = standard, p_coverage = cover, evidence_count = n,
          evidence = (if n \<noteq> 0
            then nat_text n @ lit '' matching manifest-local signal'' @
              (if n = 1 then [] else lit ''s'') @ lit '' in this file.''
            else lit ''No matching manifest-local signal in this file; this is not a pass result.''),
          boundary = bound\<rparr>)"

definition build_owasp_profile :: "document list \<Rightarrow> profile_entry list" where
  "build_owasp_profile documents = map (profile_row documents) profile"

section \<open>Laws\<close>

lemma finding_count_append: "finding_count k (a @ b) = finding_count k a + finding_count k b"
  by (simp add: finding_count_def)

lemma resource_evidence_append:
  "resource_evidence k (a @ b) = resource_evidence k a + resource_evidence k b"
  by (simp add: resource_evidence_def)

lemma profile_row_coverage: "p_coverage (profile_row ds (k, c, t)) = c"
  by (simp add: profile_row_def Let_def)

lemma profile_keys: "map fst profile = [K01, K02, K03, K04, K05, K06, K07, K08, K09, K10]"
  by (simp add: profile_def)

lemma profile_coverage:
  "(k, Cluster_context, t) \<in> set profile \<Longrightarrow> k = K07 \<or> k = K10"
  by (auto simp: profile_def)

text \<open>A coherent finding cites only keys a manifest can give evidence for.\<close>

lemma coherent_ids:
  assumes "coherent f" and "std_id (owasp_standard k) \<in> set (finding_standard_ids f)"
  shows "k \<in> manifest_keys"
proof (cases "f_standards f")
  case None
  with assms show ?thesis by (simp add: coherent_def finding_standard_ids_def)
next
  case (Some ss)
  with assms(1) obtain j js where "ss = map owasp_standard (j # js)"
    "f_standard f = Some (owasp_standard j)" "insert j (set js) \<subseteq> manifest_keys"
    by (auto simp: coherent_def)
  with Some assms(2) show ?thesis by (auto simp: finding_standard_ids_def)
qed

lemma no_evidence:
  assumes "\<And>d f. d \<in> set ds \<Longrightarrow> f \<in> set (doc_findings d) \<Longrightarrow> coherent f" and "k \<notin> manifest_keys"
  shows "finding_count (std_id (owasp_standard k)) ds = 0"
  using assms coherent_ids by (auto simp: finding_count_def filter_empty_conv)

lemma no_cluster_evidence:
  assumes "\<And>d f. d \<in> set ds \<Longrightarrow> f \<in> set (doc_findings d) \<Longrightarrow> coherent f"
    and "e \<in> set (build_owasp_profile ds)" and "p_coverage e = Cluster_context"
  shows "evidence_count e = 0"
proof -
  obtain k t where e: "e = profile_row ds (k, Cluster_context, t)" "(k, Cluster_context, t) \<in> set profile"
    using assms(2,3) by (auto simp: build_owasp_profile_def profile_row_coverage)
  have k: "k = K07 \<or> k = K10" by (rule profile_coverage [OF e(2)])
  then have "finding_count (std_id (owasp_standard k)) ds = 0"
    using assms(1) by (intro no_evidence) (auto simp: manifest_keys_def)
  with k show ?thesis by (auto simp: e(1) profile_row_def resource_evidence_def)
qed

section \<open>Properties\<close>

text \<open>C16: the profile is a faithful ledger: it lists the ten entries once each in ascending order,
  reading two bundles together counts exactly the signals of both, an entry says "no signal" exactly
  when its count is zero, and the two entries that need cluster context never claim a signal as long
  as the findings are coherent.\<close>

theorem profile_is_a_ledger:
  assumes "\<forall>d \<in> set (a @ b). \<forall>f \<in> set (doc_findings d). coherent f"
  shows "(\<exists>ks. map p_standard (build_owasp_profile (a @ b)) = map owasp_standard ks \<and>
      sorted ks \<and> distinct ks \<and> set ks = UNIV) \<and>
    map evidence_count (build_owasp_profile (a @ b)) =
      map2 (+) (map evidence_count (build_owasp_profile a)) (map evidence_count (build_owasp_profile b)) \<and>
    (\<forall>e \<in> set (build_owasp_profile (a @ b)). p_coverage e = Cluster_context \<longrightarrow> evidence_count e = 0)"
proof (intro conjI)
  let ?ks = "[K01, K02, K03, K04, K05, K06, K07, K08, K09, K10]"
  have "map p_standard (build_owasp_profile (a @ b)) = map owasp_standard (map fst profile)"
    by (auto simp: build_owasp_profile_def profile_row_def Let_def)
  moreover have "sorted ?ks" "distinct ?ks" by (simp_all add: less_eq_owasp_key_def)
  moreover have "k \<in> set ?ks" for k by (cases k) simp_all
  then have "set ?ks = UNIV" by blast
  ultimately show "\<exists>ks. map p_standard (build_owasp_profile (a @ b)) = map owasp_standard ks \<and>
      sorted ks \<and> distinct ks \<and> set ks = UNIV"
    unfolding profile_keys by blast
next
  have "evidence_count (profile_row (a @ b) r) =
      evidence_count (profile_row a r) + evidence_count (profile_row b r)" for r
    by (cases r) (simp add: profile_row_def Let_def finding_count_append resource_evidence_append)
  then show "map evidence_count (build_owasp_profile (a @ b)) =
      map2 (+) (map evidence_count (build_owasp_profile a)) (map evidence_count (build_owasp_profile b))"
    by (simp add: build_owasp_profile_def comp_def zip_map_map zip_same_conv_map)
next
  show "\<forall>e \<in> set (build_owasp_profile (a @ b)).
      p_coverage e = Cluster_context \<longrightarrow> evidence_count e = 0"
    using no_cluster_evidence [of "a @ b"] assms by blast
qed

lemma profile_is_a_ledger_witness:
  "map evidence_count (build_owasp_profile
     ([pod_document 1\<lparr>doc_findings := [runs_as_root [] []]\<rparr>] @ [pod_document 2\<lparr>kind := jlit ''NetworkPolicy''\<rparr>]))
   = [1, 0, 0, 0, 1, 0, 0, 0, 0, 0]"
proof -
  let ?a = "[pod_document 1\<lparr>doc_findings := [runs_as_root [] []]\<rparr>]"
  let ?b = "[pod_document 2\<lparr>kind := jlit ''NetworkPolicy''\<rparr>]"
  have "\<forall>d \<in> set (?a @ ?b). \<forall>f \<in> set (doc_findings d). coherent f"
    by (auto simp: pod_document_def runs_as_root_def rule_simps)
  from profile_is_a_ledger [of ?a ?b, OF this]
  have "map evidence_count (build_owasp_profile (?a @ ?b)) =
      map2 (+) (map evidence_count (build_owasp_profile ?a)) (map evidence_count (build_owasp_profile ?b))"
    by blast
  then show ?thesis
    by (simp add: build_owasp_profile_def profile_def profile_row_def finding_count_def
        finding_standard_ids_def resource_evidence_def policy_resource_def pod_document_def
        runs_as_root_def is_lit_def)
qed

end
