(* ===== verification/Locations.thy ===== *)
theory Locations
  imports OwaspProfile TreeSearch
begin

text \<open>
  From the path of a finding to a place in the editor (\<open>pathSegments\<close>, \<open>nearestNodeAtPath\<close> and
  \<open>attachFindingLocations\<close> of \<open>analyze.js\<close>).

  The syntax tree is the one the \<open>yaml\<close> package documents: scalars with a value, maps with a list of
  pairs, sequences, aliases; a node may have a range, of which only the start offset is used. The
  position of an offset is the parameter \<open>line_pos\<close> (\<open>LineCounter.linePos\<close>).
\<close>

section \<open>Model\<close>

datatype segment = Name jstr | Position nat

text \<open>\<open>[^.[\]]\<close>.\<close>

definition plain_unit :: "code_unit \<Rightarrow> bool" where
  "plain_unit u \<longleftrightarrow> u \<noteq> cu CHR ''.'' \<and> u \<noteq> cu CHR ''['' \<and> u \<noteq> cu CHR '']''"

text \<open>
  All matches of \<open>/\.([^.[\]]+)|\[(\d+)\]/g\<close>, from left to right: where neither alternative matches,
  the search goes on one code unit further.
\<close>

function path_segments :: "jstr \<Rightarrow> segment list" where
  "path_segments [] = []"
| "path_segments (u # us) =
     (if u = cu CHR ''.'' \<and> takeWhile plain_unit us \<noteq> []
      then Name (takeWhile plain_unit us) # path_segments (dropWhile plain_unit us)
      else if u = cu CHR ''['' \<and> takeWhile is_digit us \<noteq> []
          \<and> prefix [cu CHR '']''] (dropWhile is_digit us)
      then Position (text_nat (takeWhile is_digit us)) # path_segments (tl (dropWhile is_digit us))
      else path_segments us)"
  by pat_completeness auto
termination
  by (relation "measure length")
    (auto simp: less_Suc_eq_le length_dropWhile_le intro: le_trans [OF diff_le_self length_dropWhile_le])

datatype node =
    Scalar_node "nat option" jsval
  | Alias_node "nat option" jstr
  | Seq_node "nat option" "node option list"
  | Map_node "nat option" "(node option \<times> node option) list"

fun node_start :: "node \<Rightarrow> nat option" where
  "node_start (Scalar_node r _) = r"
| "node_start (Alias_node r _) = r"
| "node_start (Seq_node r _) = r"
| "node_start (Map_node r _) = r"

text \<open>\<open>item.key?.value\<close>: only a scalar has a value.\<close>

fun key_value :: "node option \<Rightarrow> jsval" where
  "key_value (Some (Scalar_node _ v)) = v"
| "key_value _ = JUndef"

definition find_pair :: "jstr \<Rightarrow> (node option \<times> node option) list \<Rightarrow> (node option \<times> node option) option" where
  "find_pair k items = find (\<lambda>(key, _). key_value key = JStr k) items"

fun nearest_from :: "node option \<Rightarrow> node option \<Rightarrow> segment list \<Rightarrow> node option" where
  "nearest_from node nearest [] = nearest"
| "nearest_from node nearest (s # ss) =
     (case (s, node) of
        (Position i, Some (Seq_node _ items)) \<Rightarrow>
          if i < length items \<and> items ! i \<noteq> None then nearest_from (items ! i) (items ! i) ss else nearest
      | (Name k, Some (Map_node _ items)) \<Rightarrow>
          (case find_pair k items of
             None \<Rightarrow> nearest
           | Some (key, val) \<Rightarrow> nearest_from val key ss)
      | _ \<Rightarrow> nearest)"

definition nearest_node_at_path :: "node option \<Rightarrow> segment list \<Rightarrow> node option" where
  "nearest_node_at_path contents segments = nearest_from contents contents segments"

text \<open>Line and column of a path; the column is that of the start of the line.\<close>

definition location :: "(nat \<Rightarrow> nat \<times> nat) \<Rightarrow> node option \<Rightarrow> jstr \<Rightarrow> nat option \<times> nat option" where
  "location line_pos contents path =
     (case Option.bind (nearest_node_at_path contents (path_segments path)) node_start of
        None \<Rightarrow> (None, None)
      | Some offset \<Rightarrow> (Some (fst (line_pos offset)), Some 1))"

definition locate_finding :: "(nat \<Rightarrow> nat \<times> nat) \<Rightarrow> node option \<Rightarrow> finding \<Rightarrow> finding" where
  "locate_finding line_pos contents f =
     f\<lparr>f_line := fst (location line_pos contents (f_path f)),
       f_column := snd (location line_pos contents (f_path f))\<rparr>"

definition locate_error :: "(nat \<Rightarrow> nat \<times> nat) \<Rightarrow> node option \<Rightarrow> schema_error \<Rightarrow> schema_error" where
  "locate_error line_pos contents e =
     e\<lparr>e_line := fst (location line_pos contents (e_path e)),
       e_column := snd (location line_pos contents (e_path e))\<rparr>"

text \<open>\<open>parsed\<close> holds the contents of the parsed documents; documents are numbered from 1.\<close>

definition attach_finding_locations ::
  "(nat \<Rightarrow> nat \<times> nat) \<Rightarrow> node option list \<Rightarrow> document list \<Rightarrow> document list" where
  "attach_finding_locations line_pos parsed documents = map (\<lambda>d.
     let contents = parsed ! (index d - 1) in
     d\<lparr>doc_findings := map (locate_finding line_pos contents) (doc_findings d),
       schema := map_option (\<lambda>r. r\<lparr>schema_errors := map (locate_error line_pos contents) (schema_errors r)\<rparr>)
         (schema d)\<rparr>) documents"

section \<open>Reading rendered paths\<close>

fun render :: "segment \<Rightarrow> jstr" where
  "render (Name k) = cu CHR ''.'' # k"
| "render (Position i) = cu CHR ''['' # nat_text i @ [cu CHR '']'']"

fun readable :: "segment \<Rightarrow> bool" where
  "readable (Name k) \<longleftrightarrow> k \<noteq> [] \<and> list_all plain_unit k"
| "readable (Position _) \<longleftrightarrow> True"

definition render_path :: "segment list \<Rightarrow> jstr" where
  "render_path segments = concat (map render segments)"

text \<open>A continuation that does not run into the name before it.\<close>

definition separated :: "jstr \<Rightarrow> bool" where
  "separated t \<longleftrightarrow> (case t of [] \<Rightarrow> True | u # _ \<Rightarrow> \<not> plain_unit u)"

lemma takeWhile_until: "list_all P a \<Longrightarrow> (case b of [] \<Rightarrow> True | x # _ \<Rightarrow> \<not> P x) \<Longrightarrow>
    takeWhile P (a @ b) = a \<and> dropWhile P (a @ b) = b"
  by (cases b) (auto simp: list_all_iff takeWhile_append2 dropWhile_append2 takeWhile_eq_all_conv)

lemma bracket_facts [simp]:
  "\<not> is_digit (cu CHR '']'')" "cu CHR ''['' \<noteq> cu CHR ''.''" "\<not> plain_unit (cu CHR ''.'')"
  "\<not> plain_unit (cu CHR ''['')"
  by (simp_all add: is_digit_def plain_unit_def str_simps)

lemma path_segments_name:
  assumes "readable (Name k)" "separated t"
  shows "path_segments (render (Name k) @ t) = Name k # path_segments t"
  using takeWhile_until [of plain_unit k t] assms by (simp add: separated_def)

lemma path_segments_position:
  "path_segments (render (Position i) @ t) = Position i # path_segments t"
proof -
  have "list_all is_digit (nat_text i)" using nat_text_digits by (auto simp: list_all_iff)
  from takeWhile_until [OF this, of "cu CHR '']'' # t"] show ?thesis by simp
qed

lemma path_segments_render:
  assumes "list_all readable segments" and "separated t \<or> (\<exists>i. last segments = Position i) \<and> segments \<noteq> []"
  shows "path_segments (render_path segments @ t) = segments @ path_segments t"
  using assms
proof (induction segments)
  case (Cons s ss)
  have rest: "path_segments (render_path ss @ t) = ss @ path_segments t" if "ss \<noteq> [] \<or> separated t"
    using Cons that by (cases "ss = []") (auto simp: render_path_def)
  show ?case
  proof (cases s)
    case (Name k)
    have "separated (render_path ss @ t)"
      using Cons.prems Name by (cases ss; cases "hd ss") (auto simp: separated_def render_path_def)
    then have "path_segments (render (Name k) @ render_path ss @ t) =
        Name k # path_segments (render_path ss @ t)"
      using Cons.prems Name by (intro path_segments_name) simp_all
    moreover have "path_segments (render_path ss @ t) = ss @ path_segments t"
      using rest Cons.prems Name by (cases "ss = []") auto
    ultimately show ?thesis using Name by (simp add: render_path_def del: render.simps)
  next
    case (Position i)
    have "path_segments (render_path ss @ t) = ss @ path_segments t"
      using rest by (cases "ss = []") (auto simp: render_path_def)
    with Position show ?thesis
      using path_segments_position [of i "render_path ss @ t"] by (simp add: render_path_def)
  qed
qed (simp add: render_path_def)

section \<open>The value a path leads to\<close>

fun value_at :: "jsval \<Rightarrow> segment list \<Rightarrow> jsval option" where
  "value_at v [] = Some v"
| "value_at (JObj _ es) (Name k # ss) = (if lookup es k = JUndef then None else value_at (lookup es k) ss)"
| "value_at (JArr _ vs) (Position i # ss) = (if i < length vs then value_at (vs ! i) ss else None)"
| "value_at _ _ = None"

lemma value_at_append: "value_at v (ss @ ts) = Option.bind (value_at v ss) (\<lambda>w. value_at w ts)"
  by (induction v ss rule: value_at.induct) auto

definition names :: "string list \<Rightarrow> segment list" where
  "names ks = map (\<lambda>k. Name (lit k)) ks"

lemma value_at_opt_path:
  "opt_path v ks \<noteq> JUndef \<Longrightarrow> value_at v (names ks) = Some (opt_path v ks)"
proof (induction v ks rule: opt_path.induct)
  case (2 v k ks)
  then have "opt_get v (lit k) \<noteq> JUndef"
    using opt_path_nullish [of JUndef ks] by (cases ks) auto
  with 2 show ?case by (cases v) (auto simp: names_def)
qed (simp add: names_def)

lemma pod_paths:
  "lit ''.spec'' = render_path (names [''spec''])"
  "lit ''.spec.template.spec'' = render_path (names [''spec'', ''template'', ''spec''])"
  "lit ''.spec.jobTemplate.spec.template.spec'' =
     render_path (names [''spec'', ''jobTemplate'', ''spec'', ''template'', ''spec''])"
  "list_all readable (names [''spec''])"
  "list_all readable (names [''spec'', ''template'', ''spec''])"
  "list_all readable (names [''spec'', ''jobTemplate'', ''spec'', ''template'', ''spec''])"
  by (simp_all add: render_path_def names_def lit_Cons plain_unit_def)

lemma pod_shape:
  obtains ks where "pod_path (pod_context r) = render_path (names ks)" "list_all readable (names ks)"
    "pod_spec (pod_context r) = JObj 0 [] \<or> pod_spec (pod_context r) = js_object (opt_path r ks)"
proof -
  let ?k = "kind_of r"
  consider "is_lit ?k ''Pod''" | "\<not> is_lit ?k ''Pod''" "is_lit ?k ''CronJob''"
    | "\<not> is_lit ?k ''Pod''" "\<not> is_lit ?k ''CronJob''" "among ?k workloads"
    | "\<not> is_lit ?k ''Pod''" "\<not> is_lit ?k ''CronJob''" "\<not> among ?k workloads" by blast
  then show ?thesis
    by cases (use that pod_paths in \<open>force simp: pod_context_def simp del: opt_path.simps\<close>)+
qed

text \<open>A container is where its path says.\<close>

lemma container_at_path:
  assumes "pod_containers (pod_context r) = Some cs" and "c \<in> set cs"
  shows "\<exists>segments i. c_path c = render_path (segments @ [Position i]) \<and>
    list_all readable segments \<and> value_at r (segments @ [Position i]) = Some (c_raw c)" (is ?thesis)
proof -
  let ?pod = "pod_context r"
  obtain ks where ks: "pod_path ?pod = render_path (names ks)" "list_all readable (names ks)"
    "pod_spec ?pod = JObj 0 [] \<or> pod_spec ?pod = js_object (opt_path r ks)" by (rule pod_shape)
  have in_list: ?thesis
    if name: "list_all plain_unit (lit name)" "name \<noteq> []"
      and cs': "traverse_indexed (\<lambda>i v. summarize_container v type (list_path ?pod name i))
        (js_array (opt_get (pod_spec ?pod) (lit name))) = Some cs'" "c \<in> set cs'" for name type cs'
  proof -
    let ?vs = "js_array (opt_get (pod_spec ?pod) (lit name))"
    obtain i where i: "i < length ?vs" "summarize_container (?vs ! i) type (list_path ?pod name i) = Some c"
      using traverse_indexed_mem [OF cs'] by blast
    let ?v = "opt_path r (ks @ [name])"
    have "opt_path v (ks @ [name]) = opt_get (opt_path v ks) (lit name)" for v ks
      by (induction v ks rule: opt_path.induct) auto
    then have vs: "?vs = js_array ?v" using i(1) ks(3) by (auto simp: js_array_def)
    with i(1) have arr: "?v \<noteq> JUndef" "\<exists>a. ?v = JArr a ?vs"
      by (cases ?v; auto simp: js_array_def)+
    show ?thesis
    proof (intro exI conjI)
      show "c_path c = render_path (names (ks @ [name]) @ [Position i])"
        using summarize_container_SomeD(2) [OF i(2)] ks(1)
        by (simp add: list_path_def render_path_def names_def lit_Cons)
      show "list_all readable (names (ks @ [name]))" using ks(2) name by (simp add: names_def)
      show "value_at r (names (ks @ [name]) @ [Position i]) = Some (c_raw c)"
        using value_at_opt_path [OF arr(1)] arr(2) i(1) summarize_container_SomeD(3) [OF i(2)]
        by (auto simp: value_at_append)
    qed
  qed
  have plain: "list_all plain_unit (lit ''initContainers'')" "list_all plain_unit (lit ''containers'')"
    by (simp_all add: plain_unit_def lit_Cons)
  obtain init main where lists:
    "traverse_indexed (\<lambda>i v. summarize_container v Init_container (list_path ?pod ''initContainers'' i))
       (js_array (opt_get (pod_spec ?pod) (lit ''initContainers''))) = Some init"
    "traverse_indexed (\<lambda>i v. summarize_container v Container (list_path ?pod ''containers'' i))
       (js_array (opt_get (pod_spec ?pod) (lit ''containers''))) = Some main" "cs = init @ main"
    using assms(1) unfolding pod_containers_def by (auto simp: bind_eq_Some_conv)
  then show ?thesis
    using assms(2) in_list [OF plain(1) _ lists(1)] in_list [OF plain(2) _ lists(2)] by auto
qed

section \<open>The node a path leads to\<close>

text \<open>
  \<open>denotes n v\<close>: the node is the syntax of the value, for documents without aliases whose keys are
  text, the integer-like ones first and ascending (the order in which JavaScript enumerates them), which
  \<open>toJS\<close> turns into the value.
\<close>

inductive denotes :: "node \<Rightarrow> jsval \<Rightarrow> bool" where
  scalar: "is_scalar v \<Longrightarrow> denotes (Scalar_node r v) v"
| seq: "length items = length vs \<Longrightarrow>
    (\<And>i. i < length vs \<Longrightarrow> \<exists>m. items ! i = Some m \<and> denotes m (vs ! i)) \<Longrightarrow>
    denotes (Seq_node r items) (JArr a vs)"
| mapping: "map (key_value \<circ> fst) items = map (JStr \<circ> fst) es \<Longrightarrow>
    (\<And>i. i < length es \<Longrightarrow> \<exists>m. snd (items ! i) = Some m \<and> denotes m (snd (es ! i))) \<Longrightarrow>
    denotes (Map_node r items) (JObj a es)"

inductive_simps denotes_array: "denotes n (JArr a vs)"
inductive_simps denotes_object: "denotes n (JObj a es)"

fun child :: "node \<Rightarrow> node \<Rightarrow> bool" where
  "child a (Seq_node _ items) \<longleftrightarrow> Some a \<in> set items"
| "child a (Map_node _ items) \<longleftrightarrow> (\<exists>p \<in> set items. fst p = Some a \<or> snd p = Some a)"
| "child a _ \<longleftrightarrow> False"

abbreviation part_of :: "node \<Rightarrow> node \<Rightarrow> bool" where
  "part_of a n \<equiv> child\<^sup>*\<^sup>* a n"

lemma find_pair_Some:
  "find_pair k items = Some (key, val) \<Longrightarrow> (key, val) \<in> set items \<and> key_value key = JStr k"
  unfolding find_pair_def find_Some_iff by (metis (mono_tags, lifting) case_prod_conv nth_mem)

text \<open>The walk never leaves the node it has reached, and always ends at a node.\<close>

lemma nearest_inside:
  "part_of b n \<Longrightarrow> (\<And>a. node = Some a \<Longrightarrow> part_of a n) \<Longrightarrow>
     \<exists>m. nearest_from node (Some b) ss = Some m \<and> part_of m n"
proof (induction ss arbitrary: node b)
  case (Cons s ss)
  show ?case
  proof (cases node)
    case None
    with Cons.prems show ?thesis by (cases s) auto
  next
    case (Some a)
    have a: "part_of a n" using Cons.prems(2) Some by simp
    then have sub: "part_of x n" if "child x a" for x
      using that by (meson converse_rtranclp_into_rtranclp)
    show ?thesis
    proof (cases a)
      case (Seq_node r items)
      have step: "\<exists>m. nearest_from (Some y) (Some y) ss = Some m \<and> part_of m n"
        if "i < length items" "items ! i = Some y" for i y
      proof -
        have "part_of y n" using sub [of y] that Seq_node nth_mem [of i items] by simp
        then show ?thesis using Cons.IH [of y "Some y"] by simp
      qed
      then show ?thesis
        using Cons.prems Some Seq_node by (cases s) auto
    next
      case (Map_node r items)
      show ?thesis
      proof (cases s)
        case (Name k)
        show ?thesis
        proof (cases "find_pair k items")
          case (Some p)
          obtain key val where p: "p = (key, val)" by (cases p)
          note pair = find_pair_Some [OF Some [unfolded p]]
          then obtain kn where kn: "key = Some kn" by (cases key) auto
          have "part_of kn n" "\<And>v. val = Some v \<Longrightarrow> part_of v n"
            using pair kn Map_node sub by force+
          from Cons.IH [OF this] show ?thesis
            using Some p kn Name Map_node \<open>node = Some a\<close> by simp
        qed (use Cons.prems Some Map_node Name in auto)
      qed (use Cons.prems Some Map_node in auto)
    qed (use Cons.prems Some in \<open>cases s; auto\<close>)+
  qed
qed simp

text \<open>The walk follows the value: where the path leads to a value, the walk reaches its node.\<close>

lemma lookup_index:
  "lookup es k \<noteq> JUndef \<Longrightarrow>
     \<exists>i < length es. fst (es ! i) = k \<and> snd (es ! i) = lookup es k \<and> (\<forall>j < i. fst (es ! j) \<noteq> k)"
proof (induction es k rule: lookup.induct)
  case (2 k' v es k)
  show ?case
  proof (cases "k' = k")
    case True
    then show ?thesis by (intro exI [of _ 0]) simp
  next
    case False
    with 2 obtain i where "i < length es" "fst (es ! i) = k" "snd (es ! i) = lookup es k"
      "\<forall>j < i. fst (es ! j) \<noteq> k" by auto
    with False show ?thesis by (intro exI [of _ "Suc i"]) (auto simp: less_Suc_eq_0_disj)
  qed
qed simp

lemma denotes_pair:
  assumes "denotes n (JObj a es)" and "lookup es k \<noteq> JUndef"
  shows "\<exists>m. denotes m (lookup es k) \<and> child m n \<and>
    (\<forall>x. \<exists>y. \<forall>ts. nearest_from (Some n) x (Name k # ts) = nearest_from (Some m) y ts)"
proof -
  obtain r items where mapping: "n = Map_node r items"
    "map (key_value \<circ> fst) items = map (JStr \<circ> fst) es"
    "\<And>i. i < length es \<Longrightarrow> \<exists>m. snd (items ! i) = Some m \<and> denotes m (snd (es ! i))"
    using assms(1) by (auto simp: denotes_object)
  obtain i where i: "i < length es" "fst (es ! i) = k" "snd (es ! i) = lookup es k"
    "\<forall>j < i. fst (es ! j) \<noteq> k" using lookup_index [OF assms(2)] by blast
  have len: "length items = length es" using mapping(2) map_eq_imp_length_eq by blast
  have keys: "key_value (fst (items ! j)) = JStr (fst (es ! j))" if "j < length es" for j
    using mapping(2) that len by (metis comp_apply nth_map)
  then have pair: "find_pair k items = Some (items ! i)"
    using i len by (auto simp: find_pair_def find_Some_iff case_prod_beta intro!: exI [of _ i])
  obtain m where m: "snd (items ! i) = Some m" "denotes m (lookup es k)"
    using mapping(3) i by metis
  then have "child m n" using mapping(1) i(1) len nth_mem by fastforce
  moreover have "nearest_from (Some n) x (Name k # ts) = nearest_from (Some m) (fst (items ! i)) ts" for x ts
    using pair m(1) mapping(1) by (cases "items ! i") simp
  ultimately show ?thesis using m(2) by blast
qed

lemma denotes_item:
  assumes "denotes n (JArr a vs)" and "i < length vs"
  shows "\<exists>m. denotes m (vs ! i) \<and> child m n \<and>
    (\<forall>x ts. nearest_from (Some n) x (Position i # ts) = nearest_from (Some m) (Some m) ts)"
proof -
  obtain r items where seq: "n = Seq_node r items" "length items = length vs"
    "\<And>i. i < length vs \<Longrightarrow> \<exists>m. items ! i = Some m \<and> denotes m (vs ! i)"
    using assms(1) by (auto simp: denotes_array)
  then obtain m where "items ! i = Some m" "denotes m (vs ! i)" using assms(2) by blast
  with seq assms(2) show ?thesis by (intro exI [of _ m]) (force simp: in_set_conv_nth)
qed

lemma nearest_follows:
  "denotes n v \<Longrightarrow> value_at v ss = Some w \<Longrightarrow>
     \<exists>m. denotes m w \<and> part_of m n \<and> (\<forall>x. \<exists>y. \<forall>ts. nearest_from (Some n) x (ss @ ts) = nearest_from (Some m) y ts)"
proof (induction ss arbitrary: n v)
  case (Cons s ss)
  obtain u m where u: "value_at u ss = Some w" "denotes m u" "child m n"
    "\<forall>x. \<exists>y. \<forall>ts. nearest_from (Some n) x (s # ts) = nearest_from (Some m) y ts"
  proof -
    consider (key) a es k where "v = JObj a es" "s = Name k" "lookup es k \<noteq> JUndef"
        "value_at (lookup es k) ss = Some w"
      | (item) a vs i where "v = JArr a vs" "s = Position i" "i < length vs" "value_at (vs ! i) ss = Some w"
      using Cons.prems(2) by (cases v; cases s) (auto split: if_splits)
    then show ?thesis
    proof cases
      case key
      then show ?thesis using denotes_pair [of n a es k] Cons.prems(1) that by blast
    next
      case item
      then show ?thesis using denotes_item [of n a vs i] Cons.prems(1) that by blast
    qed
  qed
  from Cons.IH [OF u(2,1)] obtain m' where m': "denotes m' w" "part_of m' m"
    "\<forall>x. \<exists>y. \<forall>ts. nearest_from (Some m) x (ss @ ts) = nearest_from (Some m') y ts" by blast
  moreover have "part_of m' n" using m'(2) u(3) by (meson rtranclp.rtrancl_into_rtrancl)
  ultimately show ?case using u(4) by (metis append_Cons)
qed auto

lemma nearest_at_item:
  assumes "denotes root v" and "value_at v (ss @ [Position i]) = Some w"
  shows "\<exists>m. denotes m w \<and> part_of m root \<and>
    (\<forall>x ts. nearest_from (Some root) x (ss @ Position i # ts) = nearest_from (Some m) (Some m) ts)"
proof -
  obtain u where u: "value_at v ss = Some u" "value_at u [Position i] = Some w"
    using assms(2) by (auto simp: value_at_append bind_eq_Some_conv)
  obtain n where n: "denotes n u" "part_of n root"
    "\<forall>x. \<exists>y. \<forall>ts. nearest_from (Some root) x (ss @ ts) = nearest_from (Some n) y ts"
    using nearest_follows [OF assms(1) u(1)] by blast
  obtain a vs where vs: "u = JArr a vs" "i < length vs" "w = vs ! i"
    using u(2) by (cases u) (auto split: if_splits)
  obtain m where m: "denotes m w" "child m n"
    "\<forall>x ts. nearest_from (Some n) x (Position i # ts) = nearest_from (Some m) (Some m) ts"
    using denotes_item [of n a vs i] n(1) vs by blast
  have "part_of m root" using m(2) n(2) by (meson converse_rtranclp_into_rtranclp)
  moreover have "nearest_from (Some root) x (ss @ Position i # ts) = nearest_from (Some m) (Some m) ts" for x ts
    using n(3) m(3) by metis
  ultimately show ?thesis using m(1) by blast
qed

section \<open>Properties\<close>

text \<open>C17: "Go to" is right about containers: for a document without aliases, whose keys are
  texts with the integer-like ones first and ascending, the place shown for any
  finding about a container is a node inside the syntax of that very container, never another one
  and never the enclosing list, whatever the finding's path goes on to say.\<close>

theorem container_findings_located_inside:
  assumes "denotes root resource"
    and "pod_containers (pod_context resource) = Some cs" and "c \<in> set cs"
    and "container_rules (pod_context resource) c = Some fs" and "f \<in> set fs"
  shows "\<exists>n m. denotes n (c_raw c) \<and> part_of n root \<and>
    nearest_node_at_path (Some root) (path_segments (f_path f)) = Some m \<and> part_of m n"
proof -
  obtain ss i where at: "c_path c = render_path (ss @ [Position i])" "list_all readable ss"
    "value_at resource (ss @ [Position i]) = Some (c_raw c)"
    using container_at_path [OF assms(2,3)] by blast
  obtain n where n: "denotes n (c_raw c)" "part_of n root"
    "\<forall>x ts. nearest_from (Some root) x (ss @ Position i # ts) = nearest_from (Some n) (Some n) ts"
    using nearest_at_item [OF assms(1) at(3)] by blast
  obtain t where t: "f_path f = c_path c @ t"
    using inside_container_group [of c "pod_context resource" "to_str (c_name c)"] assms(4,5)
    by (auto simp: every_def container_rules_def inside_def prefix_def)
  have "path_segments (f_path f) = ss @ Position i # path_segments t"
    using path_segments_render [of "ss @ [Position i]" t] at(1,2) t by simp
  then have "nearest_node_at_path (Some root) (path_segments (f_path f)) =
      nearest_from (Some n) (Some n) (path_segments t)"
    using n(3) by (simp add: nearest_node_at_path_def)
  with nearest_inside [of n n "Some n"] n(1,2) show ?thesis by fastforce
qed

text \<open>Every value has a syntax; a Pod with one bare container is the witness.\<close>

fun syntax_of :: "jsval \<Rightarrow> node" where
  "syntax_of (JArr _ vs) = Seq_node (Some 0) (map (\<lambda>v. Some (syntax_of v)) vs)"
| "syntax_of (JObj _ es) =
     Map_node (Some 0) (map (\<lambda>(k, v). (Some (Scalar_node (Some 0) (JStr k)), Some (syntax_of v))) es)"
| "syntax_of v = Scalar_node (Some 0) v"

lemma denotes_syntax_of: "denotes (syntax_of v) v"
proof (induction v)
  case (JArr a vs)
  then show ?case by (auto intro!: denotes.seq)
next
  case (JObj a es)
  have "denotes (syntax_of (snd (es ! i))) (snd (es ! i))" if "i < length es" for i
    using JObj [of "es ! i" "snd (es ! i)"] nth_mem [OF that] by (cases "es ! i") auto
  then show ?case by (auto intro!: denotes.mapping simp: case_prod_beta)
qed (auto intro: denotes.scalar)

definition bare_manifest :: jsval where
  "bare_manifest = JObj 4 [(lit ''kind'', jlit ''Pod''),
     (lit ''spec'', JObj 5 [(lit ''containers'', JArr 6 [bare_container])])]"

lemma container_findings_located_inside_witness:
  "\<exists>n m. denotes n bare_container \<and> part_of n (syntax_of bare_manifest) \<and>
     nearest_node_at_path (Some (syntax_of bare_manifest))
       (path_segments (lit ''.spec.containers[0].securityContext.readOnlyRootFilesystem'')) = Some m \<and>
     part_of m n"
proof -
  let ?path = "lit ''.spec.containers[0]''"
  have pod: "pod_context bare_manifest = \<lparr>pod_spec = JObj 5 [(lit ''containers'', JArr 6 [bare_container])],
      pod_path = lit ''.spec'', pod_labels = JObj 0 []\<rparr>"
    by (simp add: pod_context_def kind_of_def bare_manifest_def is_lit_def js_object_def)
  have "list_path (pod_context bare_manifest) ''containers'' 0 = ?path"
    by (simp add: pod list_path_def nat_text.simps lit_Cons cu_def)
  then have cs: "pod_containers (pod_context bare_manifest) = Some [bare_container_at ?path]"
    by (simp add: pod_containers_def pod traverse_indexed_def js_array_def bare_summary)
  note rules = bare_rules [of "pod_context bare_manifest" ?path, unfolded pod pod.simps, simplified]
  have "f_path (writable_root (lit ''unnamed'') ?path) =
      lit ''.spec.containers[0].securityContext.readOnlyRootFilesystem''"
    by (simp add: writable_root_def lit_append [symmetric])
  moreover have "\<exists>n m. denotes n (c_raw (bare_container_at ?path)) \<and> part_of n (syntax_of bare_manifest) \<and>
      nearest_node_at_path (Some (syntax_of bare_manifest))
        (path_segments (f_path (writable_root (lit ''unnamed'') ?path))) = Some m \<and> part_of m n"
    by (rule container_findings_located_inside [OF denotes_syntax_of cs]) (auto simp: pod rules)
  ultimately show ?thesis by (simp add: bare_container_at_def)
qed




end
