(* ===== verification/Analyze.thy ===== *)
theory Analyze
  imports Locations "HOL-Library.Multiset"
begin

text \<open>
  The analysis of a source text (\<open>analyzeYaml\<close>) and its formatting (\<open>formatYaml\<close>), the two entry
  points of \<open>analyze.js\<close>.

  What the program takes from outside is one record, \<open>host\<close>: the parser and the printer of the
  \<open>yaml\<close> package, the generated schema validators and the case mappings of the JavaScript engine.
  A parsed document carries what \<open>parseAllDocuments\<close> documents of it; \<open>to_js\<close> is the result of its
  \<open>toJS({ maxAliasCount: 100 })\<close>, \<open>None\<close> when the call throws: on an alias that nothing anchors, or on
  aliases that multiply beyond the limit. \<open>stringify\<close> is \<open>None\<close> when \<open>toString\<close> throws.
\<close>

section \<open>Model\<close>

record problem =
  problem_message :: jstr
  problem_line_pos :: "(nat \<times> nat) option"
  problem_offset :: "nat option"

record parsed_document =
  contents :: "node option"
  range_start :: "nat option"
  problems :: "problem list"
  cautions :: "problem list"
  to_js :: "jsval option"

record host =
  parse :: "jstr \<Rightarrow> parsed_document list \<times> (nat \<Rightarrow> nat \<times> nat)"
  stringify :: "parsed_document \<Rightarrow> jstr option"
  validators :: "jstr \<Rightarrow> validator option"
  upper :: "jstr \<Rightarrow> jstr"
  lower :: "jstr \<Rightarrow> jstr"

datatype mode = Kubernetes | General | Other_mode jstr

datatype thrown = Type_error | To_js_error | Unsupported_mode jstr | Yaml_error problem | Print_error

record diagnostic =
  diag_document :: nat
  diag_message :: jstr
  diag_line :: nat
  diag_column :: nat

text \<open>
  The result. \<open>result.documents\<close> holds only resources in Kubernetes mode and only general documents
  in General mode; here it is the fields \<open>resources_of\<close> and \<open>generals_of\<close>.
\<close>

record analysis =
  mode_of :: mode
  resources_of :: "document list"
  generals_of :: "general_document list"
  all_errors :: "diagnostic list"
  all_warnings :: "diagnostic list"
  syntax_errors :: "diagnostic list"
  syntax_warnings :: "diagnostic list"
  document_errors :: "diagnostic list"
  owasp_profile :: "profile_entry list"

definition empty_analysis :: "mode \<Rightarrow> analysis" where
  "empty_analysis m = \<lparr>mode_of = m, resources_of = [], generals_of = [], all_errors = [],
     all_warnings = [], syntax_errors = [], syntax_warnings = [], document_errors = [], owasp_profile = []\<rparr>"

definition default_to :: "'a option \<Rightarrow> 'a \<Rightarrow> 'a" where
  "default_to a b = (case a of Some x \<Rightarrow> x | None \<Rightarrow> b)"

definition diagnose :: "(nat \<Rightarrow> nat \<times> nat) \<Rightarrow> parsed_document \<Rightarrow> nat \<Rightarrow> problem \<Rightarrow> diagnostic" where
  "diagnose line_pos p number item =
     (let position = default_to (problem_line_pos item)
        (line_pos (default_to (problem_offset item) (default_to (range_start p) 0)))
      in \<lparr>diag_document = number, diag_message = problem_message item,
           diag_line = fst position, diag_column = snd position\<rparr>)"

definition not_a_mapping :: "(nat \<Rightarrow> nat \<times> nat) \<Rightarrow> parsed_document \<Rightarrow> nat \<Rightarrow> diagnostic" where
  "not_a_mapping line_pos p number =
     (let position = line_pos (default_to (range_start p) 0)
      in \<lparr>diag_document = number,
           diag_message = lit ''A Kubernetes manifest must be a YAML mapping/object at its root.'',
           diag_line = fst position, diag_column = snd position\<rparr>)"

fun is_mapping :: "jsval \<Rightarrow> bool" where
  "is_mapping (JObj _ _) = True"
| "is_mapping _ = False"

definition collect_problems ::
  "(nat \<Rightarrow> nat \<times> nat) \<Rightarrow> parsed_document \<Rightarrow> nat \<Rightarrow> analysis \<Rightarrow> analysis" where
  "collect_problems line_pos p number a =
     (let errors = map (diagnose line_pos p number) (problems p);
          warnings = map (diagnose line_pos p number) (cautions p)
      in a\<lparr>syntax_errors := syntax_errors a @ errors, all_errors := all_errors a @ errors,
           syntax_warnings := syntax_warnings a @ warnings, all_warnings := all_warnings a @ warnings\<rparr>)"

definition analyze_document ::
  "host \<Rightarrow> (nat \<Rightarrow> nat \<times> nat) \<Rightarrow> nat \<Rightarrow> parsed_document \<Rightarrow> analysis \<Rightarrow> thrown + analysis" where
  "analyze_document host line_pos number p given =
     (let a = collect_problems line_pos p number given in
      if problems p \<noteq> [] \<or> contents p = None then Inr a
      else case to_js p of
        None \<Rightarrow> Inl To_js_error
      | Some value \<Rightarrow>
          if mode_of a = Kubernetes \<and> \<not> is_mapping value then
            Inr (a\<lparr>document_errors := document_errors a @ [not_a_mapping line_pos p number],
              all_errors := all_errors a @ [not_a_mapping line_pos p number]\<rparr>)
          else if mode_of a = Kubernetes then
            (case (summarize_resource value number,
                   validate_kubernetes_resource (upper host) (validators host) value) of
               (Some d, Some r) \<Rightarrow> Inr (a\<lparr>resources_of := resources_of a @ [d\<lparr>schema := Some r\<rparr>]\<rparr>)
             | _ \<Rightarrow> Inl Type_error)
          else Inr (a\<lparr>generals_of := generals_of a @ [summarize_general_document value number]\<rparr>))"

fun analyze_documents ::
  "host \<Rightarrow> (nat \<Rightarrow> nat \<times> nat) \<Rightarrow> nat \<Rightarrow> parsed_document list \<Rightarrow> analysis \<Rightarrow> thrown + analysis" where
  "analyze_documents host line_pos number [] a = Inr a"
| "analyze_documents host line_pos number (p # ps) a =
     (case analyze_document host line_pos number p a of
        Inl e \<Rightarrow> Inl e
      | Inr a' \<Rightarrow> analyze_documents host line_pos (number + 1) ps a')"

definition finish_kubernetes ::
  "(nat \<Rightarrow> nat \<times> nat) \<Rightarrow> parsed_document list \<Rightarrow> analysis \<Rightarrow> thrown + analysis" where
  "finish_kubernetes line_pos parsed a =
     (case add_bundle_findings (resources_of a) of
        None \<Rightarrow> Inl Type_error
      | Some ds \<Rightarrow>
          let located = attach_finding_locations line_pos (map contents parsed) ds
          in Inr (a\<lparr>resources_of := located, owasp_profile := build_owasp_profile located\<rparr>))"

definition analyze_yaml :: "host \<Rightarrow> jstr \<Rightarrow> mode \<Rightarrow> thrown + analysis" where
  "analyze_yaml host source m =
     (if trim source = [] then Inr (empty_analysis m)
      else case m of
        Other_mode name \<Rightarrow> Inl (Unsupported_mode name)
      | _ \<Rightarrow>
        (case parse host source of (parsed, line_pos) \<Rightarrow>
         case analyze_documents host line_pos 1 parsed (empty_analysis m) of
           Inl e \<Rightarrow> Inl e
         | Inr a \<Rightarrow> if m = Kubernetes then finish_kubernetes line_pos parsed a else Inr a))"

definition format_yaml :: "host \<Rightarrow> jstr \<Rightarrow> thrown + jstr" where
  "format_yaml host source =
     (let parsed = fst (parse host source) in
      case concat (map problems parsed) of
        e # _ \<Rightarrow> Inl (Yaml_error e)
      | [] \<Rightarrow>
          (case traverse (stringify host) (filter (\<lambda>p. contents p \<noteq> None) parsed) of
             None \<Rightarrow> Inl Print_error
           | Some texts \<Rightarrow>
               let output = join (lf # lit ''---'' @ [lf]) (map trim_end texts)
               in Inr (if output = [] then [] else output @ [lf])))"

section \<open>Laws\<close>

text \<open>The documents that are evaluated, with their numbers: parsed without error and not empty.\<close>

definition evaluated :: "nat \<Rightarrow> parsed_document list \<Rightarrow> (nat \<times> jsval) list" where
  "evaluated n ps = concat (map (\<lambda>(i, p).
     if problems p = [] \<and> contents p \<noteq> None then [(i, the (to_js p))] else []) (enumerate n ps))"

definition problem_numbers :: "nat \<Rightarrow> parsed_document list \<Rightarrow> nat list" where
  "problem_numbers n ps = concat (map (\<lambda>(i, p). replicate (length (problems p)) i) (enumerate n ps))"

lemma evaluated_simps [simp]:
  "evaluated n [] = []"
  "evaluated n (p # ps) = (if problems p = [] \<and> contents p \<noteq> None then [(n, the (to_js p))] else [])
     @ evaluated (Suc n) ps"
  "problem_numbers n [] = []"
  "problem_numbers n (p # ps) = replicate (length (problems p)) n @ problem_numbers (Suc n) ps"
  by (simp_all add: evaluated_def problem_numbers_def)

lemma collect_fields [simp]:
  "mode_of (collect_problems lp p n a) = mode_of a"
  "resources_of (collect_problems lp p n a) = resources_of a"
  "generals_of (collect_problems lp p n a) = generals_of a"
  "document_errors (collect_problems lp p n a) = document_errors a"
  "owasp_profile (collect_problems lp p n a) = owasp_profile a"
  "map diag_document (syntax_errors (collect_problems lp p n a)) =
     map diag_document (syntax_errors a) @ replicate (length (problems p)) n"
  by (simp_all add: collect_problems_def Let_def diagnose_def comp_def map_replicate_const)

lemma summarize_resource_SomeD:
  assumes "summarize_resource v i = Some d"
  shows "index d = i" "raw d = v" "schema d = None"
    "\<exists>cs. pod_containers (pod_context v) = Some cs \<and> findings v cs (pod_context v) = Some (doc_findings d)"
    "\<And>p. p \<in> set (service_ports d) \<Longrightarrow> p \<in> set (js_array (opt_path v [''spec'', ''ports'']))"
proof -
  have "\<not> nullish v" using assms by (cases v) (auto simp: summarize_resource_def)
  then show "index d = i" "raw d = v" "schema d = None"
    "\<exists>cs. pod_containers (pod_context v) = Some cs \<and> findings v cs (pod_context v) = Some (doc_findings d)"
    "\<And>p. p \<in> set (service_ports d) \<Longrightarrow> p \<in> set (js_array (opt_path v [''spec'', ''ports'']))"
    using assms
    by (auto simp: summarize_resource_def get_Some_opt_get Let_def bind_eq_Some_conv split: if_splits)
qed

lemma summarize_general_fields [simp]:
  "gen_index (summarize_general_document v i) = i" "gen_raw (summarize_general_document v i) = v"
  by (simp_all add: summarize_general_document_def Let_def)

text \<open>What the loop over the documents does to the result, in each mode.\<close>

definition summary_of :: "host \<Rightarrow> document \<Rightarrow> bool" where
  "summary_of host d \<longleftrightarrow> (\<exists>d' r. summarize_resource (raw d) (index d) = Some d' \<and>
     validate_kubernetes_resource (upper host) (validators host) (raw d) = Some r \<and>
     d = d'\<lparr>schema := Some r\<rparr>)"

lemma summary_of_resource:
  assumes "summarize_resource v i = Some d"
    and "validate_kubernetes_resource (upper host) (validators host) v = Some r"
  shows "summary_of host (d\<lparr>schema := Some r\<rparr>)"
  using assms summarize_resource_SomeD(1,2) [OF assms(1)] by (auto simp: summary_of_def)

lemma kubernetes_loop:
  assumes "analyze_documents host lp n ps a = Inr a'" and "mode_of a = Kubernetes"
  shows "mode_of a' = Kubernetes \<and> generals_of a' = generals_of a \<and> owasp_profile a' = owasp_profile a \<and>
    (\<exists>ds. resources_of a' = resources_of a @ ds \<and> (\<forall>d \<in> set ds. summary_of host d) \<and>
       map (\<lambda>d. (index d, raw d)) ds = filter (is_mapping \<circ> snd) (evaluated n ps)) \<and>
    map diag_document (document_errors a') = map diag_document (document_errors a)
      @ map fst (filter (Not \<circ> is_mapping \<circ> snd) (evaluated n ps)) \<and>
    map diag_document (syntax_errors a') = map diag_document (syntax_errors a) @ problem_numbers n ps"
  using assms
proof (induction ps arbitrary: n a)
  case (Cons p ps)
  then obtain b where b: "analyze_document host lp n p a = Inr b" "analyze_documents host lp (n + 1) ps b = Inr a'"
    by (auto split: sum.splits)
  have step: "mode_of b = Kubernetes \<and> generals_of b = generals_of a \<and> owasp_profile b = owasp_profile a \<and>
    (\<exists>ds. resources_of b = resources_of a @ ds \<and> (\<forall>d \<in> set ds. summary_of host d) \<and>
       map (\<lambda>d. (index d, raw d)) ds = filter (is_mapping \<circ> snd) (evaluated n [p])) \<and>
    map diag_document (document_errors b) = map diag_document (document_errors a)
      @ map fst (filter (Not \<circ> is_mapping \<circ> snd) (evaluated n [p])) \<and>
    map diag_document (syntax_errors b) = map diag_document (syntax_errors a) @ problem_numbers n [p]"
    using b(1) Cons.prems(2)
    by (auto simp: analyze_document_def Let_def not_a_mapping_def summarize_resource_SomeD(1,2)
        intro: summary_of_resource split: if_splits option.splits)
  from Cons.IH [OF b(2)] step show ?case by auto
qed simp

lemma analyze_document_general:
  assumes "mode_of a = General"
  shows "analyze_document host lp n p a =
    (if problems p = [] \<and> contents p \<noteq> None \<and> to_js p = None then Inl To_js_error
     else Inr ((collect_problems lp p n a)\<lparr>generals_of := generals_of a
       @ map (\<lambda>(i, v). summarize_general_document v i) (evaluated n [p])\<rparr>))"
  using assms by (auto simp: analyze_document_def Let_def collect_problems_def split: option.splits)

text \<open>A document without errors whose \<open>toJS\<close> throws.\<close>

definition unreadable :: "parsed_document \<Rightarrow> bool" where
  "unreadable p \<longleftrightarrow> problems p = [] \<and> contents p \<noteq> None \<and> to_js p = None"

lemma general_loop:
  assumes "mode_of a = General"
  shows "if \<exists>p \<in> set ps. unreadable p then analyze_documents host lp n ps a = Inl To_js_error
    else \<exists>a'. analyze_documents host lp n ps a = Inr a' \<and> mode_of a' = General \<and>
      resources_of a' = resources_of a \<and> document_errors a' = document_errors a \<and>
      owasp_profile a' = owasp_profile a \<and>
      generals_of a' = generals_of a @ map (\<lambda>(i, v). summarize_general_document v i) (evaluated n ps) \<and>
      map diag_document (syntax_errors a') = map diag_document (syntax_errors a) @ problem_numbers n ps"
  using assms
proof (induction ps arbitrary: n a)
  case (Cons p ps)
  show ?case
  proof (cases "unreadable p")
    case False
    define b where "b = (collect_problems lp p n a)\<lparr>generals_of := generals_of a
       @ map (\<lambda>(i, v). summarize_general_document v i) (evaluated n [p])\<rparr>"
    have step: "mode_of b = General" "analyze_document host lp n p a = Inr b"
      using False Cons.prems by (auto simp: analyze_document_general b_def unreadable_def)
    have fields: "resources_of b = resources_of a" "document_errors b = document_errors a"
      "owasp_profile b = owasp_profile a"
      "generals_of b = generals_of a @ map (\<lambda>(i, v). summarize_general_document v i) (evaluated n [p])"
      "map diag_document (syntax_errors b) = map diag_document (syntax_errors a) @ problem_numbers n [p]"
      by (simp_all add: b_def)
    show ?thesis using Cons.IH [OF step(1), of "Suc n"] False step(2)
      by (auto simp: fields split: if_splits)
  qed (use Cons.prems in \<open>simp add: analyze_document_general unreadable_def\<close>)
qed simp

lemma syntax_loop:
  "analyze_documents host lp n ps a = Inr a' \<Longrightarrow>
   syntax_errors a' = syntax_errors a
     @ concat (map (\<lambda>(i, p). map (diagnose lp p i) (problems p)) (enumerate n ps))"
proof (induction ps arbitrary: n a)
  case (Cons p ps)
  then obtain b where b: "analyze_document host lp n p a = Inr b" "analyze_documents host lp (n + 1) ps b = Inr a'"
    by (auto split: sum.splits)
  then have "syntax_errors b = syntax_errors a @ map (diagnose lp p n) (problems p)"
    by (auto simp: analyze_document_def Let_def collect_problems_def split: if_splits option.splits)
  with Cons.IH [OF b(2)] show ?case by simp
qed simp

text \<open>The list of all errors is made of the syntax errors and the document errors.\<close>

definition ledger :: "analysis \<Rightarrow> bool" where
  "ledger a \<longleftrightarrow> mset (all_errors a) = mset (syntax_errors a) + mset (document_errors a)"

lemma ledger_loop: "analyze_documents host lp n ps a = Inr a' \<Longrightarrow> ledger a \<Longrightarrow> ledger a'"
proof (induction ps arbitrary: n a)
  case (Cons p ps)
  then obtain b where b: "analyze_document host lp n p a = Inr b" "analyze_documents host lp (n + 1) ps b = Inr a'"
    by (auto split: sum.splits)
  then have "ledger b"
    using Cons.prems(2)
    by (auto simp: ledger_def analyze_document_def Let_def collect_problems_def split: if_splits option.splits)
  with Cons.IH [OF b(2)] show ?case by simp
qed simp

lemma ledger_empty [simp]: "ledger (empty_analysis m)"
  by (simp add: ledger_def empty_analysis_def)

text \<open>The two steps that follow the loop keep every document's identity.\<close>

definition skeleton :: "document \<Rightarrow> nat \<times> jsval \<times> bool" where
  "skeleton d = (index d, raw d, schema d = None)"

lemma bundle_skeleton: "add_bundle_findings ds = Some ds' \<Longrightarrow> map skeleton ds' = map skeleton ds"
  using bundle_shape [of ds ds'] by (auto simp: list_eq_iff_nth_eq skeleton_def)

lemma attach_skeleton: "map skeleton (attach_finding_locations lp ps ds) = map skeleton ds"
  by (simp add: attach_finding_locations_def Let_def skeleton_def comp_def)

lemma finish_fields:
  assumes "finish_kubernetes lp parsed a = Inr a'"
  shows "map skeleton (resources_of a') = map skeleton (resources_of a)"
    "generals_of a' = generals_of a" "document_errors a' = document_errors a"
    "syntax_errors a' = syntax_errors a" "all_errors a' = all_errors a"
    "owasp_profile a' = build_owasp_profile (resources_of a')"
  using assms bundle_skeleton attach_skeleton
  by (auto simp: finish_kubernetes_def Let_def split: option.splits)

lemma analyze_kubernetes:
  assumes "analyze_yaml host source Kubernetes = Inr a" "trim source \<noteq> []" "parse host source = (ps, lp)"
  obtains b where "analyze_documents host lp 1 ps (empty_analysis Kubernetes) = Inr b"
    "finish_kubernetes lp ps b = Inr a"
  using assms by (auto simp: analyze_yaml_def split: sum.splits)

subsection \<open>What holds of every finding\<close>

text \<open>
  A property of findings that the rules, the checks across documents and the duplicate check
  establish and that locating a finding keeps: it holds of every finding of an inspection, wherever
  that comes from.
\<close>

locale finding_invariant =
  fixes P :: "finding \<Rightarrow> bool"
  assumes rules: "every P (findings resource cs pod)"
    and services: "every P (service_findings ds d)"
    and duplicate: "P (duplicate_identity d)"
    and locate: "P f \<Longrightarrow> P (locate_finding lp n f)"
begin

definition holds :: "document list \<Rightarrow> bool" where
  "holds ds \<longleftrightarrow> (\<forall>d \<in> set ds. \<forall>f \<in> set (doc_findings d). P f)"

lemma summary_holds:
  assumes "summary_of host d" and "f \<in> set (doc_findings d)"
  shows "P f"
proof -
  obtain d' where d': "summarize_resource (raw d) (index d) = Some d'" "doc_findings d = doc_findings d'"
    using assms(1) by (auto simp: summary_of_def)
  obtain cs where "findings (raw d) cs (pod_context (raw d)) = Some (doc_findings d')"
    using summarize_resource_SomeD(4) [OF d'(1)] by blast
  with assms(2) d'(2) rules show ?thesis by (metis every_Some)
qed

lemma bundle_holds:
  assumes "add_bundle_findings ds = Some ds'" and "holds ds"
  shows "holds ds'"
  unfolding holds_def
proof (intro ballI)
  fix d f assume d: "d \<in> set ds'" "f \<in> set (doc_findings d)"
  then obtain j where j: "j < length ds" "d = ds' ! j" using bundle_shape [OF assms(1)] by (metis in_set_conv_nth)
  obtain post where post: "service_findings ds (ds ! j) = Some post"
    "d = (ds ! j)\<lparr>doc_findings :=
      (case duplicate_of (take j ds) (ds ! j) of Some c \<Rightarrow> [duplicate_identity c] | None \<Rightarrow> [])
      @ doc_findings (ds ! j) @ post\<rparr>"
    using bundle_shape [OF assms(1)] j by blast
  have "\<forall>f \<in> set post. P f" using services [of ds "ds ! j"] post(1) by (simp add: every_Some)
  moreover have "\<forall>f \<in> set (doc_findings (ds ! j)). P f"
    using assms(2) nth_mem [OF j(1)] unfolding holds_def by blast
  ultimately show "P f" using d(2) post(2) duplicate by (auto split: option.splits)
qed

lemma attach_holds: "holds ds \<Longrightarrow> holds (attach_finding_locations lp ps ds)"
  using locate by (auto simp: holds_def attach_finding_locations_def Let_def)

lemma analysis_holds:
  assumes "analyze_yaml host source Kubernetes = Inr a" and "d \<in> set (resources_of a)"
    and "f \<in> set (doc_findings d)"
  shows "P f"
proof (cases "trim source = []")
  case False
  obtain ps lp where parsed: "parse host source = (ps, lp)" by fastforce
  obtain b where b: "analyze_documents host lp 1 ps (empty_analysis Kubernetes) = Inr b"
    "finish_kubernetes lp ps b = Inr a"
    by (rule analyze_kubernetes [OF assms(1) False parsed])
  have "holds (resources_of b)"
    using kubernetes_loop [OF b(1)] summary_holds by (auto simp: empty_analysis_def holds_def)
  then have "holds (resources_of a)"
    using b(2) bundle_holds attach_holds by (auto simp: finish_kubernetes_def Let_def split: option.splits)
  with assms(2,3) show ?thesis by (auto simp: holds_def)
qed (use assms in \<open>auto simp: analyze_yaml_def empty_analysis_def\<close>)

end

text \<open>Findings are coherent.\<close>

lemma every_service:
  assumes "P selector_without_workload" and "\<And>i t. P (unknown_target_port i t)"
  shows "every P (service_findings ds d)"
proof -
  have "every P (gather_indexed (\<lambda>i p. map_option (\<lambda>target.
      when_found (is_string target \<and> target \<notin> set (port_names ws))
        (unknown_target_port i (text_of target))) (get p (lit ''targetPort''))) ps)" for ws ps
    by (rule every_gather_indexed) (use assms(2) in \<open>auto simp: every_def when_found_mem\<close>)
  then show ?thesis
    using assms(1) by (auto simp: service_findings_def Let_def every_Some)
qed

lemma coherent_locate [simp]: "coherent (locate_finding lp n f) = coherent f"
  by (auto simp: coherent_def locate_finding_def split: option.splits)

interpretation coherent: finding_invariant coherent
proof
  show "every coherent (findings resource cs pod)" for resource cs pod by (rule coherent_findings)
  show "every coherent (service_findings ds d)" for ds d
    by (rule every_service) (simp_all add: selector_without_workload_def unknown_target_port_def coherent_plain)
qed (simp_all add: duplicate_identity_def coherent_plain)

text \<open>When the stages return.\<close>

lemma evaluatedE:
  assumes "(i, v) \<in> set (evaluated n ps)"
  obtains p where "p \<in> set ps" "problems p = []" "contents p \<noteq> None" "v = the (to_js p)"
  using assms by (induction ps arbitrary: n) (auto split: if_splits)

lemma validate_returns:
  assumes "\<And>key check es e. table key = Some check \<Longrightarrow> check v = (False, Some es) \<Longrightarrow>
      e \<in> set es \<Longrightarrow> documented e"
  shows "\<exists>r. validate_kubernetes_resource up table v = Some r"
proof (cases "\<exists>av k. opt_get v (lit ''apiVersion'') = JStr av \<and> opt_get v (lit ''kind'') = JStr k \<and> av \<noteq> [] \<and> k \<noteq> []")
  case False
  then have "\<not> (is_string (opt_get v (lit ''apiVersion'')) \<and> is_string (opt_get v (lit ''kind''))
      \<and> truthy (opt_get v (lit ''apiVersion'')) \<and> truthy (opt_get v (lit ''kind'')))"
    by (auto simp: is_string_def split: jsval.splits)
  from unnamed_verdict [OF this] show ?thesis by blast
next
  case True
  then obtain av k where id: "opt_get v (lit ''apiVersion'') = JStr av"
    "opt_get v (lit ''kind'') = JStr k" "av \<noteq> []" "k \<noteq> []" by blast
  have "\<exists>es. traverse (schema_mismatch up) (case snd (f v) of None \<Rightarrow> [] | Some es \<Rightarrow> es) = Some es"
    if f: "table (resource_key av k) = Some f" and no: "\<not> fst (f v)" for f
  proof (rule traverse_total)
    fix e assume e: "e \<in> set (case snd (f v) of None \<Rightarrow> [] | Some es \<Rightarrow> es)"
    then obtain es where "f v = (False, Some es)" "e \<in> set es"
      using no by (cases "f v") (auto split: option.splits)
    then show "schema_mismatch up e \<noteq> None" using assms [OF f] documented_mismatch by blast
  qed
  then show ?thesis
    unfolding named_verdict [OF id] Let_def by (auto split: option.splits)
qed

lemma tame_loop:
  assumes "\<And>p. p \<in> set ps \<Longrightarrow> problems p = [] \<Longrightarrow> contents p \<noteq> None \<Longrightarrow> \<exists>v. to_js p = Some v \<and> tame v"
    and "\<And>key check v es e. validators host key = Some check \<Longrightarrow> check v = (False, Some es) \<Longrightarrow>
      e \<in> set es \<Longrightarrow> documented e"
    and "mode_of a = Kubernetes"
  shows "\<exists>b. analyze_documents host lp n ps a = Inr b"
  using assms(1,3)
proof (induction ps arbitrary: n a)
  case (Cons p ps)
  have "\<exists>b. analyze_document host lp n p a = Inr b \<and> mode_of b = Kubernetes"
  proof (cases "problems p = [] \<and> contents p \<noteq> None")
    case True
    then obtain v where v: "to_js p = Some v" "tame v" using Cons.prems(1) [of p] by auto
    obtain r where r: "validate_kubernetes_resource (upper host) (validators host) v = Some r"
      using validate_returns [of "validators host" v "upper host"] assms(2) by blast
    have "\<exists>d. summarize_resource v n = Some d" if "is_mapping v"
      by (rule tame_resource) (use that v in \<open>auto elim: is_mapping.elims\<close>)
    with True v r Cons.prems(2) show ?thesis
      by (auto simp: analyze_document_def Let_def)
  qed (use Cons.prems in \<open>auto simp: analyze_document_def Let_def\<close>)
  then obtain b where "analyze_document host lp n p a = Inr b" "mode_of b = Kubernetes" by blast
  then show ?case using Cons.IH [of b "n + 1"] Cons.prems(1) by simp
qed simp

lemma tame_bundle:
  assumes "\<forall>d \<in> set ds. summary_of host d \<and> tame (raw d)"
  shows "\<exists>ds'. add_bundle_findings ds = Some ds'"
proof -
  have "service_findings ds d \<noteq> None" if "d \<in> set ds" for d
  proof -
    obtain d' where d': "summarize_resource (raw d) (index d) = Some d'" "service_ports d = service_ports d'"
      using assms \<open>d \<in> set ds\<close> by (auto simp: summary_of_def)
    have "\<not> nullish p" if "p \<in> set (service_ports d)" for p
      using summarize_resource_SomeD(5) [OF d'(1)] that d'(2) tame_array assms \<open>d \<in> set ds\<close> by (metis tame_path)
    then have "gather_indexed (\<lambda>i p. map_option (f i) (get p k)) (service_ports d) \<noteq> None" for f k
      by (auto simp: gather_indexed_None_iff)
    then show ?thesis by (simp add: service_findings_def Let_def)
  qed
  then show ?thesis unfolding add_bundle_findings_def by (intro traverse_indexed_total) auto
qed

lemma messages_of:
  "map diag_message (concat (map (\<lambda>(i, p). map (diagnose lp p i) (problems p)) (enumerate n ps))) =
     map problem_message (concat (map problems ps))"
  by (induction ps arbitrary: n) (simp_all add: diagnose_def Let_def comp_def)

lemma tame_summaries:
  assumes "analyze_documents host lp 1 ps (empty_analysis Kubernetes) = Inr b"
    and "\<And>p. p \<in> set ps \<Longrightarrow> problems p = [] \<Longrightarrow> contents p \<noteq> None \<Longrightarrow> \<exists>v. to_js p = Some v \<and> tame v"
  shows "\<forall>d \<in> set (resources_of b). summary_of host d \<and> tame (raw d)"
proof -
  obtain ds where ds: "resources_of b = ds" "\<forall>d \<in> set ds. summary_of host d"
    "map (\<lambda>d. (index d, raw d)) ds = filter (is_mapping \<circ> snd) (evaluated 1 ps)"
    using kubernetes_loop [OF assms(1)] by (auto simp: empty_analysis_def)
  have "tame (raw d)" if "d \<in> set ds" for d
  proof -
    have "(index d, raw d) \<in> set (map (\<lambda>d. (index d, raw d)) ds)" using that by force
    then have "(index d, raw d) \<in> set (evaluated 1 ps)" unfolding ds(3) by simp
    then obtain p where "p \<in> set ps" "problems p = []" "contents p \<noteq> None" "raw d = the (to_js p)"
      by (rule evaluatedE)
    then show ?thesis using assms(2) [of p] by auto
  qed
  with ds show ?thesis by blast
qed

lemma kubernetes_returns:
  assumes "\<And>p. p \<in> set (fst (parse host source)) \<Longrightarrow> problems p = [] \<Longrightarrow> contents p \<noteq> None \<Longrightarrow>
      \<exists>v. to_js p = Some v \<and> tame v"
    and "\<And>key check v es e. validators host key = Some check \<Longrightarrow> check v = (False, Some es) \<Longrightarrow>
      e \<in> set es \<Longrightarrow> documented e"
  shows "\<exists>a. analyze_yaml host source Kubernetes = Inr a"
proof -
  obtain ps lp where parsed: "parse host source = (ps, lp)" by fastforce
  obtain b where b: "analyze_documents host lp 1 ps (empty_analysis Kubernetes) = Inr b"
    using tame_loop [of ps host "empty_analysis Kubernetes" lp 1] assms
    by (auto simp: parsed empty_analysis_def)
  have "\<forall>d \<in> set (resources_of b). summary_of host d \<and> tame (raw d)"
    using tame_summaries [OF b] assms(1) by (simp add: parsed)
  then obtain ds where "add_bundle_findings (resources_of b) = Some ds"
    using tame_bundle by blast
  with b show ?thesis by (auto simp: analyze_yaml_def parsed finish_kubernetes_def Let_def)
qed

text \<open>A host whose parser finds one document, the Pod with one bare container.\<close>

definition bare_host :: host where
  "bare_host = \<lparr>parse = (\<lambda>_. ([\<lparr>contents = Some (syntax_of bare_manifest), range_start = Some 0,
       problems = [], cautions = [], to_js = Some bare_manifest\<rparr>], \<lambda>_. (1, 1))),
     stringify = (\<lambda>_. Some []), validators = (\<lambda>_. None), upper = id, lower = id\<rparr>"

lemma bare_analysis: "\<exists>a. analyze_yaml bare_host source Kubernetes = Inr a"
  by (rule kubernetes_returns)
    (auto simp: bare_host_def bare_manifest_def bare_container_def indexable_def is_string_def)

section \<open>Properties\<close>

text \<open>C19: an inspection in Kubernetes mode accounts for every document of the file exactly once: a
  document with syntax errors is reported through them and no further, one whose root is not a
  mapping gets one document error, every other non-empty one becomes a resource with its number, its
  unchanged value and a schema verdict, in the order of the file; the error list holds nothing else.\<close>

theorem analysis_accounts_for_documents:
  assumes "analyze_yaml host source Kubernetes = Inr a" and "trim source \<noteq> []"
  shows "let documents = evaluated 1 (fst (parse host source));
      numbers = problem_numbers 1 (fst (parse host source))
    in map (\<lambda>d. (index d, raw d)) (resources_of a) = filter (is_mapping \<circ> snd) documents \<and>
       map diag_document (document_errors a) = map fst (filter (Not \<circ> is_mapping \<circ> snd) documents) \<and>
       map diag_document (syntax_errors a) = numbers \<and>
       mset (all_errors a) = mset (syntax_errors a) + mset (document_errors a) \<and>
       (\<forall>d \<in> set (resources_of a). schema d \<noteq> None) \<and> generals_of a = []"
proof -
  obtain ps lp where parsed: "parse host source = (ps, lp)" by fastforce
  obtain b where b: "analyze_documents host lp 1 ps (empty_analysis Kubernetes) = Inr b"
    "finish_kubernetes lp ps b = Inr a"
    by (rule analyze_kubernetes [OF assms parsed])
  note loop = kubernetes_loop [OF b(1)] and fields = finish_fields [OF b(2)]
  have schema: "\<forall>d \<in> set (resources_of b). schema d \<noteq> None"
    using loop by (auto simp: empty_analysis_def summary_of_def)
  have ids: "map (\<lambda>d. (index d, raw d)) (resources_of a) = map (\<lambda>d. (index d, raw d)) (resources_of b)"
    using arg_cong [OF fields(1), of "map (\<lambda>(i, v, _). (i, v))"] by (simp add: skeleton_def comp_def)
  have "map (\<lambda>d. schema d = None) (resources_of a) = map (\<lambda>d. schema d = None) (resources_of b)"
    using arg_cong [OF fields(1), of "map (\<lambda>(_, _, s). s)"] by (simp add: skeleton_def comp_def)
  with schema have "\<forall>d \<in> set (resources_of a). schema d \<noteq> None"
    by (metis (mono_tags, lifting) image_iff list.set_map)
  moreover have "ledger a"
    using ledger_loop [OF b(1) ledger_empty] fields(3-5) by (simp add: ledger_def)
  ultimately show ?thesis
    using loop fields(2-4) by (auto simp: parsed Let_def ids empty_analysis_def ledger_def)
qed

text \<open>C20: General mode is neutral about schemas and total up to \<open>toJS\<close>: it fails exactly when \<open>toJS\<close> of
  some error-free, non-empty document throws (its aliases multiply beyond the limit, or one has no
  anchor), and otherwise summarises every document in order, without resources, document errors or a
  security profile.\<close>

theorem general_mode_is_neutral:
  assumes "trim source \<noteq> []"
  shows "if \<exists>p \<in> set (fst (parse host source)). unreadable p
    then analyze_yaml host source General = Inl To_js_error
    else \<exists>a. analyze_yaml host source General = Inr a \<and>
      generals_of a = map (\<lambda>(i, v). summarize_general_document v i) (evaluated 1 (fst (parse host source))) \<and>
      resources_of a = [] \<and> document_errors a = [] \<and> owasp_profile a = [] \<and>
      map diag_document (syntax_errors a) = problem_numbers 1 (fst (parse host source)) \<and>
      mset (all_errors a) = mset (syntax_errors a)"
proof -
  obtain ps lp where parsed: "parse host source = (ps, lp)" by fastforce
  note loop = general_loop [of "empty_analysis General" ps host lp 1]
    and books = ledger_loop [of host lp 1 ps "empty_analysis General"]
  show ?thesis
  proof (cases "\<exists>p \<in> set ps. unreadable p")
    case True
    with loop assms show ?thesis by (auto simp: parsed analyze_yaml_def empty_analysis_def)
  next
    case False
    then obtain a where a: "analyze_documents host lp 1 ps (empty_analysis General) = Inr a"
      "resources_of a = []" "document_errors a = []" "owasp_profile a = []"
      "generals_of a = map (\<lambda>(i, v). summarize_general_document v i) (evaluated 1 ps)"
      "map diag_document (syntax_errors a) = problem_numbers 1 ps"
      using loop by (auto simp: empty_analysis_def)
    have "mset (all_errors a) = mset (syntax_errors a)"
      using books [OF a(1) ledger_empty] a(3) by (simp add: ledger_def)
    with a False assms show ?thesis by (simp add: parsed analyze_yaml_def)
  qed
qed

text \<open>C21: an inspection never fails on a file whose values are tame: with validators that report
  documented errors, every stage returns, from the summaries over the rules, the schema verdicts and
  the findings across documents to the locations and the profile.\<close>

theorem analysis_returns:
  assumes "\<And>p. p \<in> set (fst (parse host source)) \<Longrightarrow> problems p = [] \<Longrightarrow> contents p \<noteq> None \<Longrightarrow>
      \<exists>v. to_js p = Some v \<and> tame v"
    and "\<And>key check v es e. validators host key = Some check \<Longrightarrow> check v = (False, Some es) \<Longrightarrow>
      e \<in> set es \<Longrightarrow> documented e"
  shows "\<exists>a. analyze_yaml host source Kubernetes = Inr a"
  using assms by (rule kubernetes_returns)

lemma analysis_returns_witness: "\<exists>a. analyze_yaml bare_host (lit ''kind: Pod'') Kubernetes = Inr a"
  by (rule analysis_returns)
    (auto simp: bare_host_def bare_manifest_def bare_container_def indexable_def is_string_def)

lemma analysis_accounts_for_documents_witness:
  "\<exists>a. analyze_yaml bare_host (lit ''kind: Pod'') Kubernetes = Inr a \<and>
     map (\<lambda>d. (index d, raw d)) (resources_of a) = [(1, bare_manifest)] \<and> all_errors a = []"
proof -
  have source: "trim (lit ''kind: Pod'') \<noteq> []" by (simp add: str_simps)
  obtain a where a: "analyze_yaml bare_host (lit ''kind: Pod'') Kubernetes = Inr a"
    using bare_analysis by blast
  have parsed: "evaluated 1 (fst (parse bare_host (lit ''kind: Pod''))) = [(1, bare_manifest)]"
    "problem_numbers 1 (fst (parse bare_host (lit ''kind: Pod''))) = []" "is_mapping bare_manifest"
    by (simp_all add: bare_host_def bare_manifest_def)
  have "map (\<lambda>d. (index d, raw d)) (resources_of a) = [(1, bare_manifest)]"
    "document_errors a = []" "syntax_errors a = []"
    "mset (all_errors a) = mset (syntax_errors a) + mset (document_errors a)"
    using analysis_accounts_for_documents [OF a source] by (simp_all add: Let_def parsed [simplified])
  with a show ?thesis by simp
qed

lemma general_mode_is_neutral_witness:
  "\<exists>a. analyze_yaml bare_host (lit ''kind: Pod'') General = Inr a \<and> length (generals_of a) = 1"
proof -
  have source: "trim (lit ''kind: Pod'') \<noteq> []" by (simp add: str_simps)
  from general_mode_is_neutral [OF source, of bare_host] show ?thesis
    by (auto simp: bare_host_def unreadable_def)
qed

text \<open>The security profile of an inspection is the profile of its own resources, made of coherent
  findings only, so that no file whatever makes the page claim evidence for an entry that needs
  cluster context.\<close>

theorem analysis_profile_is_sound:
  assumes "analyze_yaml host source Kubernetes = Inr a"
  shows "(\<forall>d \<in> set (resources_of a). \<forall>f \<in> set (doc_findings d). coherent f) \<and>
    (trim source \<noteq> [] \<longrightarrow> owasp_profile a = build_owasp_profile (resources_of a)) \<and>
    (\<forall>e \<in> set (owasp_profile a). p_coverage e = Cluster_context \<longrightarrow> evidence_count e = 0)"
proof (cases "trim source = []")
  case False
  obtain ps lp where parsed: "parse host source = (ps, lp)" by fastforce
  obtain b where b: "finish_kubernetes lp ps b = Inr a"
    by (rule analyze_kubernetes [OF assms False parsed])
  show ?thesis
    using coherent.analysis_holds [OF assms] finish_fields(6) [OF b] no_cluster_evidence [of "resources_of a"]
    by auto
qed (use assms in \<open>auto simp: analyze_yaml_def empty_analysis_def\<close>)

lemma analysis_profile_is_sound_witness:
  "\<exists>a. analyze_yaml bare_host (lit ''kind: Pod'') Kubernetes = Inr a \<and>
     owasp_profile a = build_owasp_profile (resources_of a)"
proof -
  obtain a where a: "analyze_yaml bare_host (lit ''kind: Pod'') Kubernetes = Inr a"
    using bare_analysis by blast
  from analysis_profile_is_sound [OF a] a show ?thesis by (auto simp: str_simps)
qed

text \<open>C22: formatting and inspection agree on what is valid YAML: whenever an inspection of a non-blank
  source returns, in either mode, formatting is refused with a syntax error exactly if the inspection
  lists one, and then with the message of the first one listed; the only other refusal is the printer's
  own, on an error-free document that it cannot print.\<close>

theorem format_refused_iff_syntax_errors:
  assumes "analyze_yaml host source m = Inr a" and "trim source \<noteq> []"
  shows "case format_yaml host source of
      Inl e \<Rightarrow> (\<exists>p rest. e = Yaml_error p \<and> map diag_message (syntax_errors a) = problem_message p # rest) \<or>
        e = Print_error \<and> syntax_errors a = [] \<and>
          (\<exists>p \<in> set (fst (parse host source)). contents p \<noteq> None \<and> problems p = [] \<and> stringify host p = None)
    | Inr output \<Rightarrow> syntax_errors a = []"
proof -
  obtain ps lp where parsed: "parse host source = (ps, lp)" by fastforce
  obtain b where b: "analyze_documents host lp 1 ps (empty_analysis m) = Inr b"
    "syntax_errors a = syntax_errors b"
    using assms finish_fields(4) [of lp ps _ a]
    by (auto simp: analyze_yaml_def parsed split: mode.splits sum.splits if_splits)
  have "map diag_message (syntax_errors a) = map problem_message (concat (map problems ps))"
    using syntax_loop [OF b(1)] by (simp add: b(2) empty_analysis_def messages_of)
  moreover have "syntax_errors a = []" if "map diag_message (syntax_errors a) = []"
    using that by simp
  moreover have "\<exists>p \<in> set ps. contents p \<noteq> None \<and> stringify host p = None"
    if "traverse (stringify host) (filter (\<lambda>p. contents p \<noteq> None) ps) = None"
    using that by (auto simp: traverse_None_iff)
  ultimately show ?thesis
    by (auto simp: format_yaml_def parsed Let_def split: list.splits option.splits)
qed

lemma format_refused_iff_syntax_errors_witness:
  "\<exists>output. format_yaml bare_host (lit ''kind: Pod'') = Inr output"
proof -
  obtain a where a: "analyze_yaml bare_host (lit ''kind: Pod'') Kubernetes = Inr a"
    using bare_analysis by blast
  have "trim (lit ''kind: Pod'') \<noteq> []" by (simp add: str_simps)
  from format_refused_iff_syntax_errors [OF a this] show ?thesis
    by (auto simp: format_yaml_def bare_host_def Let_def)
qed

end
