(* ===== verification/Report.thy ===== *)
theory Report
  imports Markdown Analyze
begin

text \<open>
  The analysis report of \<open>report.js\<close>: \<open>buildMarkdownReport\<close> and the sections it puts together,
  \<open>reportFindingCount\<close> and \<open>reportFilename\<close>. A document's fields are JavaScript values, so turning
  one into text may throw; \<open>None\<close> is that \<open>TypeError\<close>. The em dash of the headings is U+2014.
\<close>

section \<open>Model\<close>

text \<open>\<open>String(value ?? "")\<close>, and the writers applied to it.\<close>

definition text_or_empty :: "jsval \<Rightarrow> jstr option" where
  "text_or_empty v = (if nullish v then Some [] else to_str v)"

abbreviation js_code_span :: "jsval \<Rightarrow> jstr option" where
  "js_code_span v \<equiv> map_option code_span (text_or_empty v)"

definition dash :: jstr where
  "dash = [32, 0x2014, 32]"

definition list_value :: "jstr list \<Rightarrow> jstr \<Rightarrow> jstr" where
  "list_value items fallback =
     (if items = [] then fallback else join (lit '', '') (map code_span items))"

definition location_text :: "nat option \<Rightarrow> nat option \<Rightarrow> jstr option" where
  "location_text line column =
     (case line of
        None \<Rightarrow> None
      | Some n \<Rightarrow> if n = 0 then None
          else Some (lit ''Line '' @ nat_text n @
            (case column of
               None \<Rightarrow> [] | Some c \<Rightarrow> if c = 0 then [] else lit '', column '' @ nat_text c)))"

text \<open>
  What \<open>findingBlock\<close> reads of a finding, a diagnostic or a schema error; an absent text is empty,
  as the code treats both alike.
\<close>

record report_item =
  i_level :: jstr
  i_title :: jstr
  i_path :: jstr
  i_line :: "nat option"
  i_column :: "nat option"
  i_explanation :: jstr
  i_suggestion :: jstr
  i_example :: jstr
  i_caution :: jstr
  i_standards :: "standard list"

fun level_name :: "level \<Rightarrow> jstr" where
  "level_name Error = lit ''error''"
| "level_name Warning = lit ''warning''"
| "level_name Note = lit ''note''"
| "level_name Valid = lit ''valid''"

definition item_of_finding :: "jstr \<Rightarrow> finding \<Rightarrow> report_item" where
  "item_of_finding title f =
     \<lparr>i_level = level_name (f_level f), i_title = title, i_path = f_path f,
       i_line = f_line f, i_column = f_column f,
       i_explanation = (if f_explanation f \<noteq> [] then f_explanation f else f_detail f),
       i_suggestion = f_suggestion f, i_example = default_to (f_example f) [],
       i_caution = default_to (f_caution f) [],
       i_standards = (case f_standards f of
           Some (s # ss) \<Rightarrow> s # ss
         | _ \<Rightarrow> (case f_standard f of Some s \<Rightarrow> [s] | None \<Rightarrow> []))\<rparr>"

definition item_of_diagnostic :: "jstr \<Rightarrow> diagnostic \<Rightarrow> report_item" where
  "item_of_diagnostic level d =
     \<lparr>i_level = level, i_title = [], i_path = [], i_line = Some (diag_line d),
       i_column = Some (diag_column d), i_explanation = diag_message d, i_suggestion = [],
       i_example = [], i_caution = [], i_standards = []\<rparr>"

definition item_of_schema_error :: "schema_error \<Rightarrow> report_item" where
  "item_of_schema_error e =
     \<lparr>i_level = lit ''error'', i_title = e_title e, i_path = e_path e, i_line = e_line e,
       i_column = e_column e, i_explanation = e_explanation e, i_suggestion = [],
       i_example = [], i_caution = [], i_standards = []\<rparr>"

text \<open>
  \<open>toUpperCase\<close> of a level, which is one of four ASCII words. An empty fallback stands for the absent
  argument.
\<close>

definition block_title :: "report_item \<Rightarrow> jstr \<Rightarrow> jstr" where
  "block_title item fallback =
     (if i_title item \<noteq> [] then i_title item else if fallback \<noteq> [] then fallback else lit ''Finding'')"

definition standard_line :: "standard \<Rightarrow> jstr" where
  "standard_line s = lit ''- ['' @ markdown_text (lit ''OWASP '' @ std_id s @ dash @ std_title s) @
     lit '']('' @ std_url s @ lit '')''"

definition provided :: "bool \<Rightarrow> 'a list \<Rightarrow> 'a list" where
  "provided c xs = (if c then xs else [])"

definition finding_block :: "report_item \<Rightarrow> jstr \<Rightarrow> jstr" where
  "finding_block item fallback = join [lf] (
     [lit ''### '' @ markdown_text (map ascii_upper (if i_level item \<noteq> [] then i_level item else lit ''note''))
        @ dash @ markdown_text (block_title item fallback)]
     @ provided (i_path item \<noteq> []) [lit ''- **YAML path:** '' @ code_span (i_path item)]
     @ (case location_text (i_line item) (i_column item) of
          None \<Rightarrow> [] | Some place \<Rightarrow> [lit ''- **Location:** '' @ markdown_text place])
     @ provided (i_explanation item \<noteq> []) [[], markdown_text (i_explanation item)]
     @ provided (i_suggestion item \<noteq> []) [[], lit ''**Recommended change:** '' @ markdown_text (i_suggestion item)]
     @ provided (i_example item \<noteq> [])
         [[], lit ''**Example YAML:**'', [], fenced_code (i_example item) (lit ''yaml'')]
     @ provided (i_caution item \<noteq> []) [[], lit ''**Before applying:** '' @ markdown_text (i_caution item)]
     @ provided (i_standards item \<noteq> [])
         ([[], lit ''**Security references:**''] @ map standard_line (i_standards item)))"

definition blocks :: "jstr list \<Rightarrow> jstr" where
  "blocks = join [lf, lf]"

text \<open>The code splits the joined blocks into lines and joins them again.\<close>

definition diagnostics_section :: "jstr \<Rightarrow> diagnostic list \<Rightarrow> jstr \<Rightarrow> jstr" where
  "diagnostics_section title items level =
     (if items = [] then []
      else join [lf] ([lit ''## '' @ title, []] @ split_on lf
        (blocks (map (\<lambda>d. finding_block (item_of_diagnostic level d)
           (lit ''Document '' @ nat_text (diag_document d))) items))))"

subsection \<open>Documents\<close>

definition service_port_text :: "jsval \<Rightarrow> jstr option" where
  "service_port_text p = do {
     given \<leftarrow> get p (lit ''name'');
     name \<leftarrow> to_str (or_else given (jlit ''unnamed''));
     number \<leftarrow> to_str (opt_get p (lit ''port''));
     target \<leftarrow> to_str (if nullish (opt_get p (lit ''targetPort'')) then opt_get p (lit ''port'')
       else opt_get p (lit ''targetPort''));
     node \<leftarrow> (if truthy (opt_get p (lit ''nodePort''))
       then map_option (\<lambda>t. lit '' (node '' @ t @ lit '')'') (to_str (opt_get p (lit ''nodePort'')))
       else Some []);
     Some (name @ lit '': '' @ number @ lit '' -> '' @ target @ node)
   }"

definition port_text :: "port \<Rightarrow> jstr option" where
  "port_text p = do {
     name \<leftarrow> (if truthy (port_name p) then map_option (\<lambda>t. t @ dash) (to_str (port_name p)) else Some []);
     number \<leftarrow> to_str (container_port p);
     proto \<leftarrow> to_str (protocol p);
     Some (name @ number @ lit ''/'' @ proto)
   }"

text \<open>\<open>Object.entries(v || {})\<close> as \<open>key: value\<close> texts.\<close>

definition quantities :: "jsval \<Rightarrow> jstr list option" where
  "quantities v = traverse (\<lambda>(k, w). map_option (\<lambda>t. k @ lit '': '' @ t) (to_str w))
     (own_entries (or_else v (JObj 0 [])))"

definition probes :: "container \<Rightarrow> jstr list" where
  "probes c = map fst (filter snd
     [(lit ''startup'', startup c), (lit ''readiness'', readiness c), (lit ''liveness'', liveness c)])"

definition container_lines :: "container \<Rightarrow> jstr list option" where
  "container_lines c = do {
     name \<leftarrow> to_str (c_name c);
     img \<leftarrow> js_code_span (c_image c);
     port_list \<leftarrow> traverse port_text (ports c);
     requests \<leftarrow> quantities (opt_get (resources c) (lit ''requests''));
     limits \<leftarrow> quantities (opt_get (resources c) (lit ''limits''));
     Some [[], lit ''### '' @ markdown_text (container_type_text (c_type c) @ dash @ name), [],
       lit ''- **Image:** '' @ img,
       lit ''- **Ports:** '' @ list_value port_list (lit ''None''),
       lit ''- **Probes:** '' @ list_value (probes c) (lit ''None configured''),
       lit ''- **Resource requests:** '' @ list_value requests (lit ''None''),
       lit ''- **Resource limits:** '' @ list_value limits (lit ''None'')]
   }"

definition identity_text :: "document \<Rightarrow> jstr option" where
  "identity_text d = do {
     k \<leftarrow> to_str (kind d);
     n \<leftarrow> to_str (doc_name d);
     Some (k @ lit ''/'' @ n)
   }"

definition provided_line :: "bool \<Rightarrow> string \<Rightarrow> jstr option \<Rightarrow> jstr list option" where
  "provided_line c label t = (if c then map_option (\<lambda>t. [lit label @ t]) t else Some [])"

definition kubernetes_document :: "document \<Rightarrow> jstr option" where
  "kubernetes_document d = do {
     identity \<leftarrow> identity_text d;
     version \<leftarrow> js_code_span (api_version d);
     space_name \<leftarrow> js_code_span (namespace d);
     replica_line \<leftarrow> provided_line (replicas d \<noteq> JNull) ''- **Replicas:** '' (to_str (replicas d));
     type_line \<leftarrow> provided_line (truthy (service_type d)) ''- **Service type:** ''
       (js_code_span (service_type d));
     account_line \<leftarrow> provided_line (containers d \<noteq> []) ''- **Service account:** ''
       (js_code_span (service_account d));
     volume_line \<leftarrow> provided_line (volumes d \<noteq> []) ''- **Volumes:** ''
       (map_option (\<lambda>ts. list_value ts (lit ''None''))
         (traverse (\<lambda>(name, t). map_option (\<lambda>n. n @ lit '': '' @ t) (to_str name)) (volumes d)));
     port_line \<leftarrow> provided_line (service_ports d \<noteq> []) ''- **Service ports:** ''
       (map_option (\<lambda>ts. list_value ts (lit ''None'')) (traverse service_port_text (service_ports d)));
     container_part \<leftarrow> traverse container_lines (containers d);
     Some (join [lf] (
       [lit ''## Document '' @ nat_text (index d) @ dash @ markdown_text identity, [],
        lit ''- **API version:** '' @ version,
        lit ''- **Namespace:** '' @ space_name,
        lit ''- **Schema:** '' @ markdown_text (case schema d of
          Some r \<Rightarrow> status_text (schema_status r) | None \<Rightarrow> lit ''not evaluated'')]
       @ replica_line @ type_line
       @ provided (doc_labels d \<noteq> []) [lit ''- **Labels:** '' @ list_value (doc_labels d) (lit ''None'')]
       @ provided (doc_selector d \<noteq> []) [lit ''- **Selector:** '' @ list_value (doc_selector d) (lit ''None'')]
       @ account_line @ volume_line @ port_line @ concat container_part))
   }"

definition general_report :: "general_document \<Rightarrow> jstr option" where
  "general_report d = do {
     scalar \<leftarrow> (if root_type d = Scalar
       then if scalar_value d = JNull then Some (code_span (lit ''null'')) else js_code_span (scalar_value d)
       else Some []);
     Some (join [lf] (
       [lit ''## Document '' @ nat_text (gen_index d) @ dash @ markdown_text (root_type_text (root_type d)),
        [], lit ''- **Root type:** '' @ markdown_text (root_type_text (root_type d))]
       @ (case root_type d of
            Mapping \<Rightarrow> [lit ''- **Top-level entries:** '' @ nat_text (default_to (entry_count d) 0),
              lit ''- **Top-level keys:** '' @ list_value (keys d) (lit ''None'')]
          | Sequence \<Rightarrow> [lit ''- **Top-level items:** '' @ nat_text (default_to (entry_count d) 0)]
          | Scalar \<Rightarrow> [lit ''- **Scalar value:** '' @ scalar])))
   }"

subsection \<open>Counts and names\<close>

definition operational_findings :: "document list \<Rightarrow> report_item list option" where
  "operational_findings ds = map_option concat (traverse (\<lambda>d. traverse (\<lambda>f.
     map_option (\<lambda>t. item_of_finding (t @ lit '': '' @ f_title f) f) (identity_text d)) (doc_findings d)) ds)"

definition schema_issues :: "document \<Rightarrow> nat" where
  "schema_issues d = (case schema d of
     Some r \<Rightarrow> if schema_status r = Schema_invalid then length (schema_errors r)
       else if schema_status r = Schema_valid then 0 else 1
   | None \<Rightarrow> 1)"

definition schema_issue_count :: "analysis \<Rightarrow> nat" where
  "schema_issue_count a =
     (if mode_of a \<noteq> Kubernetes then 0 else sum_list (map schema_issues (resources_of a)))"

definition report_finding_count :: "analysis \<Rightarrow> nat" where
  "report_finding_count a = length (all_errors a) + length (all_warnings a) + schema_issue_count a
     + sum_list (map (\<lambda>d. length (doc_findings d)) (resources_of a))"

text \<open>\<open>split(/[\\/]/).pop()\<close>: what follows the last separator.\<close>

definition leaf_of :: "jstr \<Rightarrow> jstr" where
  "leaf_of filename =
     (let given = (if filename = [] then lit ''manifest.yaml'' else filename);
          leaf = rev (takeWhile (\<lambda>u. u \<noteq> backslash \<and> u \<noteq> cu CHR ''/'') (rev given))
      in if leaf = [] then lit ''manifest.yaml'' else leaf)"

text \<open>\<open>replace(/\.ya?ml$/i, "")\<close>.\<close>

definition without_extension :: "jstr \<Rightarrow> jstr" where
  "without_extension s =
     (let l = map ascii_lower s in
      if ends_with l (lit ''.yaml'') then take (length s - 5) s
      else if ends_with l (lit ''.yml'') then take (length s - 4) s else s)"

definition forbidden :: "code_unit \<Rightarrow> bool" where
  "forbidden u \<longleftrightarrow> u = backslash \<or> u \<in> set (lit ''<>:/|?*'') \<or> u = 34 \<or> u \<le> 0x1f"

definition strip_dots :: "jstr \<Rightarrow> jstr" where
  "strip_dots s = rev (dropWhile (\<lambda>u. u = cu CHR ''.'' \<or> u = space) (rev s))"

definition report_filename :: "jstr \<Rightarrow> jstr" where
  "report_filename source_filename =
     (let given_stem = without_extension (leaf_of source_filename);
          stem = (if given_stem = [] then lit ''manifest'' else given_stem);
          safe = take 120 (strip_dots (map (\<lambda>u. if forbidden u then cu CHR ''-'' else u) stem));
          safe_stem = (if safe = [] then lit ''manifest'' else safe)
      in safe_stem @ lit ''-report.md'')"

subsection \<open>The report\<close>

text \<open>\<open>while (lines.at(-1) === "") lines.pop()\<close>.\<close>

definition pop_blank :: "jstr list \<Rightarrow> jstr list" where
  "pop_blank ls = rev (dropWhile (\<lambda>l. l = []) (rev ls))"

text \<open>\<open>replace(/\n{3,}/g, "\n\n")\<close>.\<close>

function collapse :: "jstr \<Rightarrow> jstr" where
  "collapse [] = []"
| "collapse (u # us) =
     (if u = lf then replicate (min 2 (Suc (length (takeWhile ((=) lf) us)))) lf
        @ collapse (dropWhile ((=) lf) us)
      else u # collapse us)"
  by pat_completeness auto
termination
  by (relation "measure length") (auto simp: less_Suc_eq_le length_dropWhile_le)

definition section_lines :: "jstr \<Rightarrow> jstr list" where
  "section_lines s = provided (s \<noteq> []) [[], s]"

definition schema_lines :: "document \<Rightarrow> jstr list option" where
  "schema_lines d = do {
     identity \<leftarrow> identity_text d;
     r \<leftarrow> schema d;
     Some ([lit ''### '' @ markdown_text identity, [],
        lit ''- **Status:** '' @ markdown_text (status_text (schema_status r)),
        lit ''- **Schema version:** '' @ code_span (schema_version r), [],
        markdown_text (schema_message r)]
       @ concat (map (\<lambda>e. [[], finding_block (item_of_schema_error e) (lit ''Schema mismatch'')])
           (schema_errors r))
       @ [[]])
   }"

definition profile_lines :: "profile_entry \<Rightarrow> jstr list" where
  "profile_lines e =
     [lit ''### '' @ markdown_text (std_id (p_standard e) @ dash @ std_title (p_standard e)), [],
      lit ''- **Coverage:** '' @ markdown_text (coverage_text (p_coverage e)),
      lit ''- **Manifest-local evidence:** '' @ markdown_text (evidence e),
      lit ''- **Boundary:** '' @ markdown_text (boundary e),
      lit ''- **Pinned reference:** ['' @ markdown_text (lit ''OWASP '' @ std_id (p_standard e)) @ lit ''](''
        @ std_url (p_standard e) @ lit '')'', []]"

text \<open>\<open>owaspProfile?.[0]?.id?.split(":")[1] || "2025"\<close>.\<close>

definition profile_year :: "profile_entry list \<Rightarrow> jstr" where
  "profile_year entries =
     (case entries of
        [] \<Rightarrow> lit ''2025''
      | e # _ \<Rightarrow> (case split_on (cu CHR '':'') (std_id (p_standard e)) of
            _ # (u # us) # _ \<Rightarrow> u # us | _ \<Rightarrow> lit ''2025''))"

definition review_lines :: "analysis \<Rightarrow> jstr list option" where
  "review_lines a = do {
     operational \<leftarrow> operational_findings (resources_of a);
     verdicts \<leftarrow> traverse schema_lines (resources_of a);
     Some (section_lines (diagnostics_section (lit ''Kubernetes Document Structure'')
         (document_errors a) (lit ''error''))
       @ [[], lit ''# Kubernetes Review'', []]
       @ [lit ''## Deterministic Operational Findings'', [],
          if operational \<noteq> [] then blocks (map (\<lambda>i. finding_block i []) operational)
          else lit ''No findings in the current deterministic checks.'']
       @ pop_blank ([[], lit ''## Kubernetes Schema Results'', []]
         @ (if resources_of a = []
            then [lit ''No parsed Kubernetes resources were available for schema evaluation.'']
            else concat verdicts))
       @ pop_blank ([[], lit ''## OWASP Kubernetes Top 10:'' @ markdown_text (profile_year (owasp_profile a))
           @ lit '' Review Profile'', [],
          lit ''Coverage describes browser-local visibility into the supplied YAML. It is not a compliance score or pass/fail result.'', []]
         @ concat (map profile_lines (owasp_profile a)))
       @ [[], lit ''# Limitations and Next Step'', [],
          lit ''- This is deterministic, browser-local file analysis'' @ [0x2014] @
            lit ''not API-server admission validation or a compliance assessment.'',
          lit ''- The Workbench does not contact Kubernetes, evaluate admission policies, apply defaulting or conversion, discover installed APIs, or retrieve CRD schemas.'',
          lit ''- Review every recommendation in workload and cluster context.'',
          lit ''- Use repository validation and Kubernetes server-side dry-run before applying a manifest.''])
   }"

definition general_limitations :: "jstr list" where
  "general_limitations = [[], lit ''# Limitations'', [],
     lit ''- General YAML mode reports syntax and document structure only.'',
     lit ''- Kubernetes operational, schema, OWASP, admission, and live-cluster checks are not performed.'',
     lit ''- The Workbench does not send the YAML or this report to a backend.'']"

definition document_count :: "analysis \<Rightarrow> nat" where
  "document_count a = length (resources_of a) + length (generals_of a)"

definition header_lines :: "jstr \<Rightarrow> analysis \<Rightarrow> jstr list" where
  "header_lines source_name a =
     [lit ''# Forge YAML Workbench Analysis Report'', [],
      lit ''- **Source:** '' @ code_span source_name,
      lit ''- **Inspection mode:** '' @
        (if mode_of a = Kubernetes then lit ''Kubernetes'' else lit ''General YAML''),
      lit ''- **Parsed documents:** '' @ nat_text (document_count a),
      lit ''- **Findings:** '' @ nat_text (report_finding_count a), [],
      lit ''> Generated locally in browser memory. This report can contain resource names, namespaces, YAML paths, findings, and recommendations derived from the supplied YAML. The complete source YAML is not included.'',
      [], lit ''# Document Summary'', []]"

record report =
  report_markdown :: jstr
  report_file :: jstr
  report_documents :: nat
  report_findings :: nat

definition finish_markdown :: "jstr list \<Rightarrow> jstr" where
  "finish_markdown ls = trim_end (collapse (join [lf] ls)) @ [lf]"

definition report_of :: "jstr \<Rightarrow> analysis \<Rightarrow> jstr list \<Rightarrow> jstr list \<Rightarrow> report" where
  "report_of source_name a documents review =
     \<lparr>report_markdown = finish_markdown (header_lines source_name a
         @ [if document_count a = 0 then lit ''No YAML documents were parsed.'' else blocks documents]
         @ section_lines (diagnostics_section (lit ''YAML Syntax Errors'') (syntax_errors a) (lit ''error''))
         @ section_lines (diagnostics_section (lit ''YAML Syntax Warnings'') (syntax_warnings a) (lit ''warning''))
         @ review),
       report_file = report_filename source_name, report_documents = document_count a,
       report_findings = report_finding_count a\<rparr>"

definition build_markdown_report :: "jstr \<Rightarrow> analysis option \<Rightarrow> report option" where
  "build_markdown_report filename given = do {
     a \<leftarrow> given;
     documents \<leftarrow> (if mode_of a = Kubernetes then traverse kubernetes_document (resources_of a)
       else traverse general_report (generals_of a));
     review \<leftarrow> (if mode_of a = Kubernetes then review_lines a else Some general_limitations);
     Some (report_of (leaf_of filename) a documents review)
   }"

section \<open>Laws\<close>

subsection \<open>When a report can be written\<close>

text \<open>A container and a document all of whose shown fields have a text.\<close>

definition printable_container :: "container \<Rightarrow> bool" where
  "printable_container c \<longleftrightarrow> tame (c_name c) \<and> tame (c_image c) \<and> tame (resources c) \<and>
     (\<forall>p \<in> set (ports c). tame (port_name p) \<and> tame (container_port p) \<and> tame (protocol p))"

definition printable :: "document \<Rightarrow> bool" where
  "printable d \<longleftrightarrow> tame (kind d) \<and> tame (doc_name d) \<and> tame (api_version d) \<and> tame (namespace d) \<and>
     tame (replicas d) \<and> tame (service_type d) \<and> tame (service_account d) \<and>
     (\<forall>p \<in> set (service_ports d). \<not> nullish p \<and> tame p) \<and>
     (\<forall>(n, t) \<in> set (volumes d). tame n) \<and> (\<forall>c \<in> set (containers d). printable_container c)"

lemma printable_update [simp]:
  "printable (d\<lparr>doc_findings := fs\<rparr>) = printable d" "printable (d\<lparr>schema := r\<rparr>) = printable d"
  by (simp_all add: printable_def)

lemma tame_atoms [simp]: "tame (JStr s)" "tame JNull" "tame JUndef" "tame (JObj i [])"
  by simp_all

lemma summarize_printable_container:
  assumes "summarize_container v type path = Some c" and "tame v"
  shows "printable_container c"
proof -
  have live: "\<not> nullish v" by (rule summarize_container_SomeD(4) [OF assms(1)])
  obtain ps where ps: "traverse summarize_port (js_array (opt_get v (lit ''ports''))) = Some ps" "ports c = ps"
    using assms(1) live by (auto simp: summarize_container_def get_Some_opt_get bind_eq_Some_conv)
  have "tame (port_name q) \<and> tame (container_port q) \<and> tame (protocol q)" if q: "q \<in> set ps" for q
  proof -
    obtain p where p: "p \<in> set (js_array (opt_get v (lit ''ports'')))" "summarize_port p = Some q"
      using traverse_mem [OF ps(1) q] by blast
    then have "tame p" "\<not> nullish p" using tame_array [OF tame_get [OF assms(2)]] by blast+
    with p(2) show ?thesis by (auto simp: summarize_port_def get_Some_opt_get)
  qed
  with ps(2) assms(2) summarize_container_SomeD [OF assms(1)] show ?thesis
    by (simp add: printable_container_def)
qed

lemma pod_containers_mem:
  assumes "pod_containers pod = Some cs" and "c \<in> set cs"
  shows "\<exists>v k type path. v \<in> set (js_array (opt_get (pod_spec pod) k)) \<and> summarize_container v type path = Some c"
proof -
  obtain init main where lists:
    "traverse_indexed (\<lambda>i c. summarize_container c Init_container (list_path pod ''initContainers'' i))
       (js_array (opt_get (pod_spec pod) (lit ''initContainers''))) = Some init"
    "traverse_indexed (\<lambda>i c. summarize_container c Container (list_path pod ''containers'' i))
       (js_array (opt_get (pod_spec pod) (lit ''containers''))) = Some main" "cs = init @ main"
    using assms(1) by (auto simp: pod_containers_def bind_eq_Some_conv)
  from assms(2) lists(3) consider "c \<in> set init" | "c \<in> set main" by auto
  then show ?thesis
    by cases (use traverse_indexed_mem [OF lists(1)] traverse_indexed_mem [OF lists(2)] nth_mem in metis)+
qed

lemma summarize_printable:
  assumes "summarize_resource v i = Some d" and "tame v"
  shows "printable d"
proof -
  let ?pod = "pod_context v"
  have live: "\<not> nullish v" using assms(1) by (cases v) (auto simp: summarize_resource_def)
  obtain cs vs where d: "pod_containers ?pod = Some cs" "containers d = cs"
    "traverse summarize_volume (js_array (opt_get (pod_spec ?pod) (lit ''volumes''))) = Some vs" "volumes d = vs"
    "tame (kind d)" "tame (doc_name d)" "tame (api_version d)" "tame (namespace d)"
    "tame (replicas d)" "tame (service_type d)" "tame (service_account d)"
    using assms(1) tame_pod_spec [OF assms(2)] assms(2) live
    by (auto simp: summarize_resource_def get_Some_opt_get Let_def bind_eq_Some_conv kind_of_def
        split: if_splits)
  have "printable_container c" if "c \<in> set cs" for c
    using pod_containers_mem [OF d(1) that] tame_array [OF tame_get [OF tame_pod_spec [OF assms(2)]]]
      summarize_printable_container by blast
  moreover have "tame n" if "(n, t) \<in> set vs" for n t
    using traverse_mem [OF d(3) that] tame_array [OF tame_get [OF tame_pod_spec [OF assms(2)]]]
    by (auto simp: summarize_volume_def get_Some_opt_get)
  moreover have "\<not> nullish p \<and> tame p" if "p \<in> set (service_ports d)" for p
    using summarize_resource_SomeD(5) [OF assms(1) that] tame_array assms(2) by blast
  ultimately show ?thesis using d by (auto simp: printable_def)
qed

lemma quantities_total: "tame v \<Longrightarrow> quantities v \<noteq> None"
proof -
  assume v: "tame v"
  have "\<exists>t. to_str w = Some t" if "(k, w) \<in> set (own_entries (or_else v (JObj 0 [])))" for k w
    using tame_entries [OF _ that] v tame_text by simp
  then show ?thesis unfolding quantities_def traverse_None_iff by auto
qed

lemma text_or_empty_total: "tame v \<Longrightarrow> text_or_empty v \<noteq> None"
  using tame_text by (simp add: text_or_empty_def)

lemma some_text: "tame v \<Longrightarrow> \<exists>t. to_str v = Some t" "tame v \<Longrightarrow> \<exists>t. text_or_empty v = Some t"
  using tame_text text_or_empty_total by blast+

lemma container_lines_total:
  assumes "printable_container c"
  shows "container_lines c \<noteq> None"
proof -
  have "port_text p \<noteq> None" if p: "p \<in> set (ports c)" for p
  proof -
    have "tame (port_name p)" "tame (container_port p)" "tame (protocol p)"
      using p assms by (auto simp: printable_container_def)
    then show ?thesis by (simp add: port_text_def bind_eq_None tame_text del: not_None_eq)
  qed
  then obtain ps where "traverse port_text (ports c) = Some ps" using traverse_total by blast
  moreover obtain rs ls where "quantities (opt_get (resources c) (lit ''requests'')) = Some rs"
    "quantities (opt_get (resources c) (lit ''limits'')) = Some ls"
    using quantities_total tame_get assms unfolding printable_container_def by (metis not_None_eq)
  moreover obtain n g where "to_str (c_name c) = Some n" "text_or_empty (c_image c) = Some g"
    using some_text assms unfolding printable_container_def by metis
  ultimately show ?thesis by (simp add: container_lines_def)
qed

lemma service_port_text_total:
  assumes "tame p" "\<not> nullish p"
  shows "service_port_text p \<noteq> None"
proof -
  have "to_str (opt_get p k) \<noteq> None" for k using tame_text tame_get [OF assms(1)] by blast
  moreover have "to_str (or_else (opt_get p (lit ''name'')) (jlit ''unnamed'')) \<noteq> None"
    using tame_text tame_or_else tame_get [OF assms(1)] tame_atoms(1) by blast
  ultimately show ?thesis
    by (simp add: service_port_text_def get_Some_opt_get [OF assms(2)] bind_eq_None del: not_None_eq)
qed

lemma provided_line_total: "t \<noteq> None \<Longrightarrow> \<exists>ls. provided_line c l t = Some ls"
  by (auto simp: provided_line_def)

lemma identity_total: "printable d \<Longrightarrow> \<exists>t. identity_text d = Some t"
proof -
  assume "printable d"
  then have "identity_text d \<noteq> None"
    by (simp add: identity_text_def bind_eq_None printable_def tame_text del: not_None_eq)
  then show ?thesis by blast
qed

lemma provided_line_None: "provided_line c l t = None \<longleftrightarrow> c \<and> t = None"
  by (auto simp: provided_line_def)

lemma kubernetes_document_total:
  assumes "printable d"
  shows "kubernetes_document d \<noteq> None"
proof -
  have "traverse service_port_text (service_ports d) \<noteq> None"
    unfolding traverse_None_iff using service_port_text_total assms unfolding printable_def by blast
  moreover have "traverse container_lines (containers d) \<noteq> None"
    unfolding traverse_None_iff using container_lines_total assms unfolding printable_def by blast
  moreover have "traverse (\<lambda>(name, t). map_option (\<lambda>n. n @ lit '': '' @ t) (to_str name)) (volumes d) \<noteq> None"
    unfolding traverse_None_iff using tame_text assms unfolding printable_def by fastforce
  moreover have "identity_text d \<noteq> None" using identity_total [OF assms] by auto
  ultimately show ?thesis
    using assms unfolding printable_def
    by (simp add: kubernetes_document_def bind_eq_None provided_line_None tame_text text_or_empty_total
        del: not_None_eq)
qed

definition document_items :: "document \<Rightarrow> report_item list option" where
  "document_items d = traverse (\<lambda>f.
     map_option (\<lambda>t. item_of_finding (t @ lit '': '' @ f_title f) f) (identity_text d)) (doc_findings d)"

lemma document_items_total:
  assumes "printable d"
  shows "\<exists>fs. document_items d = Some fs \<and> length fs = length (doc_findings d)"
proof -
  obtain t where "identity_text d = Some t" using identity_total [OF assms] by blast
  then show ?thesis by (simp add: document_items_def)
qed

lemma operational_total:
  assumes "\<forall>d \<in> set ds. printable d"
  shows "\<exists>fs. operational_findings ds = Some fs \<and> length fs = sum_list (map (\<lambda>d. length (doc_findings d)) ds)"
  using assms
proof (induction ds)
  case (Cons d ds)
  obtain gs where gs: "document_items d = Some gs" "length gs = length (doc_findings d)"
    using document_items_total Cons.prems by (metis list.set_intros(1))
  obtain fs where "operational_findings ds = Some fs"
    "length fs = sum_list (map (\<lambda>d. length (doc_findings d)) ds)"
    using Cons.IH Cons.prems by auto
  with gs show ?case by (auto simp: operational_findings_def document_items_def [abs_def])
qed (simp add: operational_findings_def)

lemma schema_lines_total:
  assumes "printable d" "schema d \<noteq> None"
  shows "schema_lines d \<noteq> None"
proof -
  obtain t r where "identity_text d = Some t" "schema d = Some r" using identity_total assms by blast
  then show ?thesis by (simp add: schema_lines_def)
qed

lemma report_total:
  assumes "mode_of a = Kubernetes" and "\<forall>d \<in> set (resources_of a). printable d \<and> schema d \<noteq> None"
  shows "\<exists>r. build_markdown_report filename (Some a) = Some r"
proof -
  obtain fs where fs: "operational_findings (resources_of a) = Some fs"
    using operational_total assms(2) by blast
  obtain vs where vs: "traverse schema_lines (resources_of a) = Some vs"
    using traverse_total schema_lines_total assms(2) by metis
  obtain ks where "traverse kubernetes_document (resources_of a) = Some ks"
    using traverse_total kubernetes_document_total assms(2) by metis
  with fs vs assms(1) show ?thesis by (simp add: build_markdown_report_def review_lines_def Let_def)
qed

lemma finish_printable:
  assumes "finish_kubernetes lp ps b = Inr a" and "\<forall>d \<in> set (resources_of b). printable d"
  shows "\<forall>d \<in> set (resources_of a). printable d"
proof -
  obtain ds where ds: "add_bundle_findings (resources_of b) = Some ds"
    "resources_of a = attach_finding_locations lp (map contents ps) ds"
    using assms(1) by (auto simp: finish_kubernetes_def Let_def split: option.splits)
  have "printable d" if "d \<in> set ds" for d
    using bundle_shape [OF ds(1)] that assms(2) by (metis in_set_conv_nth printable_update(1))
  with ds(2) show ?thesis by (auto simp: attach_finding_locations_def Let_def)
qed

lemma finish_mode: "finish_kubernetes lp ps b = Inr a \<Longrightarrow> mode_of a = mode_of b"
  by (auto simp: finish_kubernetes_def Let_def split: option.splits)

lemma finish_warnings:
  "finish_kubernetes lp ps b = Inr a \<Longrightarrow> all_warnings a = all_warnings b \<and> syntax_warnings a = syntax_warnings b"
  by (auto simp: finish_kubernetes_def Let_def split: option.splits)

lemma warnings_loop:
  "analyze_documents host lp n ps a = Inr a' \<Longrightarrow> all_warnings a = syntax_warnings a \<Longrightarrow>
   all_warnings a' = syntax_warnings a'"
proof (induction ps arbitrary: n a)
  case (Cons p ps)
  then obtain b where b: "analyze_document host lp n p a = Inr b" "analyze_documents host lp (n + 1) ps b = Inr a'"
    by (auto split: sum.splits)
  then have "all_warnings b = syntax_warnings b"
    using Cons.prems(2)
    by (auto simp: analyze_document_def Let_def collect_problems_def split: if_splits option.splits)
  with Cons.IH [OF b(2)] show ?case by simp
qed simp

subsection \<open>File names\<close>

lemma stripped_clean: "(\<And>u. u \<in> set s \<Longrightarrow> P u) \<Longrightarrow> list_all P (take n (strip_dots s))"
  by (auto simp: list_all_iff strip_dots_def dest!: in_set_takeD set_dropWhileD)

lemma safe_text: "list_all (\<lambda>u. \<not> forbidden u) (lit ''manifest'')" "list_all (\<lambda>u. \<not> forbidden u) (lit ''-report.md'')"
  by (simp_all add: forbidden_def lit_Cons cu_def)

text \<open>The count.\<close>

lemma schemas_kept:
  assumes "map skeleton as = map skeleton bs" and "\<forall>d \<in> set bs. schema d \<noteq> None"
  shows "\<forall>d \<in> set as. schema d \<noteq> None"
proof
  fix d assume "d \<in> set as"
  then have "skeleton d \<in> set (map skeleton bs)" using assms(1) by (metis image_eqI list.set_map)
  then obtain e where "e \<in> set bs" "skeleton d = skeleton e" by auto
  with assms(2) show "schema d \<noteq> None" by (auto simp: skeleton_def)
qed

lemma schema_issues_sum:
  "sum_list (map schema_issues ds) =
     length (concat (map (\<lambda>d. case schema d of
       Some v \<Rightarrow> if schema_status v = Schema_invalid then schema_errors v else [] | None \<Rightarrow> []) ds))
     + length (filter (\<lambda>d. map_option schema_status (schema d) \<notin> {Some Schema_valid, Some Schema_invalid}) ds)"
  by (induction ds) (auto simp: schema_issues_def split: option.splits)

lemma report_findings_of:
  "build_markdown_report filename (Some a) = Some r \<Longrightarrow> report_findings r = report_finding_count a"
  by (auto simp: build_markdown_report_def report_of_def dest!: bind_eq_SomeD)

lemma kubernetes_report_total:
  assumes "\<And>p. p \<in> set (fst (parse host source)) \<Longrightarrow> problems p = [] \<Longrightarrow> contents p \<noteq> None \<Longrightarrow>
      \<exists>v. to_js p = Some v \<and> tame v"
    and "analyze_yaml host source Kubernetes = Inr a" and "trim source \<noteq> []"
  shows "\<exists>r. build_markdown_report filename (Some a) = Some r"
proof -
  obtain ps lp where parsed: "parse host source = (ps, lp)" by fastforce
  obtain b where b: "analyze_documents host lp 1 ps (empty_analysis Kubernetes) = Inr b"
    "finish_kubernetes lp ps b = Inr a"
    by (rule analyze_kubernetes [OF assms(2,3) parsed])
  have "\<forall>d \<in> set (resources_of b). summary_of host d \<and> tame (raw d)"
    using tame_summaries [OF b(1)] assms(1) by (simp add: parsed)
  then have "\<forall>d \<in> set (resources_of b). printable d \<and> schema d \<noteq> None"
    using summarize_printable by (fastforce simp: summary_of_def)
  moreover have "mode_of a = Kubernetes"
    using finish_mode [OF b(2)] kubernetes_loop [OF b(1)] by (simp add: empty_analysis_def)
  ultimately show ?thesis
    using report_total finish_printable [OF b(2)] schemas_kept [OF finish_fields(1) [OF b(2)]] by blast
qed

lemma bare_tame:
  "p \<in> set (fst (parse bare_host source)) \<Longrightarrow> \<exists>v. to_js p = Some v \<and> tame v"
  by (auto simp: bare_host_def bare_manifest_def bare_container_def indexable_def is_string_def)

section \<open>Properties\<close>

text \<open>C25: whatever a file is called, the report's file name is one safe name: nonempty stem of at most
  120 code units before the fixed suffix, with no path separator, reserved punctuation or control
  character.\<close>

theorem report_filename_safe:
  "\<exists>stem. report_filename source_filename = stem @ lit ''-report.md'' \<and> stem \<noteq> [] \<and> length stem \<le> 120 \<and>
    list_all (\<lambda>u. \<not> forbidden u) (report_filename source_filename)"
proof -
  let ?replaced = "\<lambda>stem. map (\<lambda>u. if forbidden u then cu CHR ''-'' else u) stem"
  have replaced: "list_all (\<lambda>u. \<not> forbidden u) (take 120 (strip_dots (?replaced stem)))" for stem
  proof -
    have hyphen: "\<not> forbidden (cu CHR ''-'')" by (simp add: forbidden_def lit_Cons cu_def)
    have clean: "\<not> forbidden u" if mem: "u \<in> set (?replaced stem)" for u
      using mem hyphen by (smt (verit) image_iff list.set_map)
    show ?thesis
      by (rule stripped_clean) (rule clean)
  qed
  let ?given = "without_extension (leaf_of source_filename)"
  let ?stem = "if ?given = [] then lit ''manifest'' else ?given"
  let ?safe = "take 120 (strip_dots (?replaced ?stem))"
  define stem where "stem = (if ?safe = [] then lit ''manifest'' else ?safe)"
  have name: "report_filename source_filename = stem @ lit ''-report.md''"
    by (simp add: report_filename_def Let_def stem_def)
  have "stem \<noteq> []" "length stem \<le> 120" by (simp_all add: stem_def)
  moreover have "list_all (\<lambda>u. \<not> forbidden u) stem"
    using replaced safe_text(1) unfolding stem_def by presburger
  then have "list_all (\<lambda>u. \<not> forbidden u) (report_filename source_filename)"
    unfolding name list_all_append using safe_text(2) by blast
  ultimately show ?thesis using name by blast
qed

text \<open>C26: a report is always written for an inspection of a file of tame values, and its finding count
  is honest: one for every diagnostic listed under syntax errors, syntax warnings and document
  structure, one for every review finding, one for every schema error of an invalid resource and one
  for every resource whose schema gave no verdict.\<close>

theorem report_is_written_and_counted:
  assumes "\<And>p. p \<in> set (fst (parse host source)) \<Longrightarrow> problems p = [] \<Longrightarrow> contents p \<noteq> None \<Longrightarrow>
      \<exists>v. to_js p = Some v \<and> tame v"
    and "analyze_yaml host source Kubernetes = Inr a" and "trim source \<noteq> []"
  shows "\<exists>r. build_markdown_report filename (Some a) = Some r \<and>
    report_findings r = length (syntax_errors a) + length (syntax_warnings a) + length (document_errors a)
      + length (concat (map doc_findings (resources_of a)))
      + length (concat (map (\<lambda>d. case schema d of
            Some v \<Rightarrow> if schema_status v = Schema_invalid then schema_errors v else []
          | None \<Rightarrow> []) (resources_of a)))
      + length (filter (\<lambda>d. map_option schema_status (schema d) \<notin> {Some Schema_valid, Some Schema_invalid})
          (resources_of a))"
proof -
  obtain ps lp where parsed: "parse host source = (ps, lp)" by fastforce
  obtain b where b: "analyze_documents host lp 1 ps (empty_analysis Kubernetes) = Inr b"
    "finish_kubernetes lp ps b = Inr a"
    by (rule analyze_kubernetes [OF assms(2,3) parsed])
  have "mode_of a = Kubernetes"
    using finish_mode [OF b(2)] kubernetes_loop [OF b(1)] by (simp add: empty_analysis_def)
  moreover have "\<exists>r. build_markdown_report filename (Some a) = Some r"
    by (rule kubernetes_report_total [OF assms])
  moreover have "ledger a"
    using ledger_loop [OF b(1) ledger_empty] finish_fields(3-5) [OF b(2)] by (simp add: ledger_def)
  then have "length (all_errors a) = length (syntax_errors a) + length (document_errors a)"
    unfolding ledger_def by (metis size_mset size_union)
  moreover have "all_warnings a = syntax_warnings a"
    using warnings_loop [OF b(1)] finish_warnings [OF b(2)] by (simp add: empty_analysis_def)
  ultimately show ?thesis
    using \<open>mode_of a = Kubernetes\<close>
    by (auto simp: report_findings_of report_finding_count_def schema_issue_count_def schema_issues_sum length_concat comp_def)
qed

lemma report_is_written_and_counted_witness:
  "\<exists>a r. analyze_yaml bare_host (lit ''kind: Pod'') Kubernetes = Inr a \<and>
     build_markdown_report (lit ''pod.yaml'') (Some a) = Some r"
proof -
  obtain a where a: "analyze_yaml bare_host (lit ''kind: Pod'') Kubernetes = Inr a"
    using bare_analysis by blast
  have "trim (lit ''kind: Pod'') \<noteq> []" by (simp add: str_simps)
  then have "\<exists>r. build_markdown_report (lit ''pod.yaml'') (Some a) = Some r"
    using report_is_written_and_counted [OF _ a, of "lit ''pod.yaml''"] bare_tame by blast
  with a show ?thesis by blast
qed

end
