(* ===== verification/Views.thy ===== *)
theory Views
  imports Report
begin

text \<open>
  The HTML that \<open>main.js\<close> builds: \<open>escapeHtml\<close> and the small views that the three tabs are made of.
  A view is the text assigned to \<open>innerHTML\<close>. Where a JavaScript value is turned into text the view may
  throw, which is \<open>None\<close>. The middle dot is U+00B7.
\<close>

section \<open>Model\<close>

fun escape_unit :: "code_unit \<Rightarrow> jstr" where
  "escape_unit u =
     (if u = 38 then lit ''&amp;'' else if u = 60 then lit ''&lt;'' else if u = 62 then lit ''&gt;''
      else if u = 39 then lit ''&#39;'' else if u = 34 then lit ''&quot;'' else [u])"

definition escape_html :: "jstr \<Rightarrow> jstr" where
  "escape_html s = concat (map escape_unit s)"

abbreviation js_escape :: "jsval \<Rightarrow> jstr option" where
  "js_escape v \<equiv> map_option escape_html (text_or_empty v)"

definition dot :: jstr where
  "dot = (lit '' '' @ [0xB7] @ lit '' '')"

text \<open>\<open>n + " thing" + (n === 1 ? "" : "s")\<close>.\<close>

definition counted :: "nat \<Rightarrow> string \<Rightarrow> jstr" where
  "counted n thing = nat_text n @ lit '' '' @ lit thing @ (if n = 1 then [] else lit ''s'')"

definition pills :: "jstr list \<Rightarrow> jstr \<Rightarrow> jstr" where
  "pills items empty_text =
     (if items = [] then lit ''<span class=\"muted\">'' @ empty_text @ lit ''</span>''
      else lit ''<div class=\"pills\">'' @ concat (map (\<lambda>i. lit ''<span>'' @ escape_html i @ lit ''</span>'') items) @ lit ''</div>'')"

definition field :: "jstr \<Rightarrow> jstr \<Rightarrow> jstr" where
  "field label content =
     lit ''<div class=\"field\"><dt>'' @ escape_html label @ lit ''</dt><dd>'' @ content @ lit ''</dd></div>''"

definition code :: "jstr \<Rightarrow> jstr" where
  "code content = lit ''<code>'' @ content @ lit ''</code>''"

definition card_port_text :: "port \<Rightarrow> jstr option" where
  "card_port_text p = do {
     name \<leftarrow> (if truthy (port_name p) then map_option (\<lambda>t. t @ dot) (to_str (port_name p)) else Some []);
     number \<leftarrow> to_str (container_port p);
     proto \<leftarrow> to_str (protocol p);
     Some (name @ number @ lit ''/'' @ proto)
   }"

definition container_card :: "container \<Rightarrow> jstr option" where
  "container_card c = do {
     port_list \<leftarrow> traverse card_port_text (ports c);
     requests \<leftarrow> quantities (opt_get (resources c) (lit ''requests''));
     limits \<leftarrow> quantities (opt_get (resources c) (lit ''limits''));
     name \<leftarrow> js_escape (c_name c);
     repo \<leftarrow> js_escape (image_repository c);
     ref \<leftarrow> js_escape (image_reference c);
     Some (lit ''<div class=\"container-card\">''
       @ lit ''  <div class=\"container-title\"><span>'' @ escape_html (container_type_text (c_type c))
       @ lit ''</span><strong>'' @ name @ lit ''</strong></div>''
       @ lit ''  <dl class=\"field-grid\">''
       @ field (lit ''Image'') (code repo)
       @ field (if image_reference_type c = Digest then lit ''Digest'' else lit ''Tag'') (code ref)
       @ field (lit ''Ports'') (pills port_list (lit ''None''))
       @ field (lit ''Environment'') (nat_text (env_count c) @ (lit '' direct '' @ [0xB7] @ lit '' '') @ nat_text (env_from_count c) @ lit '' sources'')
       @ field (lit ''Probes'') (pills (probes c) (lit ''None configured''))
       @ field (lit ''Requests'') (pills requests (lit ''None''))
       @ field (lit ''Limits'') (pills limits (lit ''None''))
       @ field (lit ''Mounts'') (pills (mounts c) (lit ''None''))
       @ lit ''  </dl>'' @ lit ''</div>'')
   }"

fun schema_label :: "schema_status \<Rightarrow> jstr" where
  "schema_label Schema_valid = lit ''Schema valid''"
| "schema_label Schema_invalid = lit ''Schema invalid''"
| "schema_label Unsupported = lit ''Schema unsupported''"
| "schema_label Schema_unavailable = lit ''CRD schema unavailable''"
| "schema_label Not_evaluated = lit ''Schema not evaluated''"

definition schema_badge :: "schema_result \<Rightarrow> jstr" where
  "schema_badge r = lit ''<span class=\"schema-badge '' @ escape_html (status_text (schema_status r)) @ lit ''\">''
     @ escape_html (schema_label (schema_status r)) @ dot @ escape_html (schema_version r) @ lit ''</span>''"

subsection \<open>Messages\<close>

text \<open>
  \<open>encodeURIComponent\<close>: the unreserved characters stand for themselves, every other code point for the
  bytes of its UTF-8 form; a surrogate on its own throws.
\<close>

definition unreserved :: "code_unit \<Rightarrow> bool" where
  "unreserved u \<longleftrightarrow> is_digit u \<or> 65 \<le> u \<and> u \<le> 90 \<or> 97 \<le> u \<and> u \<le> 122
     \<or> u \<in> set (lit ''-_.!~*()'') \<or> u = 39"

definition upper_hex :: "nat \<Rightarrow> code_unit" where
  "upper_hex n = (if n < 10 then 48 + of_nat n else 55 + of_nat n)"

definition percent :: "nat \<Rightarrow> jstr" where
  "percent b = [37, upper_hex (b div 16), upper_hex (b mod 16)]"

definition utf8 :: "nat \<Rightarrow> nat list" where
  "utf8 n =
     (if n < 0x80 then [n]
      else if n < 0x800 then [0xC0 + n div 64, 0x80 + n mod 64]
      else if n < 0x10000 then [0xE0 + n div 4096, 0x80 + n div 64 mod 64, 0x80 + n mod 64]
      else [0xF0 + n div 262144, 0x80 + n div 4096 mod 64, 0x80 + n div 64 mod 64, 0x80 + n mod 64])"

fun encode_uri :: "jstr \<Rightarrow> jstr option" where
  "encode_uri [] = Some []"
| "encode_uri (u # us) =
     (if unreserved u then map_option (Cons u) (encode_uri us)
      else if 0xDC00 \<le> u \<and> u \<le> 0xDFFF then None
      else if 0xD800 \<le> u \<and> u \<le> 0xDBFF then
        (case us of
           [] \<Rightarrow> None
         | v # vs \<Rightarrow>
             if 0xDC00 \<le> v \<and> v \<le> 0xDFFF
             then map_option (\<lambda>t. concat (map percent
               (utf8 (0x10000 + (unat u - 0xD800) * 1024 + (unat v - 0xDC00)))) @ t) (encode_uri vs)
             else None)
      else map_option (\<lambda>t. concat (map percent (utf8 (unat u))) @ t) (encode_uri us))"

text \<open>
  What \<open>messages\<close> reads of an item: a finding, a diagnostic or a schema result. Absent texts are empty,
  which the code treats alike.
\<close>

record message_item =
  m_level :: jstr
  m_title :: jstr
  m_document :: nat
  m_text :: jstr
  m_path :: jstr
  m_line :: nat
  m_column :: nat
  m_suggestion :: jstr
  m_example :: jstr
  m_caution :: jstr
  m_standard :: "standard option"
  m_standards :: "standard list"

definition standard_link :: "standard \<Rightarrow> jstr" where
  "standard_link s = lit ''<a href=\"'' @ escape_html (std_url s) @ lit ''\" target=\"_blank\" rel=\"noopener noreferrer\">OWASP ''
     @ escape_html (std_id s) @ dot @ escape_html (std_title s) @ lit ''</a>''"

text \<open>The standards a finding cites: the list, or the single one.\<close>

definition cited :: "message_item \<Rightarrow> standard list" where
  "cited item = (if m_standards item \<noteq> [] then m_standards item
     else case m_standard item of Some s \<Rightarrow> [s] | None \<Rightarrow> [])"

definition example_html :: "message_item \<Rightarrow> jstr \<Rightarrow> jstr" where
  "example_html item encoded =
     lit ''<div class=\"guidance-heading\"><b>Recommended YAML</b><button class=\"copy-guidance\" data-example=\"''
     @ escape_html encoded @ lit ''\">Copy YAML</button></div>''
     @ lit ''<pre><code>'' @ escape_html (m_example item) @ lit ''</code></pre>''"

definition guidance_html :: "message_item \<Rightarrow> jstr \<Rightarrow> jstr" where
  "guidance_html item encoded = lit ''<details class=\"fix-guidance\"><summary>Fix guidance</summary><div>''
     @ provided (m_example item \<noteq> []) (example_html item encoded)
     @ provided (m_caution item \<noteq> [])
         (lit ''<p class=\"guidance-caution\"><b>Before applying:</b> '' @ escape_html (m_caution item) @ lit ''</p>'')
     @ provided (cited item \<noteq> [])
         (lit ''<p class=\"guidance-standard\"><b>Security reference''
          @ (if length (cited item) = 1 then lit '':</b> '' else lit ''s:</b> '')
          @ join dot (map standard_link (cited item)) @ lit ''</p>'')
     @ lit ''</div></details>''"

definition fix_guidance :: "message_item \<Rightarrow> jstr option" where
  "fix_guidance item =
     (if m_example item = [] \<and> m_caution item = [] \<and> m_standard item = None then Some []
      else map_option (guidance_html item) (encode_uri (m_example item)))"

text \<open>Line and column are numbers and appear as they are; line 0 and column 0 count as absent.\<close>

definition position_attributes :: "message_item \<Rightarrow> jstr" where
  "position_attributes item = lit ''\" data-line=\"'' @ nat_text (m_line item) @ lit ''\" data-column=\"''
     @ nat_text (if m_column item = 0 then 1 else m_column item)"

definition message_path :: "message_item \<Rightarrow> jstr" where
  "message_path item = provided (m_path item \<noteq> [])
     (if m_line item \<noteq> 0
      then lit ''<button class=\"message-path'' @ position_attributes item
        @ lit ''\" aria-label=\"Go to '' @ escape_html (m_path item) @ lit '' in the YAML editor\"><span>YAML path</span><code>''
        @ escape_html (m_path item) @ lit ''</code></button>''
      else lit ''<div class=\"message-path\"><span>YAML path</span><code>'' @ escape_html (m_path item) @ lit ''</code></div>'')"

definition message_location :: "message_item \<Rightarrow> jstr" where
  "message_location item = provided (m_line item \<noteq> 0)
     (lit ''<button class=\"message-location'' @ position_attributes item @ lit ''\">Line '' @ nat_text (m_line item)
      @ (if m_column item \<noteq> 0 then lit '', column '' @ nat_text (m_column item) else []) @ lit ''</button>'')"

definition message_level :: "jstr \<Rightarrow> message_item \<Rightarrow> jstr" where
  "message_level fallback_level item = (if m_level item \<noteq> [] then m_level item else fallback_level)"

definition message_body :: "jstr \<Rightarrow> message_item \<Rightarrow> jstr \<Rightarrow> jstr" where
  "message_body level item guidance =
     lit ''<div class=\"message '' @ level @ lit ''\"><span>'' @ escape_html level @ lit ''</span><div><strong>''
     @ escape_html (if m_title item \<noteq> [] then m_title item else lit ''Document '' @ nat_text (m_document item))
     @ lit ''</strong><p>'' @ escape_html (m_text item) @ lit ''</p>'' @ message_path item
     @ provided (m_suggestion item \<noteq> [])
         (lit ''<p class=\"message-suggestion\"><b>Recommended change:</b> '' @ escape_html (m_suggestion item) @ lit ''</p>'')
     @ guidance @ message_location item @ lit ''</div></div>''"

definition message_html :: "jstr \<Rightarrow> message_item \<Rightarrow> jstr option" where
  "message_html fallback_level item =
     map_option (message_body (message_level fallback_level item) item) (fix_guidance item)"

definition messages :: "jstr \<Rightarrow> message_item list \<Rightarrow> jstr \<Rightarrow> jstr option" where
  "messages title items fallback_level =
     map_option (\<lambda>parts. lit ''<section class=\"messages\"><h3>'' @ escape_html title @ lit ''</h3>''
         @ concat parts @ lit ''</section>'')
       (traverse (message_html fallback_level) items)"

fun coverage_label :: "coverage \<Rightarrow> jstr" where
  "coverage_label Direct = lit ''Direct''"
| "coverage_label Partial = lit ''Partial''"
| "coverage_label Cluster_context = lit ''Cluster context required''"

definition profile_item :: "profile_entry \<Rightarrow> jstr" where
  "profile_item e = lit ''<article class=\"owasp-profile-item\">''
     @ lit ''<div><a href=\"'' @ escape_html (std_url (p_standard e)) @ lit ''\" target=\"_blank\" rel=\"noopener noreferrer\">''
     @ escape_html (std_id (p_standard e)) @ lit ''</a>''
     @ lit ''<strong>'' @ escape_html (std_title (p_standard e)) @ lit ''</strong></div>''
     @ lit ''<span class=\"coverage '' @ escape_html (coverage_text (p_coverage e)) @ lit ''\">''
     @ escape_html (coverage_label (p_coverage e)) @ lit ''</span>''
     @ lit ''<p>'' @ escape_html (evidence e) @ lit ''</p>''
     @ lit ''<small>'' @ escape_html (boundary e) @ lit ''</small>'' @ lit ''</article>''"

definition owasp_profile_view :: "profile_entry list \<Rightarrow> jstr" where
  "owasp_profile_view items = lit ''<section class=\"owasp-profile\">''
     @ lit ''<header><div><h3>OWASP Kubernetes Top 10:'' @ escape_html owasp_profile_version @ lit '' review profile</h3>''
     @ lit ''<p>Coverage describes what this browser-local file review can observe. It is not a compliance score or pass/fail result.</p></div>''
     @ lit ''<code title=\"Pinned OWASP source commit\">'' @ escape_html (slice owasp_source_commit 0 7) @ lit ''</code></header>''
     @ lit ''<div class=\"owasp-profile-list\">'' @ concat (map profile_item items) @ lit ''</div></section>''"

subsection \<open>Differences\<close>

definition diff_marker :: "row_type \<Rightarrow> jstr" where
  "diff_marker t = (case t of Added \<Rightarrow> lit ''+'' | Removed \<Rightarrow> [0x2212] | _ \<Rightarrow> [])"

definition diff_label :: "row_type \<Rightarrow> jstr" where
  "diff_label t = (case t of Added \<Rightarrow> lit ''Added line'' | Removed \<Rightarrow> lit ''Removed line'' | _ \<Rightarrow> lit ''Unchanged line'')"

text \<open>\<open>row.beforeNumber ?? ""\<close>.\<close>

definition row_number :: "nat option \<Rightarrow> jstr" where
  "row_number n = (case n of Some k \<Rightarrow> nat_text k | None \<Rightarrow> [])"

fun row_class :: "row_type \<Rightarrow> jstr" where
  "row_class Context = lit ''context''"
| "row_class Removed = lit ''removed''"
| "row_class Added = lit ''added''"

definition diff_row_html :: "diff_row \<Rightarrow> jstr" where
  "diff_row_html r = lit ''<div class=\"diff-row '' @ row_class (rtype r) @ lit ''\" aria-label=\"'' @ diff_label (rtype r) @ lit ''\">''
     @ lit ''<span class=\"diff-marker\" aria-hidden=\"true\">'' @ diff_marker (rtype r) @ lit ''</span>''
     @ lit ''<span class=\"diff-line-number\">'' @ row_number (before_number r) @ lit ''</span>''
     @ lit ''<span class=\"diff-line-number\">'' @ row_number (after_number r) @ lit ''</span>''
     @ lit ''<code>'' @ escape_html (if row_text r = [] then [32] else row_text r) @ lit ''</code></div>''"

definition diff_rows :: "diff_row list \<Rightarrow> jstr" where
  "diff_rows rs = concat (map diff_row_html rs)"

definition diff_summary :: "line_diff \<Rightarrow> jstr" where
  "diff_summary d = join dot
     ([nat_text (added d) @ lit '' added'', nat_text (removed d) @ lit '' removed'']
      @ (case newline_change d of
           None \<Rightarrow> []
         | Some Newline_added \<Rightarrow> [lit ''final newline added'']
         | Some Newline_removed \<Rightarrow> [lit ''final newline removed''])
      @ provided (line_endings_changed d) [lit ''line endings normalized'']
      @ provided (simplified d) [lit ''simplified alignment''])"

section \<open>Laws\<close>

text \<open>The characters that delimit markup and attribute values.\<close>

definition delimiter :: "code_unit \<Rightarrow> bool" where
  "delimiter u \<longleftrightarrow> u = 60 \<or> u = 62 \<or> u = 34 \<or> u = 39"

definition markup :: "jstr \<Rightarrow> jstr" where
  "markup h = filter delimiter h"

lemma markup_append [simp]: "markup (a @ b) = markup a @ markup b" "markup [] = []"
  by (simp_all add: markup_def)

lemma markup_concat: "markup (concat hs) = concat (map markup hs)"
  by (induction hs) simp_all

declare escape_unit.simps [simp del]

lemma markup_escape_unit: "markup (escape_unit u) = []"
  by (simp add: escape_unit.simps markup_def delimiter_def lit_Cons cu_def)

lemma markup_escape [simp]: "markup (escape_html s) = []"
  by (simp add: escape_html_def markup_concat comp_def markup_escape_unit concat_eq_Nil_conv)

lemma markup_digits [simp]: "markup (nat_text n) = []"
  using nat_text_digits [of _ n]
  by (fastforce simp: markup_def filter_empty_conv delimiter_def is_digit_def)

text \<open>
  How a browser reads text and attribute values: a character reference stands for its character, and
  a delimiter or an ampersand that starts no reference is refused.
\<close>

function read_html :: "jstr \<Rightarrow> jstr option" where
  "read_html [] = Some []"
| "read_html (u # us) =
     (if prefix (lit ''&amp;'') (u # us) then map_option (Cons 38) (read_html (drop 4 us))
      else if prefix (lit ''&lt;'') (u # us) then map_option (Cons 60) (read_html (drop 3 us))
      else if prefix (lit ''&gt;'') (u # us) then map_option (Cons 62) (read_html (drop 3 us))
      else if prefix (lit ''&#39;'') (u # us) then map_option (Cons 39) (read_html (drop 4 us))
      else if prefix (lit ''&quot;'') (u # us) then map_option (Cons 34) (read_html (drop 5 us))
      else if u = 38 \<or> delimiter u then None
      else map_option (Cons u) (read_html us))"
  by pat_completeness auto
termination
  by (relation "measure length") auto

lemma read_escape_unit: "read_html (escape_unit u @ s) = map_option (Cons u) (read_html s)"
  by (simp add: escape_unit.simps lit_Cons cu_def delimiter_def)

text \<open>Two items that differ in their texts only, not in which of them they have.\<close>

definition same_shape :: "message_item \<Rightarrow> message_item \<Rightarrow> bool" where
  "same_shape a b \<longleftrightarrow> (m_path a = []) = (m_path b = []) \<and> (m_line a = 0) = (m_line b = 0) \<and>
     (m_suggestion a = []) = (m_suggestion b = []) \<and> (m_example a = []) = (m_example b = []) \<and>
     (m_caution a = []) = (m_caution b = []) \<and> (m_standard a = None) = (m_standard b = None) \<and>
     length (m_standards a) = length (m_standards b)"

definition plain_level :: "message_item \<Rightarrow> bool" where
  "plain_level i \<longleftrightarrow> markup (m_level i) = []"

lemma markup_provided [simp]: "markup (provided c h) = provided c (markup h)"
  by (simp add: provided_def)

lemma markup_dot [simp]: "markup dot = []"
  by (simp add: dot_def markup_def delimiter_def lit_Cons cu_def)

lemma markup_standard: "markup (standard_link s) = markup (standard_link t)"
  by (simp add: standard_link_def)

lemma markup_join: "markup (join sep hs) = join (markup sep) (map markup hs)"
  by (induction sep hs rule: join.induct) simp_all

lemma markup_links:
  "length ss = length ts \<Longrightarrow> markup (join dot (map standard_link ss)) = markup (join dot (map standard_link ts))"
proof -
  assume "length ss = length ts"
  moreover have "map (\<lambda>s. markup (standard_link s)) ts = replicate (length ts) c"
    if "\<And>s. markup (standard_link s) = c" for ts c
    using that by (simp add: map_replicate_const)
  ultimately have "map (\<lambda>s. markup (standard_link s)) ss = map (\<lambda>s. markup (standard_link s)) ts"
    using markup_standard by metis
  then show ?thesis by (simp add: markup_join comp_def)
qed

lemma cited_length: "same_shape a b \<Longrightarrow> length (cited a) = length (cited b)"
  by (auto simp: same_shape_def cited_def split: option.splits)

lemma guidance_markup: "same_shape a b \<Longrightarrow> markup (guidance_html a e) = markup (guidance_html b f)"
proof -
  assume shape: "same_shape a b"
  have len: "length (cited a) = length (cited b)" by (rule cited_length [OF shape])
  then have "(cited a = []) = (cited b = [])" by (metis length_0_conv)
  with shape markup_links [OF len] len show ?thesis
    by (simp add: guidance_html_def example_html_def same_shape_def)
qed

lemma column_markup [simp]: "markup (lit '', column '') = []"
  by (simp add: markup_def delimiter_def lit_Cons cu_def)

lemma position_markup:
  "same_shape a b \<Longrightarrow> markup (message_path a) = markup (message_path b)"
  "same_shape a b \<Longrightarrow> markup (message_location a) = markup (message_location b)"
  by (simp_all add: same_shape_def message_path_def message_location_def position_attributes_def
      if_distrib [of markup] cong: if_cong)

lemma message_markup:
  assumes "message_html level a = Some g" "message_html level b = Some h" "same_shape a b"
    and "plain_level a" "plain_level b" "markup level = []"
  shows "markup g = markup h"
proof -
  obtain x y where xy: "fix_guidance a = Some x" "fix_guidance b = Some y"
    "g = message_body (message_level level a) a x" "h = message_body (message_level level b) b y"
    using assms(1,2) by (auto simp: message_html_def)
  have "markup x = markup y"
    using xy(1,2) assms(3) guidance_markup [OF assms(3)]
    by (auto simp: fix_guidance_def same_shape_def split: if_splits)
  moreover have "markup (message_level level i) = []" if "plain_level i" for i
    using that assms(6) by (simp add: message_level_def plain_level_def)
  moreover have "(m_suggestion a = []) = (m_suggestion b = [])" using assms(3) by (simp add: same_shape_def)
  ultimately show ?thesis
    using assms(4,5) position_markup [OF assms(3)] by (simp add: xy(3,4) message_body_def)
qed

section \<open>Properties\<close>

text \<open>C27: escaping is exact: a browser reads escaped text back as the text itself, in element content
  and in attribute values, whatever it holds; carriage returns and NUL, which a browser replaces before it
  parses, it reads as they are after that.\<close>

theorem escape_html_reads_back: "read_html (escape_html s) = Some s"
  by (induction s) (simp_all add: escape_html_def read_escape_unit)

text \<open>No text of a finding or diagnostic can inject markup: two message lists that have the same
  fields present, whatever the manifests put into them, produce the same sequence of tags and quotes,
  that is, the same elements.\<close>

theorem messages_markup_is_fixed:
  assumes "messages title items level = Some g" and "messages title' items' level = Some h"
    and "list_all2 same_shape items items'" and "list_all plain_level (items @ items')"
    and "markup level = []"
  shows "markup g = markup h"
proof -
  obtain gs hs where gs: "traverse (message_html level) items = Some gs"
    "traverse (message_html level) items' = Some hs"
    using assms(1,2) by (auto simp: messages_def)
  have "map markup gs = map markup hs"
  proof (rule nth_equalityI)
    have len: "length items = length items'" using assms(3) by (rule list_all2_lengthD)
    with gs show "length (map markup gs) = length (map markup hs)" by (simp add: traverse_length)
    fix i assume "i < length (map markup gs)"
    then have i: "i < length gs" "i < length hs" "i < length items" "i < length items'"
      using len gs by (simp_all add: traverse_length)
    have "markup (gs ! i) = markup (hs ! i)"
    proof (rule message_markup)
      show "message_html level (items ! i) = Some (gs ! i)" "message_html level (items' ! i) = Some (hs ! i)"
        using gs i by (auto simp: traverse_Some_iff list_all2_conv_all_nth)
      show "same_shape (items ! i) (items' ! i)" using assms(3) i by (simp add: list_all2_conv_all_nth)
      show "plain_level (items ! i)" "plain_level (items' ! i)"
        using assms(4) i by (auto simp: list_all_iff)
    qed (rule assms(5))
    then show "map markup gs ! i = map markup hs ! i" using i by simp
  qed
  then show ?thesis using assms(1,2) gs by (auto simp: messages_def markup_concat)
qed

definition plain_item :: "jstr \<Rightarrow> message_item" where
  "plain_item s = \<lparr>m_level = lit ''note'', m_title = s @ [60], m_document = 1, m_text = s, m_path = [],
     m_line = 0, m_column = 0, m_suggestion = [], m_example = [], m_caution = [], m_standard = None,
     m_standards = []\<rparr>"

lemma messages_markup_is_fixed_witness:
  "markup (the (messages [] [plain_item (lit ''<script>'')] [])) = markup (the (messages [] [plain_item []] []))"
proof (rule messages_markup_is_fixed)
  show "messages [] [plain_item (lit ''<script>'')] [] = Some (the (messages [] [plain_item (lit ''<script>'')] []))"
    "messages [] [plain_item []] [] = Some (the (messages [] [plain_item []] []))"
    by (simp_all add: messages_def message_html_def fix_guidance_def plain_item_def)
qed (simp_all add: same_shape_def plain_level_def plain_item_def markup_def delimiter_def lit_Cons cu_def)

end
