(* ===== verification/Panels.thy ===== *)
theory Panels
  imports Views
begin

text \<open>
  The three tabs of \<open>main.js\<close> over an analysis: \<open>summaryView\<close>, \<open>validationView\<close> with its level filter, and
  \<open>treeView\<close> with the search, and the badge and status line that \<open>render\<close> computes beside them. A view
  that turns a value into text may throw (\<open>None\<close>). \<open>low\<close> is the host's \<open>toLocaleLowerCase\<close>.
\<close>

section \<open>Summary\<close>

definition message_of_diagnostic :: "jstr \<Rightarrow> diagnostic \<Rightarrow> message_item" where
  "message_of_diagnostic level d =
     \<lparr>m_level = level, m_title = [], m_document = diag_document d, m_text = diag_message d, m_path = [],
      m_line = diag_line d, m_column = diag_column d, m_suggestion = [], m_example = [], m_caution = [],
      m_standard = None, m_standards = []\<rparr>"

definition parse_errors :: "analysis \<Rightarrow> jstr option" where
  "parse_errors a = messages (lit ''YAML could not be parsed'') (map (message_of_diagnostic []) (all_errors a)) (lit ''error'')"

definition entries_text :: "nat \<Rightarrow> jstr \<Rightarrow> jstr \<Rightarrow> jstr" where
  "entries_text n one many = nat_text n @ lit '' top-level '' @ (if n = 1 then one else many)"

definition general_card :: "general_document \<Rightarrow> jstr option" where
  "general_card d = do {
     scalar \<leftarrow> (if root_type d = Scalar then to_str (scalar_value d) else Some []);
     let shape = (case root_type d of
         Mapping \<Rightarrow> entries_text (default_to (entry_count d) 0) (lit ''entry'') (lit ''entries'')
       | Sequence \<Rightarrow> entries_text (default_to (entry_count d) 0) (lit ''item'') (lit ''items'')
       | Scalar \<Rightarrow> lit ''Scalar value'');
     Some (lit ''<article class=\"resource-card general-card\">''
       @ lit ''  <header><span class=\"kind\">'' @ escape_html (root_type_text (root_type d))
       @ lit ''</span><div><h3>Document '' @ nat_text (gen_index d) @ lit ''</h3><p>'' @ escape_html shape @ lit ''</p></div></header>''
       @ lit ''  <dl class=\"field-grid\">''
       @ provided (root_type d = Mapping) (field (lit ''Top-level keys'') (pills (keys d) (lit ''None'')))
       @ provided (root_type d = Scalar) (field (lit ''Value'') (code (escape_html scalar)))
       @ lit ''  </dl>'' @ lit ''</article>'')
   }"

definition card_service_port :: "jsval \<Rightarrow> jstr option" where
  "card_service_port p = do {
     given \<leftarrow> get p (lit ''name'');
     name \<leftarrow> to_str (or_else given (jlit ''unnamed''));
     number \<leftarrow> to_str (opt_get p (lit ''port''));
     target \<leftarrow> to_str (if nullish (opt_get p (lit ''targetPort'')) then opt_get p (lit ''port'')
       else opt_get p (lit ''targetPort''));
     node \<leftarrow> (if truthy (opt_get p (lit ''nodePort''))
       then map_option (\<lambda>t. (lit '' '' @ [0xB7] @ lit '' node '') @ t) (to_str (opt_get p (lit ''nodePort'')))
       else Some []);
     Some (name @ lit '': '' @ number @ (lit '' '' @ [0x2192] @ lit '' '') @ target @ node)
   }"

definition provided_field :: "bool \<Rightarrow> string \<Rightarrow> jstr option \<Rightarrow> jstr option" where
  "provided_field c label content = (if c then map_option (field (lit label)) content else Some [])"

definition resource_card :: "document \<Rightarrow> jstr option" where
  "resource_card d = do {
     k \<leftarrow> js_escape (kind d);
     name \<leftarrow> js_escape (doc_name d);
     version \<leftarrow> js_escape (api_version d);
     space_name \<leftarrow> js_escape (namespace d);
     verdict \<leftarrow> schema d;
     replica_field \<leftarrow> provided_field (replicas d \<noteq> JNull) ''Replicas'' (js_escape (replicas d));
     type_field \<leftarrow> provided_field (truthy (service_type d)) ''Service type'' (js_escape (service_type d));
     account_field \<leftarrow> provided_field (containers d \<noteq> []) ''Service account'' (js_escape (service_account d));
     volume_field \<leftarrow> provided_field (volumes d \<noteq> []) ''Volumes'' (map_option (\<lambda>ts. pills ts (lit ''None''))
       (traverse (\<lambda>(n, t). map_option (\<lambda>n. n @ lit '': '' @ t) (to_str n)) (volumes d)));
     port_field \<leftarrow> provided_field (service_ports d \<noteq> []) ''Service ports''
       (map_option (\<lambda>ts. pills ts (lit ''None'')) (traverse card_service_port (service_ports d)));
     cards \<leftarrow> traverse container_card (containers d);
     Some (lit ''<article class=\"resource-card\">''
       @ lit ''  <header><span class=\"kind\">'' @ k @ lit ''</span><div><h3>'' @ name @ lit ''</h3><p>'' @ version @ dot @ space_name
       @ lit ''</p></div><div class=\"resource-status\">'' @ schema_badge verdict @ lit ''<small>Document ''
       @ nat_text (index d) @ lit ''</small></div></header>''
       @ lit ''  <dl class=\"field-grid\">'' @ replica_field @ type_field
       @ field (lit ''Labels'') (pills (doc_labels d) (lit ''None''))
       @ provided (doc_selector d \<noteq> []) (field (lit ''Selector'') (pills (doc_selector d) (lit ''None'')))
       @ account_field @ volume_field @ port_field @ lit ''  </dl>'' @ concat cards @ lit ''</article>'')
   }"

definition summary_view :: "analysis \<Rightarrow> jstr option" where
  "summary_view a =
     (if all_errors a \<noteq> [] then parse_errors a
      else if document_count a = 0 then Some (lit ''<div class=\"empty\"><div>{ }</div><h3>Paste or open YAML</h3><p>The report updates as you type and supports multi-document files.</p></div>'')
      else if mode_of a = General then map_option concat (traverse general_card (generals_of a))
      else map_option concat (traverse resource_card (resources_of a)))"

section \<open>Validation\<close>

datatype level_filter = All_levels | Only level

definition filter_value :: "level_filter \<Rightarrow> jstr" where
  "filter_value f = (case f of All_levels \<Rightarrow> lit ''all'' | Only l \<Rightarrow> level_name l)"

definition validation_filters :: "(level_filter \<times> jstr) list" where
  "validation_filters = [(All_levels, lit ''All''), (Only Error, lit ''Errors''), (Only Warning, lit ''Warnings''),
     (Only Note, lit ''Notes''), (Only Valid, lit ''Valid'')]"

definition filter_button :: "level_filter \<Rightarrow> (level \<Rightarrow> nat) \<Rightarrow> nat \<Rightarrow> level_filter \<times> jstr \<Rightarrow> jstr" where
  "filter_button current counts whole entry = (case entry of (f, label) \<Rightarrow>
     let n = (case f of All_levels \<Rightarrow> whole | Only l \<Rightarrow> counts l); selected = (f = current)
     in lit ''<button class=\"validation-filter'' @ provided selected (lit '' active'') @ lit ''\" data-validation-filter=\"''
        @ filter_value f @ lit ''\" aria-pressed=\"'' @ (if selected then lit ''true'' else lit ''false'')
        @ lit ''\" aria-label=\"'' @ label @ lit '', '' @ counted n ''validation result'' @ lit ''\">'' @ label
        @ lit ''<span aria-hidden=\"true\">'' @ nat_text n @ lit ''</span></button>'')"

definition validation_filter_controls :: "level_filter \<Rightarrow> (level \<Rightarrow> nat) \<Rightarrow> nat \<Rightarrow> nat \<Rightarrow> jstr" where
  "validation_filter_controls current counts whole visible =
     lit ''<div class=\"validation-filter-bar\">''
     @ lit ''<div class=\"validation-filters\" role=\"group\" aria-label=\"Filter validation results by level\">''
     @ concat (map (filter_button current counts whole) validation_filters) @ lit ''</div>''
     @ provided (current \<noteq> All_levels)
         (lit ''<p class=\"validation-filter-summary\" role=\"status\" aria-live=\"polite\" aria-atomic=\"true\">Displaying ''
          @ nat_text visible @ lit '' of '' @ nat_text whole @ lit '' validation results</p>'')
     @ lit ''</div>''"

definition message_of_finding :: "jstr \<Rightarrow> finding \<Rightarrow> message_item" where
  "message_of_finding title f =
     \<lparr>m_level = level_name (f_level f), m_title = title, m_document = 0,
      m_text = (if f_explanation f \<noteq> [] then f_explanation f else f_detail f), m_path = f_path f,
      m_line = default_to (f_line f) 0, m_column = default_to (f_column f) 0,
      m_suggestion = f_suggestion f, m_example = default_to (f_example f) [],
      m_caution = default_to (f_caution f) [], m_standard = f_standard f,
      m_standards = default_to (f_standards f) []\<rparr>"

definition message_of_schema_error :: "jstr \<Rightarrow> schema_error \<Rightarrow> message_item" where
  "message_of_schema_error title e =
     \<lparr>m_level = level_name (e_level e), m_title = title, m_document = 0, m_text = e_explanation e,
      m_path = e_path e, m_line = default_to (e_line e) 0, m_column = default_to (e_column e) 0,
      m_suggestion = [], m_example = [], m_caution = [], m_standard = None, m_standards = []\<rparr>"

fun verdict_level :: "schema_status \<Rightarrow> level" where
  "verdict_level Schema_valid = Valid"
| "verdict_level Unsupported = Note"
| "verdict_level Schema_unavailable = Warning"
| "verdict_level Not_evaluated = Warning"
| "verdict_level Schema_invalid = Note"

definition message_of_verdict :: "jstr \<Rightarrow> schema_result \<Rightarrow> message_item" where
  "message_of_verdict title r =
     \<lparr>m_level = level_name (verdict_level (schema_status r)), m_title = title, m_document = 0,
      m_text = schema_message r, m_path = [], m_line = 0, m_column = 0, m_suggestion = [],
      m_example = [], m_caution = [], m_standard = None, m_standards = []\<rparr>"

definition operational_items :: "document \<Rightarrow> message_item list option" where
  "operational_items d = traverse (\<lambda>f.
     map_option (\<lambda>t. message_of_finding (t @ lit '': '' @ f_title f) f) (identity_text d)) (doc_findings d)"

definition schema_items :: "document \<Rightarrow> message_item list option" where
  "schema_items d = do {
     identity \<leftarrow> identity_text d;
     r \<leftarrow> schema d;
     Some (if schema_status r = Schema_invalid
       then map (\<lambda>e. message_of_schema_error (identity @ lit '': '' @ e_title e) e) (schema_errors r)
       else [message_of_verdict identity r])
   }"

text \<open>A section: its title, its items and the level of items without one.\<close>

definition validation_sections :: "analysis \<Rightarrow> (jstr \<times> message_item list \<times> jstr) list option" where
  "validation_sections a = do {
     operational \<leftarrow> traverse operational_items (resources_of a);
     verdicts \<leftarrow> (if mode_of a = Kubernetes then traverse schema_items (resources_of a) else Some []);
     Some [(lit ''YAML syntax'', map (message_of_diagnostic (lit ''error'')) (syntax_errors a)
              @ map (message_of_diagnostic (lit ''warning'')) (syntax_warnings a), lit ''error''),
       (lit ''Kubernetes document structure'', map (message_of_diagnostic (lit ''error'')) (document_errors a), lit ''error''),
       (lit ''Deterministic operational review'', concat operational, lit ''warning''),
       ((lit ''Kubernetes schema '' @ [0xB7] @ lit '' '') @ kubernetes_schema_version, concat verdicts, lit ''note'')]
   }"

definition section_count :: "(jstr \<times> message_item list \<times> jstr) list \<Rightarrow> level \<Rightarrow> nat" where
  "section_count sections l = sum_list (map (\<lambda>(_, items, fallback).
     length (filter (\<lambda>i. message_level fallback i = level_name l) items)) sections)"

definition total_count :: "(level \<Rightarrow> nat) \<Rightarrow> nat" where
  "total_count counts = sum_list (map counts [Error, Warning, Note, Valid])"

definition visible_items :: "level_filter \<Rightarrow> jstr \<times> message_item list \<times> jstr \<Rightarrow> message_item list" where
  "visible_items current section = (case section of (_, items, fallback) \<Rightarrow>
     (case current of
        All_levels \<Rightarrow> items
      | Only l \<Rightarrow> filter (\<lambda>i. message_level fallback i = level_name l) items))"

definition visible_section :: "level_filter \<Rightarrow> jstr \<times> message_item list \<times> jstr \<Rightarrow> jstr option" where
  "visible_section current section = (case section of (title, items, fallback) \<Rightarrow>
     if visible_items current section = [] then Some []
     else messages title (visible_items current section) fallback)"

definition visible_count :: "level_filter \<Rightarrow> (level \<Rightarrow> nat) \<Rightarrow> nat" where
  "visible_count current counts =
     (case current of All_levels \<Rightarrow> total_count counts | Only l \<Rightarrow> counts l)"

definition no_findings :: "analysis \<Rightarrow> jstr" where
  "no_findings a = (lit ''<div class=\"empty success\"><div>'' @ [0x2713] @ lit ''</div><h3>No findings in the current checks</h3><p>'')
     @ escape_html (if mode_of a = General
         then lit ''The YAML parsed successfully. Kubernetes operational and schema checks are disabled in General YAML mode.''
         else lit ''The YAML parsed and passed the Workbench's bounded review.'')
     @ lit ''</p></div>''"

definition filtered_empty :: "level_filter \<Rightarrow> nat \<Rightarrow> jstr" where
  "filtered_empty current whole =
     lit ''<div class=\"empty filtered-empty\"><div>0</div><h3>No '' @ escape_html (filter_value current)
     @ lit '' results in the current analysis</h3><p>The complete analysis still contains ''
     @ counted whole ''validation result'' @ lit ''. Choose another filter to review them.</p></div>''"

definition validation_view :: "level_filter \<Rightarrow> analysis \<Rightarrow> jstr option" where
  "validation_view current a = do {
     sections \<leftarrow> validation_sections a;
     let counts = section_count sections;
     let whole = total_count counts;
     let controls = validation_filter_controls current counts whole (visible_count current counts);
     let owasp = provided (mode_of a = Kubernetes \<and> owasp_profile a \<noteq> []) (owasp_profile_view (owasp_profile a));
     if whole = 0 then Some (controls @ no_findings a @ owasp)
     else map_option (\<lambda>parts. controls @ concat parts
         @ provided (current \<noteq> All_levels \<and> visible_count current counts = 0) (filtered_empty current whole)
         @ owasp)
       (traverse (visible_section current) sections)
   }"

section \<open>Tree\<close>

definition highlighted_text :: "(jstr \<Rightarrow> jstr) \<Rightarrow> jstr \<Rightarrow> jstr \<Rightarrow> jstr option" where
  "highlighted_text low query s = map_option
     (\<lambda>ranges. concat (map (\<lambda>r. if is_match r then lit ''<mark>'' @ escape_html (range_text r) @ lit ''</mark>''
        else escape_html (range_text r)) ranges))
     (matching_text_ranges low s query)"

text \<open>The ordinary status of the search: nothing to search in, no match, or the place of the active one.\<close>

definition search_status :: "jstr \<Rightarrow> nat \<Rightarrow> nat option \<Rightarrow> jstr \<Rightarrow> bool \<Rightarrow> jstr" where
  "search_status query match_count active_index active_path searchable =
     (if trim query = [] then lit ''Enter a literal search term''
      else if \<not> searchable then (lit ''0 matches '' @ [0xB7] @ lit '' no searchable tree'')
      else if match_count = 0 then lit ''0 matches''
      else nat_text match_count @ lit '' match'' @ (if match_count = 1 then [] else lit ''es'') @ dot
        @ nat_text (case active_index of Some i \<Rightarrow> i + 1 | None \<Rightarrow> 0) @ lit '' of '' @ nat_text match_count
        @ dot @ active_path)"

definition tree_search_controls :: "jstr \<Rightarrow> nat \<Rightarrow> nat option \<Rightarrow> jstr \<Rightarrow> bool \<Rightarrow> jstr" where
  "tree_search_controls query match_count active_index active_path searchable =
     (let navigation_disabled = provided (match_count = 0) (lit '' disabled'')
      in lit ''<section class=\"tree-search-region\" role=\"search\" aria-label=\"Search YAML tree\">''
     @ lit ''  <label for=\"tree-search\">Search keys, values, and paths</label>''
     @ lit ''  <div class=\"tree-search-controls\">''
     @ lit ''    <input id=\"tree-search\" type=\"search\" value=\"'' @ escape_html query
     @ lit ''\" autocomplete=\"off\" spellcheck=\"false\" aria-describedby=\"tree-search-status\" aria-keyshortcuts=\"Enter Shift+Enter Escape Control+F Meta+F\" />''
     @ lit ''    <button id=\"tree-search-previous\" class=\"quiet\"'' @ navigation_disabled @ lit ''>Previous</button>''
     @ lit ''    <button id=\"tree-search-next\" class=\"quiet\"'' @ navigation_disabled @ lit ''>Next</button>''
     @ lit ''    <button id=\"tree-search-clear\" class=\"quiet\"'' @ provided (query = []) (lit '' disabled'') @ lit ''>Clear</button>''
     @ lit ''  </div>''
     @ lit ''  <p id=\"tree-search-status\" role=\"status\" aria-live=\"polite\" aria-atomic=\"true\">''
     @ escape_html (search_status query match_count active_index active_path searchable) @ lit ''</p>''
     @ lit ''</section>'')"

record tree_state =
  host_lower :: "jstr \<Rightarrow> jstr"
  tree_query :: jstr
  match_ids :: "jstr list"
  expanded_ids :: "jstr list"
  active_id :: "jstr option"

definition tree_classes :: "tree_state \<Rightarrow> jstr \<Rightarrow> jstr" where
  "tree_classes t i = provided (i \<in> set (match_ids t)) (lit '' tree-match'')
     @ provided (i \<in> set (match_ids t) \<and> active_id t = Some i) (lit '' tree-active-match'')"

definition state_attributes :: "tree_state \<Rightarrow> jstr \<Rightarrow> jstr" where
  "state_attributes t i = lit '' data-tree-id=\"'' @ escape_html i @ lit ''\"''
     @ provided (i \<in> set (match_ids t)) (lit '' data-tree-match=\"true\"'')
     @ provided (i \<in> set (match_ids t) \<and> active_id t = Some i) (lit '' aria-current=\"true\"'')"

definition tree_leaf :: "tree_state \<Rightarrow> jstr \<Rightarrow> jstr \<Rightarrow> jstr \<Rightarrow> jstr \<Rightarrow> jstr" where
  "tree_leaf t i key content path_text =
     lit ''<div class=\"tree-leaf'' @ tree_classes t i @ lit ''\"'' @ state_attributes t i @ lit ''><span class=\"tree-key\">'' @ key
     @ lit ''</span><code class=\"tree-value\">'' @ content @ lit ''</code><small class=\"tree-path\">'' @ path_text
     @ lit ''</small></div>''"

definition tree_details :: "tree_state \<Rightarrow> jstr \<Rightarrow> jstr \<Rightarrow> bool \<Rightarrow> jstr \<Rightarrow> bool \<Rightarrow> nat \<Rightarrow> jstr \<Rightarrow> jstr" where
  "tree_details t i key is_open path_text list entries children =
     lit ''<details class=\"tree-node'' @ tree_classes t i @ lit ''\"'' @ state_attributes t i @ provided is_open (lit '' open'')
     @ lit ''><summary><span class=\"tree-key\">'' @ key @ lit ''</span><em>''
     @ (if list then lit ''['' @ nat_text entries @ lit '']'' else lit ''{'' @ nat_text entries @ lit ''}'')
     @ lit ''</em><small class=\"tree-path\">'' @ path_text @ lit ''</small></summary><div>'' @ children @ lit ''</div></details>''"

function tree_node :: "tree_state \<Rightarrow> nat \<Rightarrow> jsval \<Rightarrow> jstr \<Rightarrow> jstr \<Rightarrow> nat \<Rightarrow> jstr option" where
  "tree_node t n v name path depth =
     (case (highlighted_text (host_lower t) (tree_query t) name,
            highlighted_text (host_lower t) (tree_query t) path) of
        (Some key, Some path_text) \<Rightarrow>
          if is_scalar v
          then map_option (\<lambda>content. tree_leaf t (node_id n path) key content path_text)
            (highlighted_text (host_lower t) (tree_query t) (scalar_text v))
          else map_option (\<lambda>children. tree_details t (node_id n path) key
              (depth < 2 \<or> node_id n path \<in> set (expanded_ids t)) path_text (is_array v)
              (length (own_entries v)) (concat children))
            (those (map (\<lambda>(k, w). tree_node t n w k (child_yaml_path path k (is_array v)) (depth + 1))
              (own_entries v)))
      | _ \<Rightarrow> None)"
  by pat_completeness auto
termination
  by (relation "measure (\<lambda>(_, _, v, _). size v)") (auto intro: child_smaller)

declare tree_node.simps [simp del]

text \<open>The documents of an analysis as the index and the tree read them.\<close>

definition indexed_values :: "analysis \<Rightarrow> (nat \<times> jsval) list" where
  "indexed_values a = map (\<lambda>d. (index d, raw d)) (resources_of a) @ map (\<lambda>d. (gen_index d, gen_raw d)) (generals_of a)"

definition tree_matches :: "(jstr \<Rightarrow> jstr) \<Rightarrow> jstr \<Rightarrow> analysis \<Rightarrow> tree_record list" where
  "tree_matches low query a = search_tree_index low (build_tree_search_index (indexed_values a)) query"

text \<open>\<open>findIndex\<close> of the active match.\<close>

definition match_index :: "tree_record list \<Rightarrow> jstr option \<Rightarrow> nat option" where
  "match_index matches active =
     (let n = length (takeWhile (\<lambda>r. Some (rec_id r) \<noteq> active) matches)
      in if n < length matches then Some n else None)"

text \<open>A view of the tree keeps the active match while it still matches and moves to the first one else.\<close>

definition settle_active :: "tree_record list \<Rightarrow> jstr option \<Rightarrow> jstr option" where
  "settle_active matches active =
     (case matches of
        [] \<Rightarrow> active
      | r # _ \<Rightarrow> (case match_index matches active of Some i \<Rightarrow> Some (rec_id (matches ! i)) | None \<Rightarrow> Some (rec_id r)))"

definition tree_identities :: "analysis \<Rightarrow> jstr option list" where
  "tree_identities a = (if mode_of a = Kubernetes then map identity_text (resources_of a)
     else map (\<lambda>d. Some (root_type_text (root_type d))) (generals_of a))"

definition tree_card :: "tree_state \<Rightarrow> jstr option \<Rightarrow> nat \<times> jsval \<Rightarrow> jstr option" where
  "tree_card t identity_given document = (case document of (n, v) \<Rightarrow> do {
     identity \<leftarrow> identity_given;
     node \<leftarrow> tree_node t n v (lit ''root'') (lit ''$'') 0;
     Some (lit ''<article class=\"tree-card\"><h3>Document '' @ nat_text n @ dot @ escape_html identity @ lit ''</h3>''
       @ node @ lit ''</article>'')
   })"

text \<open>The new active match and the view.\<close>

definition tree_view :: "(jstr \<Rightarrow> jstr) \<Rightarrow> jstr \<Rightarrow> jstr option \<Rightarrow> analysis \<Rightarrow> jstr option \<times> jstr option" where
  "tree_view low query given a =
     (let matches = tree_matches low query a;
          active = settle_active matches given;
          active_index = match_index matches active;
          active_path = (case active_index of Some i \<Rightarrow> rec_path (matches ! i) | None \<Rightarrow> []);
          t = \<lparr>host_lower = low, tree_query = query, match_ids = map rec_id matches,
               expanded_ids = concat (map ancestor_ids matches), active_id = active\<rparr>;
          controls = tree_search_controls query (length matches) active_index active_path
            (all_errors a = [] \<and> document_count a > 0)
      in (active,
          if all_errors a \<noteq> [] then map_option ((@) controls) (parse_errors a)
          else if document_count a = 0
          then Some (controls @ (lit ''<div class=\"empty\"><div>'' @ [0x2318] @ lit ''</div><h3>No document tree yet</h3></div>''))
          else map_option (\<lambda>cards. controls @ concat cards)
            (those (map2 (tree_card t) (tree_identities a) (indexed_values a)))))"

section \<open>The badge and the status line\<close>

definition invalid_schema_count :: "analysis \<Rightarrow> nat" where
  "invalid_schema_count a = (if mode_of a \<noteq> Kubernetes then 0
     else sum_list (map (\<lambda>d. case schema d of
       Some r \<Rightarrow> if schema_status r = Schema_invalid then length (schema_errors r) else 0 | None \<Rightarrow> 0) (resources_of a)))"

datatype tone = Neutral | Success | Problem | Caution

text \<open>\<open>status.className\<close> and \<open>status.textContent\<close> for a source.\<close>

definition status_line :: "jstr \<Rightarrow> analysis \<Rightarrow> tone \<times> jstr" where
  "status_line source a =
     (if trim source = [] then (Neutral, lit ''Waiting for YAML'')
      else if all_errors a \<noteq> [] then (Problem, counted (length (all_errors a)) ''YAML error'')
      else if invalid_schema_count a \<noteq> 0 then (Problem, counted (invalid_schema_count a) ''schema error'')
      else (if report_finding_count a \<noteq> 0 then Caution else Success,
        counted (document_count a) ''parsed document'' @
        (if report_finding_count a \<noteq> 0 then dot @ counted (report_finding_count a) ''finding''
         else (lit '' '' @ [0xB7] @ lit '' no findings''))))"

section \<open>Laws\<close>

subsection \<open>Levels and counts\<close>

lemma level_name_inject [simp]: "level_name a = level_name b \<longleftrightarrow> a = b"
  by (cases a; cases b) simp_all

lemma level_name_nonempty [simp]: "level_name l \<noteq> []"
  by (cases l) simp_all

definition levelled :: "jstr \<times> message_item list \<times> jstr \<Rightarrow> bool" where
  "levelled section \<longleftrightarrow> (\<forall>i \<in> set (fst (snd section)). \<exists>l. message_level (snd (snd section)) i = level_name l)"

lemma count_levels:
  assumes "\<forall>i \<in> set items. \<exists>l. f i = level_name l"
  shows "length (filter (\<lambda>i. f i = level_name Error) items) + length (filter (\<lambda>i. f i = level_name Warning) items)
    + length (filter (\<lambda>i. f i = level_name Note) items) + length (filter (\<lambda>i. f i = level_name Valid) items)
    = length items"
  using assms
proof (induction items)
  case (Cons i items)
  then obtain l where "f i = level_name l" by auto
  with Cons show ?case by (cases l) (auto simp del: level_name.simps)
qed simp

lemma whole_count:
  assumes "list_all levelled sections"
  shows "total_count (section_count sections) = length (concat (map (\<lambda>s. fst (snd s)) sections))"
  using assms
proof (induction sections)
  case (Cons s sections)
  obtain title items fallback where s: "s = (title, items, fallback)" by (cases s)
  have "length (filter (\<lambda>i. message_level fallback i = level_name Error) items)
    + length (filter (\<lambda>i. message_level fallback i = level_name Warning) items)
    + length (filter (\<lambda>i. message_level fallback i = level_name Note) items)
    + length (filter (\<lambda>i. message_level fallback i = level_name Valid) items) = length items"
    by (rule count_levels) (use Cons.prems s in \<open>simp add: levelled_def\<close>)
  with Cons s show ?case by (simp add: total_count_def section_count_def del: level_name.simps)
qed (simp add: total_count_def section_count_def)

lemma visible_counts:
  assumes "list_all levelled sections"
  shows "visible_count f (section_count sections) = length (concat (map (visible_items f) sections))"
proof (cases f)
  case All_levels
  have everything: "visible_items All_levels = (\<lambda>s. fst (snd s))"
    by (rule ext) (simp add: visible_items_def case_prod_beta)
  show ?thesis unfolding All_levels everything using whole_count [OF assms] by (simp add: visible_count_def)
next
  case (Only l)
  have "section_count sections l = length (concat (map (visible_items (Only l)) sections))"
    by (induction sections) (auto simp: section_count_def visible_items_def)
  with Only show ?thesis by (simp add: visible_count_def)
qed

lemma operational_items_SomeD:
  assumes "operational_items d = Some ms"
  shows "length ms = length (doc_findings d) \<and> (\<forall>i \<in> set ms. \<exists>l. m_level i = level_name l)"
proof -
  have "\<exists>l. m_level i = level_name l" if "i \<in> set ms" for i
    using traverse_mem [OF assms [unfolded operational_items_def] that] by (auto simp: message_of_finding_def)
  then show ?thesis using traverse_length [OF assms [unfolded operational_items_def]] by blast
qed

lemma schema_items_SomeD:
  assumes "schema_items d = Some ms"
  shows "length ms = schema_issues d + (if map_option schema_status (schema d) = Some Schema_valid then 1 else 0) \<and>
    (\<forall>i \<in> set ms. \<exists>l. m_level i = level_name l)"
proof -
  obtain t r where "identity_text d = Some t" "schema d = Some r"
    using assms by (auto simp: schema_items_def bind_eq_Some_conv)
  with assms show ?thesis
    by (auto simp: schema_items_def schema_issues_def message_of_schema_error_def message_of_verdict_def)
qed

lemma message_level_set: "m_level i = level_name l \<Longrightarrow> message_level fallback i = level_name l"
  by (simp add: message_level_def)

lemma diagnostic_level [simp]: "m_level (message_of_diagnostic l d) = l"
  by (simp add: message_of_diagnostic_def)

text \<open>What an inspection gives the Validation tab to count.\<close>

lemma valid_resources:
  "length (filter (\<lambda>d. map_option schema_status (schema d) = Some Schema_valid) ds) =
     sum_list (map (\<lambda>d. if map_option schema_status (schema d) = Some Schema_valid then 1 else 0) ds)"
  by (induction ds) auto

lemma sections_levelled:
  assumes "validation_sections a = Some sections"
  shows "list_all levelled sections"
proof -
  obtain os vs where parts: "traverse operational_items (resources_of a) = Some os"
    "(if mode_of a = Kubernetes then traverse schema_items (resources_of a) else Some []) = Some vs"
    "map snd sections = [(map (message_of_diagnostic (lit ''error'')) (syntax_errors a)
        @ map (message_of_diagnostic (lit ''warning'')) (syntax_warnings a), lit ''error''),
       (map (message_of_diagnostic (lit ''error'')) (document_errors a), lit ''error''),
       (concat os, lit ''warning''), (concat vs, lit ''note'')]"
    using assms by (auto simp: validation_sections_def bind_eq_Some_conv)
  have "\<exists>l. m_level i = level_name l" if "i \<in> set (concat os)" for i
    using that traverse_mem [OF parts(1)] operational_items_SomeD by fastforce
  moreover have "\<exists>l. m_level i = level_name l" if "i \<in> set (concat vs)" for i
    using that parts(2) traverse_mem [of schema_items "resources_of a" vs] schema_items_SomeD
    by (fastforce split: if_splits)
  moreover have "\<exists>l. lit ''error'' = level_name l" "\<exists>l. lit ''warning'' = level_name l"
    by (metis level_name.simps(1), metis level_name.simps(2))
  ultimately have "\<forall>s \<in> set (map snd sections). \<forall>i \<in> set (fst s). \<exists>l. m_level i = level_name l"
    unfolding parts(3) by auto
  then show ?thesis
    unfolding list_all_iff levelled_def using message_level_set by (metis (no_types, lifting) image_eqI list.set_map)
qed

lemma sections_length:
  assumes "validation_sections a = Some sections" and "mode_of a = Kubernetes"
  shows "length (concat (map (\<lambda>s. fst (snd s)) sections)) =
    length (syntax_errors a) + length (syntax_warnings a) + length (document_errors a)
    + sum_list (map (\<lambda>d. length (doc_findings d)) (resources_of a)) + sum_list (map schema_issues (resources_of a))
    + length (filter (\<lambda>d. map_option schema_status (schema d) = Some Schema_valid) (resources_of a))"
proof -
  obtain os vs where parts: "traverse operational_items (resources_of a) = Some os"
    "traverse schema_items (resources_of a) = Some vs"
    "map (\<lambda>s. fst (snd s)) sections = [map (message_of_diagnostic (lit ''error'')) (syntax_errors a)
        @ map (message_of_diagnostic (lit ''warning'')) (syntax_warnings a),
       map (message_of_diagnostic (lit ''error'')) (document_errors a), concat os, concat vs]"
    using assms by (auto simp: validation_sections_def bind_eq_Some_conv)
  have "map length os = map (\<lambda>d. length (doc_findings d)) (resources_of a)"
    using parts(1) operational_items_SomeD unfolding traverse_Some_iff
    by (intro list_all2_mapD) (auto elim!: list_all2_mono)
  moreover have "map length vs = map (\<lambda>d. schema_issues d
      + (if map_option schema_status (schema d) = Some Schema_valid then 1 else 0)) (resources_of a)"
    using parts(2) schema_items_SomeD unfolding traverse_Some_iff
    by (intro list_all2_mapD) (auto elim!: list_all2_mono)
  ultimately show ?thesis
    unfolding parts(3) valid_resources by (simp add: length_concat sum_list_addf)
qed

subsection \<open>The markup of a tree\<close>

text \<open>Two values of the same shape: they differ in keys and scalars only.\<close>

inductive same_tree :: "jsval \<Rightarrow> jsval \<Rightarrow> bool" where
  leaf: "is_scalar v \<Longrightarrow> is_scalar w \<Longrightarrow> same_tree v w"
| branch: "\<not> is_scalar v \<Longrightarrow> \<not> is_scalar w \<Longrightarrow> is_array v = is_array w \<Longrightarrow>
    list_all2 same_tree (map snd (own_entries v)) (map snd (own_entries w)) \<Longrightarrow> same_tree v w"

definition unsearched :: "tree_state \<Rightarrow> bool" where
  "unsearched t \<longleftrightarrow> trim (tree_query t) = [] \<and> host_lower t [] = [] \<and> match_ids t = [] \<and> expanded_ids t = []"

lemma highlight_unsearched:
  "trim q = [] \<Longrightarrow> low [] = [] \<Longrightarrow> highlighted_text low q s = Some (escape_html s)"
  by (simp add: highlighted_text_def matching_text_ranges_def normalized_query_def)

lemma tree_node_markup:
  assumes "unsearched t"
  shows "same_tree v w \<Longrightarrow> tree_node t i v a p depth = Some g \<Longrightarrow> tree_node t i w b q depth = Some h \<Longrightarrow>
    markup g = markup h"
proof (induction arbitrary: a p b q depth g h rule: same_tree.induct)
  case (leaf v w)
  then show ?case
    using assms by (auto simp: tree_node.simps [of t i v] tree_node.simps [of t i w] unsearched_def
        highlight_unsearched tree_leaf_def tree_classes_def state_attributes_def)
next
  case (branch v w)
  let ?kids = "\<lambda>v p. map (\<lambda>(k, x). tree_node t i x k (child_yaml_path p k (is_array v)) (depth + 1)) (own_entries v)"
  obtain gs hs where kids: "those (?kids v p) = Some gs" "those (?kids w q) = Some hs"
    "g = tree_details t (node_id i p) (escape_html a) (depth < 2) (escape_html p) (is_array v)
       (length (own_entries v)) (concat gs)"
    "h = tree_details t (node_id i q) (escape_html b) (depth < 2) (escape_html q) (is_array w)
       (length (own_entries w)) (concat hs)"
    using branch.prems branch.hyps assms
    by (auto simp: tree_node.simps [of t i v] tree_node.simps [of t i w] unsearched_def highlight_unsearched)
  have len: "length (own_entries v) = length (own_entries w)"
    using branch.IH by (auto dest: list_all2_lengthD)
  have gs: "length gs = length (own_entries v)" "length hs = length (own_entries v)"
    using kids(1,2) len by (auto simp: those_Some_iff dest: arg_cong [of _ _ length])
  have "markup (gs ! j) = markup (hs ! j)" if j: "j < length gs" for j
  proof -
    obtain k x l y where at: "own_entries v ! j = (k, x)" "own_entries w ! j = (l, y)" by fastforce
    have "tree_node t i x k (child_yaml_path p k (is_array v)) (depth + 1) = Some (gs ! j)"
      using arg_cong [OF kids(1) [unfolded those_Some_iff], of "\<lambda>zs. zs ! j"] at j gs by simp
    moreover have "tree_node t i y l (child_yaml_path q l (is_array w)) (depth + 1) = Some (hs ! j)"
      using arg_cong [OF kids(2) [unfolded those_Some_iff], of "\<lambda>zs. zs ! j"] at j gs len by simp
    moreover have "list_all2 (\<lambda>v w. same_tree v w \<and> (\<forall>a p b q depth g h. tree_node t i v a p depth = Some g \<longrightarrow>
        tree_node t i w b q depth = Some h \<longrightarrow> markup g = markup h)) (map snd (own_entries v)) (map snd (own_entries w))"
      using branch.IH by (auto elim!: list_all2_mono)
    then have "\<forall>a p b q depth g h. tree_node t i x a p depth = Some g \<longrightarrow>
        tree_node t i y b q depth = Some h \<longrightarrow> markup g = markup h"
      using at j gs by (auto simp: list_all2_conv_all_nth)
    ultimately show ?thesis by blast
  qed
  then have "map markup gs = map markup hs" using gs by (auto intro: nth_equalityI)
  then have "markup (concat gs) = markup (concat hs)" by (simp add: markup_concat)
  then show ?case
    using assms branch.hyps len
    by (simp add: kids(3,4) tree_details_def tree_classes_def state_attributes_def unsearched_def)
qed

section \<open>Properties\<close>

text \<open>C28: the Validation tab is honest about what it shows: every inspection of a non-blank source in
  Kubernetes mode has as many results as the tab's badge (and the report) counts findings plus the
  resources that passed their schema; the level counts sum to that number; and whichever filter is
  chosen, the number the tab announces is the number of items it lists.\<close>

theorem validation_counts_exact:
  assumes "analyze_yaml host source Kubernetes = Inr a" and "trim source \<noteq> []"
    and "validation_sections a = Some sections"
  shows "total_count (section_count sections) = report_finding_count a
      + length (filter (\<lambda>d. map_option schema_status (schema d) = Some Schema_valid) (resources_of a)) \<and>
    total_count (section_count sections) = length (concat (map (\<lambda>s. fst (snd s)) sections)) \<and>
    (\<forall>f. visible_count f (section_count sections) = length (concat (map (visible_items f) sections)))"
proof -
  obtain ps lp where parsed: "parse host source = (ps, lp)" by fastforce
  obtain b where b: "analyze_documents host lp 1 ps (empty_analysis Kubernetes) = Inr b"
    "finish_kubernetes lp ps b = Inr a"
    by (rule analyze_kubernetes [OF assms(1,2) parsed])
  have mode: "mode_of a = Kubernetes"
    using finish_mode [OF b(2)] kubernetes_loop [OF b(1)] by (simp add: empty_analysis_def)
  have "ledger a"
    using ledger_loop [OF b(1) ledger_empty] finish_fields(3-5) [OF b(2)] by (simp add: ledger_def)
  then have "length (all_errors a) = length (syntax_errors a) + length (document_errors a)"
    unfolding ledger_def by (metis size_mset size_union)
  moreover have "all_warnings a = syntax_warnings a"
    using warnings_loop [OF b(1)] finish_warnings [OF b(2)] by (simp add: empty_analysis_def)
  ultimately show ?thesis
    using whole_count [OF sections_levelled [OF assms(3)]] visible_counts [OF sections_levelled [OF assms(3)]]
      sections_length [OF assms(3) mode] mode
    by (simp add: report_finding_count_def schema_issue_count_def)
qed

text \<open>The Tree tab is immune to its input: while nothing is searched for, two documents of the same
  shape give trees with the same sequence of tags and quotes, whatever their keys and scalars are.\<close>

theorem tree_markup_is_fixed:
  assumes "unsearched t" and "same_tree v w"
    and "tree_node t i v name path depth = Some g" and "tree_node t i w name' path' depth = Some h"
  shows "markup g = markup h"
  using tree_node_markup [OF assms] .

end
