(* ===== verification/Totality.thy ===== *)
theory Totality
  imports Panels
begin

text \<open>
  No tab fails on a file of tame values: the resources of its inspection have a text for every field
  that is shown, every example can be percent-encoded, and the highlighting always ends.
\<close>

section \<open>Examples can be encoded\<close>

definition small :: "jstr \<Rightarrow> bool" where
  "small s \<longleftrightarrow> list_all (\<lambda>u. unat u < 0xD800) s"

lemma small_simps [simp]:
  "small []" "small (a @ b) \<longleftrightarrow> small a \<and> small b" "small (u # a) \<longleftrightarrow> unat u < 0xD800 \<and> small a"
  by (simp_all add: small_def)

lemma small_lit [simp]: "small (lit s)"
proof -
  have "unat (of_char c :: code_unit) < 0xD800" for c
  proof -
    have "unat (of_char c :: code_unit) = unat (of_nat (of_char c) :: code_unit)"
      by (simp only: of_nat_of_char)
    also have "\<dots> \<le> of_char c" by (simp add: unat_of_nat)
    also have "\<dots> < 256" by (rule nat_of_char_less_256)
    finally show ?thesis by simp
  qed
  then show ?thesis by (simp add: small_def lit_def list_all_iff)
qed

lemma encode_total: "small s \<Longrightarrow> \<exists>t. encode_uri s = Some t"
  by (induction s) (auto simp: word_le_nat_alt)

definition encodable :: "finding \<Rightarrow> bool" where
  "encodable f \<longleftrightarrow> small (default_to (f_example f) [])"

lemma encodable_make [rule_simps]:
  "encodable (make_finding l t p e s None)"
  "encodable (make_finding l t p e s (Some (k01 x c))) \<longleftrightarrow> small x"
  "encodable (make_finding l t p e s (Some (owasp ks None c)))"
  "encodable (make_finding l t p e s (Some (owasp ks (Some x) c))) \<longleftrightarrow> small x"
  by (simp_all add: encodable_def make_finding_def k01_def owasp_def Let_def default_to_def)

lemma encodable_update [rule_simps]:
  "encodable (f\<lparr>f_standards := ss\<rparr>) = encodable f" "encodable (f\<lparr>f_line := n, f_column := k\<rparr>) = encodable f"
  by (simp_all add: encodable_def)

lemma small_names: "among v cloud_credential_env_names \<Longrightarrow> small (text_of v)"
  by (auto simp: among_def text_of_def cloud_credential_env_names_def)

lemma every_when_named_if: "(\<And>n. c \<Longrightarrow> P (f n)) \<Longrightarrow> every P (when_named c name f)"
  by (cases name) (auto simp: when_named_def every_def)

lemma encodable_container_group: "every encodable (container_group pod c name)"
  unfolding container_group_def env_rules_def env_from_rules_def Let_def
  by (rule every_gather)
    (auto intro!: every_gather every_gather_indexed every_when_named_if simp: rule_simps finding_texts small_names)

lemma encodable_rbac: "every encodable (rbac_rule_rules n r)"
  by (auto simp: every_def rbac_rule_rules_def Let_def rule_simps finding_texts)

lemma encodable_findings: "every encodable (findings resource cs pod)"
proof -
  have "every encodable (gather (map (container_rules pod) cs))"
    by (rule every_gather) (auto simp: container_rules_def encodable_container_group)
  moreover have "every encodable (role_rules resource)"
    by (auto simp: role_rules_def rule_simps intro!: every_gather_indexed encodable_rbac)
  moreover have "every encodable (volume_rules pod)"
    unfolding volume_rules_def
    by (rule every_gather_indexed) (auto simp: every_def rule_simps finding_texts)
  ultimately show ?thesis
    unfolding findings_def
    by (intro every_gather)
      (auto simp: rule_simps identity_rules_def host_rules_def token_rule_def exposure_rules_def
        binding_rule_def selector_rules_def Let_def finding_texts)
qed

interpretation encodable: finding_invariant encodable
proof
  show "every encodable (findings resource cs pod)" for resource cs pod by (rule encodable_findings)
  show "every encodable (service_findings ds d)" for ds d
    by (rule every_service) (simp_all add: selector_without_workload_def unknown_target_port_def rule_simps)
qed (simp_all add: duplicate_identity_def locate_finding_def rule_simps)

section \<open>Views that return\<close>

definition encodable_item :: "message_item \<Rightarrow> bool" where
  "encodable_item i \<longleftrightarrow> small (m_example i)"

lemma messages_total:
  assumes "\<And>i. i \<in> set ms \<Longrightarrow> encodable_item i"
  shows "\<exists>h. messages title ms fallback = Some h"
proof -
  have "message_html fallback i \<noteq> None" if "i \<in> set ms" for i
    using encode_total assms [OF that]
    by (fastforce simp: message_html_def fix_guidance_def encodable_item_def)
  then show ?thesis using traverse_total by (auto simp: messages_def)
qed

lemma diagnostic_item [simp]: "encodable_item (message_of_diagnostic l d)"
  by (simp add: encodable_item_def message_of_diagnostic_def)

lemma parse_errors_total: "\<exists>h. parse_errors a = Some h"
  unfolding parse_errors_def by (rule messages_total) auto

text \<open>The parts of an image reference are as tame as the reference.\<close>

lemma tame_slice:
  assumes "tame v"
  shows "tame (js_slice v m n)"
proof (cases v)
  case (JArr i vs)
  have "set (js_array (js_slice v m n)) \<subseteq> set vs"
    using JArr by (auto simp: js_array_def slice_def dest: in_set_takeD in_set_dropD split: option.splits)
  with assms JArr show ?thesis by (cases n) (auto simp: js_array_def slice_def)
qed (use assms in auto)

definition showable_container :: "container \<Rightarrow> bool" where
  "showable_container c \<longleftrightarrow> printable_container c \<and> tame (image_repository c) \<and> tame (image_reference c)"

lemma split_image_tame:
  assumes "split_image v = Some p" and "tame v"
  shows "tame (repository p) \<and> tame (reference p)"
  using assms tame_slice
  by (auto simp: split_image_def bind_eq_Some_conv split: if_splits)

lemma summarize_showable_container:
  assumes "summarize_container v type path = Some c" and "tame v"
  shows "showable_container c"
proof -
  have live: "\<not> nullish v" by (rule summarize_container_SomeD(4) [OF assms(1)])
  obtain p where p: "split_image (or_else (opt_get v (lit ''image'')) (JStr [])) = Some p"
    "image_repository c = or_else (repository p) (jlit ''not set'')" "image_reference c = reference p"
    using assms(1) live by (auto simp: summarize_container_def get_Some_opt_get bind_eq_Some_conv)
  have "tame (repository p) \<and> tame (reference p)"
    by (rule split_image_tame [OF p(1)]) (use assms(2) in simp)
  with p summarize_printable_container [OF assms] show ?thesis by (simp add: showable_container_def)
qed

definition showable :: "document \<Rightarrow> bool" where
  "showable d \<longleftrightarrow> printable d \<and> (\<forall>c \<in> set (containers d). showable_container c) \<and> schema d \<noteq> None"

lemma summarize_showable:
  assumes "summarize_resource v i = Some d" and "tame v" and "c \<in> set (containers d)"
  shows "showable_container c"
proof -
  have "\<not> nullish v" using assms(1) by (cases v) (auto simp: summarize_resource_def)
  then have "pod_containers (pod_context v) = Some (containers d)"
    using assms(1) by (auto simp: summarize_resource_def get_Some_opt_get Let_def bind_eq_Some_conv)
  then show ?thesis
    using pod_containers_mem [OF _ assms(3)] tame_array [OF tame_get [OF tame_pod_spec [OF assms(2)]]]
      summarize_showable_container by blast
qed

lemma container_card_total:
  assumes "showable_container c"
  shows "container_card c \<noteq> None"
proof -
  have "card_port_text p \<noteq> None" if p: "p \<in> set (ports c)" for p
  proof -
    have "tame (port_name p)" "tame (container_port p)" "tame (protocol p)"
      using p assms by (auto simp: showable_container_def printable_container_def)
    then show ?thesis by (simp add: card_port_text_def bind_eq_None tame_text del: not_None_eq)
  qed
  then obtain ps where "traverse card_port_text (ports c) = Some ps" using traverse_total by blast
  moreover obtain rs ls where "quantities (opt_get (resources c) (lit ''requests'')) = Some rs"
    "quantities (opt_get (resources c) (lit ''limits'')) = Some ls"
    using quantities_total tame_get assms
    unfolding showable_container_def printable_container_def by (metis not_None_eq)
  moreover obtain n r i where "text_or_empty (c_name c) = Some n" "text_or_empty (image_repository c) = Some r"
    "text_or_empty (image_reference c) = Some i"
    using some_text assms unfolding showable_container_def printable_container_def by metis
  ultimately show ?thesis by (simp add: container_card_def)
qed

lemma card_service_port_total:
  assumes "tame p" "\<not> nullish p"
  shows "card_service_port p \<noteq> None"
proof -
  have "to_str (opt_get p k) \<noteq> None" for k using tame_text tame_get [OF assms(1)] by blast
  moreover have "to_str (or_else (opt_get p (lit ''name'')) (jlit ''unnamed'')) \<noteq> None"
    using tame_text tame_or_else tame_get [OF assms(1)] tame_atoms(1) by blast
  ultimately show ?thesis
    by (simp add: card_service_port_def get_Some_opt_get [OF assms(2)] bind_eq_None del: not_None_eq)
qed

lemma provided_field_None: "provided_field c l t = None \<longleftrightarrow> c \<and> t = None"
  by (auto simp: provided_field_def)

lemma resource_card_total:
  assumes "showable d"
  shows "resource_card d \<noteq> None"
proof -
  have p: "printable d" using assms by (simp add: showable_def)
  have "traverse card_service_port (service_ports d) \<noteq> None"
    unfolding traverse_None_iff using card_service_port_total p unfolding printable_def by blast
  moreover have "traverse container_card (containers d) \<noteq> None"
    unfolding traverse_None_iff using container_card_total assms unfolding showable_def by blast
  moreover have "traverse (\<lambda>(n, t). map_option (\<lambda>n. n @ lit '': '' @ t) (to_str n)) (volumes d) \<noteq> None"
    unfolding traverse_None_iff using tame_text p unfolding printable_def by fastforce
  moreover have "schema d \<noteq> None" using assms by (simp add: showable_def)
  ultimately show ?thesis
    using p unfolding printable_def
    by (simp add: resource_card_def bind_eq_None provided_field_None tame_text text_or_empty_total
        del: not_None_eq)
qed

text \<open>An analysis every tab can present.\<close>

definition presentable :: "analysis \<Rightarrow> bool" where
  "presentable a \<longleftrightarrow> (\<forall>d \<in> set (resources_of a). showable d \<and> (\<forall>f \<in> set (doc_findings d). encodable f)) \<and>
     (\<forall>d \<in> set (generals_of a). to_str (scalar_value d) \<noteq> None)"

lemma general_card_total: "to_str (scalar_value d) \<noteq> None \<Longrightarrow> general_card d \<noteq> None"
  by (auto simp: general_card_def)

lemma summary_view_total:
  assumes "presentable a"
  shows "\<exists>h. summary_view a = Some h"
proof -
  have "traverse general_card (generals_of a) \<noteq> None"
    unfolding traverse_None_iff using assms general_card_total unfolding presentable_def by blast
  moreover have "traverse resource_card (resources_of a) \<noteq> None"
    unfolding traverse_None_iff using assms resource_card_total unfolding presentable_def by blast
  ultimately show ?thesis using parse_errors_total by (auto simp: summary_view_def)
qed

lemma operational_items_total:
  assumes "showable d" and "\<forall>f \<in> set (doc_findings d). encodable f"
  shows "\<exists>ms. operational_items d = Some ms \<and> (\<forall>i \<in> set ms. encodable_item i)"
proof -
  obtain t where "identity_text d = Some t"
    using identity_total assms(1) unfolding showable_def by blast
  with assms(2) show ?thesis
    by (auto simp: operational_items_def encodable_item_def message_of_finding_def encodable_def)
qed

lemma schema_items_total:
  assumes "showable d"
  shows "\<exists>ms. schema_items d = Some ms \<and> (\<forall>i \<in> set ms. encodable_item i)"
proof -
  obtain t r where "identity_text d = Some t" "schema d = Some r"
    using identity_total assms unfolding showable_def by blast
  then show ?thesis
    by (auto simp: schema_items_def encodable_item_def message_of_schema_error_def message_of_verdict_def)
qed

lemma traverse_items:
  assumes "\<And>d. d \<in> set ds \<Longrightarrow> \<exists>ms. f d = Some ms \<and> (\<forall>i \<in> set ms. P i)"
  shows "\<exists>mss. traverse f ds = Some mss \<and> (\<forall>i \<in> set (concat mss). P i)"
proof -
  obtain mss where mss: "traverse f ds = Some mss" using traverse_total [of ds f] assms by fastforce
  have "P i" if "i \<in> set (concat mss)" for i
    using that traverse_mem [OF mss] assms by fastforce
  with mss show ?thesis by blast
qed

lemma validation_sections_total:
  assumes "presentable a"
  shows "\<exists>sections. validation_sections a = Some sections \<and>
    (\<forall>s \<in> set sections. \<forall>i \<in> set (fst (snd s)). encodable_item i)"
proof -
  obtain os where "traverse operational_items (resources_of a) = Some os"
    "\<forall>i \<in> set (concat os). encodable_item i"
    using traverse_items [of "resources_of a" operational_items encodable_item] operational_items_total assms
    unfolding presentable_def by blast
  moreover obtain vs where "traverse schema_items (resources_of a) = Some vs"
    "\<forall>i \<in> set (concat vs). encodable_item i"
    using traverse_items [of "resources_of a" schema_items encodable_item] schema_items_total assms
    unfolding presentable_def by blast
  ultimately show ?thesis by (auto simp: validation_sections_def)
qed

lemma validation_view_total:
  assumes "presentable a"
  shows "\<exists>h. validation_view f a = Some h"
proof -
  obtain sections where sections: "validation_sections a = Some sections"
    "\<forall>s \<in> set sections. \<forall>i \<in> set (fst (snd s)). encodable_item i"
    using validation_sections_total [OF assms] by blast
  have "visible_section f s \<noteq> None" if s: "s \<in> set sections" for s
  proof -
    obtain title ms fallback where at: "s = (title, ms, fallback)" by (cases s)
    have "set (visible_items f s) \<subseteq> set ms" by (auto simp: at visible_items_def split: level_filter.splits)
    then have "\<exists>h. messages title (visible_items f s) fallback = Some h"
      using sections(2) s at by (intro messages_total) auto
    then show ?thesis by (auto simp: visible_section_def at)
  qed
  then obtain hs where "traverse (visible_section f) sections = Some hs" using traverse_total by blast
  with sections(1) show ?thesis by (simp add: validation_view_def Let_def)
qed

lemma highlight_total: "\<exists>h. highlighted_text low q s = Some h"
proof (cases "normalized_query low q = []")
  case False
  obtain c rs where "range_loop s (low s) (normalized_query low q) 0 [] = Some (c, rs)"
    using range_loop_returns [OF False, of "low s" "\<lambda>_. True" s 0 "[]"] by (auto simp: ranges_text_def)
  then show ?thesis by (simp add: highlighted_text_def matching_text_ranges_def Let_def)
qed (simp add: highlighted_text_def matching_text_ranges_def)

lemma tree_node_total: "\<exists>h. tree_node t n v name path depth = Some h"
proof (induction "size v" arbitrary: v name path depth rule: less_induct)
  case less
  note some = highlight_total [of "host_lower t" "tree_query t"]
  obtain key path_text where keys: "highlighted_text (host_lower t) (tree_query t) name = Some key"
    "highlighted_text (host_lower t) (tree_query t) path = Some path_text" using some by blast
  show ?case
  proof (cases "is_scalar v")
    case True
    with keys some [of "scalar_text v"] show ?thesis by (auto simp: tree_node.simps [of t n v])
  next
    case False
    have "(case e of (k, w) \<Rightarrow> tree_node t n w k (child_yaml_path path k (is_array v)) (depth + 1)) \<noteq> None"
      if e: "e \<in> set (own_entries v)" for e
    proof (cases e)
      case (Pair k w)
      have "size w < size v" using child_smaller [OF False] e Pair by blast
      from less.hyps [OF this] Pair show ?thesis by simp
    qed
    then obtain hs where "those (map (\<lambda>(k, w). tree_node t n w k (child_yaml_path path k (is_array v)) (depth + 1))
        (own_entries v)) = Some hs"
      using traverse_total by blast
    with False keys show ?thesis by (simp add: tree_node.simps [of t n v])
  qed
qed

lemma tree_view_total:
  assumes "presentable a"
  shows "\<exists>h. snd (tree_view low q given a) = Some h"
proof -
  have named: "\<exists>x. i = Some x" if mem: "i \<in> set (tree_identities a)" for i
  proof (cases "mode_of a = Kubernetes")
    case True
    then obtain d where "d \<in> set (resources_of a)" "i = identity_text d"
      using mem by (auto simp: tree_identities_def)
    then show ?thesis using assms identity_total unfolding presentable_def showable_def by blast
  qed (use mem in \<open>auto simp: tree_identities_def\<close>)
  have "tree_card t i d \<noteq> None" if mem: "(i, d) \<in> set (zip (tree_identities a) (indexed_values a))" for t i d
  proof -
    obtain n v x h where "d = (n, v)" "i = Some x" "tree_node t n v (lit ''root'') (lit ''$'') 0 = Some h"
      using named [OF set_zip_leftD [OF mem]] tree_node_total by (metis prod.collapse)
    then show ?thesis by (simp add: tree_card_def)
  qed
  then have "\<exists>hs. those (map2 (tree_card t) (tree_identities a) (indexed_values a)) = Some hs" for t
    by (intro traverse_total) auto
  then show ?thesis using parse_errors_total by (auto simp: tree_view_def Let_def)
qed

section \<open>Inspections can be presented\<close>

lemma attach_showable: "\<forall>d \<in> set ds. showable d \<Longrightarrow> \<forall>d \<in> set (attach_finding_locations lp ps ds). showable d"
  by (auto simp: attach_finding_locations_def Let_def showable_def)

lemma showable_update [simp]: "showable (d\<lparr>doc_findings := fs\<rparr>) = showable d"
  by (simp add: showable_def)

lemma bundle_showable:
  assumes "add_bundle_findings ds = Some ds'" and "\<forall>d \<in> set ds. showable d"
  shows "\<forall>d \<in> set ds'. showable d"
proof
  fix d assume "d \<in> set ds'"
  then obtain j where j: "j < length ds" "d = ds' ! j" using bundle_shape [OF assms(1)] by (metis in_set_conv_nth)
  then obtain fs where "d = (ds ! j)\<lparr>doc_findings := fs\<rparr>" using bundle_shape [OF assms(1)] by blast
  then show "showable d" using assms(2) j(1) by simp
qed

lemma kubernetes_presentable:
  assumes "\<And>p. p \<in> set (fst (parse host source)) \<Longrightarrow> problems p = [] \<Longrightarrow> contents p \<noteq> None \<Longrightarrow>
      \<exists>v. to_js p = Some v \<and> tame v"
    and "analyze_yaml host source Kubernetes = Inr a" and "trim source \<noteq> []"
  shows "presentable a"
proof -
  obtain ps lp where parsed: "parse host source = (ps, lp)" by fastforce
  obtain b where b: "analyze_documents host lp 1 ps (empty_analysis Kubernetes) = Inr b"
    "finish_kubernetes lp ps b = Inr a"
    by (rule analyze_kubernetes [OF assms(2,3) parsed])
  have "\<forall>d \<in> set (resources_of b). summary_of host d \<and> tame (raw d)"
    using tame_summaries [OF b(1)] assms(1) by (simp add: parsed)
  moreover have "showable d" if d: "summary_of host d" "tame (raw d)" for d
  proof -
    obtain d' r where d': "summarize_resource (raw d) (index d) = Some d'" "d = d'\<lparr>schema := Some r\<rparr>"
      using d(1) by (auto simp: summary_of_def)
    have "containers d = containers d'" by (subst d'(2)) simp
    moreover have "printable d" by (subst d'(2)) (simp add: summarize_printable [OF d'(1) d(2)])
    moreover have "schema d \<noteq> None" by (subst d'(2)) simp
    ultimately show ?thesis using summarize_showable [OF d'(1) d(2)] by (simp add: showable_def)
  qed
  ultimately have "\<forall>d \<in> set (resources_of b). showable d" by blast
  moreover obtain ds where "add_bundle_findings (resources_of b) = Some ds"
    "resources_of a = attach_finding_locations lp (map contents ps) ds"
    using b(2) by (auto simp: finish_kubernetes_def Let_def split: option.splits)
  ultimately have "\<forall>d \<in> set (resources_of a). showable d"
    using bundle_showable attach_showable by metis
  moreover have "generals_of a = []"
    using kubernetes_loop [OF b(1)] finish_fields(2) [OF b(2)] by (simp add: empty_analysis_def)
  ultimately show ?thesis
    using encodable.analysis_holds [OF assms(2)] by (simp add: presentable_def)
qed

lemma general_presentable:
  assumes "analyze_yaml host source General = Inr a" and "trim source \<noteq> []"
  shows "presentable a"
proof -
  obtain ps lp where parsed: "parse host source = (ps, lp)" by fastforce
  have loop: "analyze_documents host lp 1 ps (empty_analysis General) = Inr a"
    using assms by (auto simp: analyze_yaml_def parsed split: sum.splits)
  have "generals_of a = map (\<lambda>(i, v). summarize_general_document v i) (evaluated 1 ps)" "resources_of a = []"
    using general_loop [of "empty_analysis General" ps host lp 1] loop
    by (auto simp: empty_analysis_def split: if_splits)
  moreover have "to_str (scalar_value (summarize_general_document v i)) \<noteq> None" for v i
    by (cases v) (auto simp: summarize_general_document_def Let_def)
  ultimately show ?thesis by (auto simp: presentable_def)
qed

lemma bare_presentable:
  assumes "analyze_yaml bare_host source Kubernetes = Inr a" and "trim source \<noteq> []"
  shows "presentable a"
  by (rule kubernetes_presentable [OF _ assms]) (rule bare_tame)

lemma validation_counts_exact_witness:
  "\<exists>a sections. analyze_yaml bare_host (lit ''kind: Pod'') Kubernetes = Inr a \<and>
     validation_sections a = Some sections \<and>
     visible_count All_levels (section_count sections) = length (concat (map (visible_items All_levels) sections))"
proof -
  have source: "trim (lit ''kind: Pod'') \<noteq> []" by (simp add: str_simps)
  obtain a where a: "analyze_yaml bare_host (lit ''kind: Pod'') Kubernetes = Inr a"
    using bare_analysis by blast
  obtain sections where "validation_sections a = Some sections"
    using validation_sections_total [OF bare_presentable [OF a source]] by blast
  then show ?thesis using a validation_counts_exact [OF a source] by blast
qed

lemma tree_markup_is_fixed_witness:
  "\<exists>t g h. tree_node t 1 (JObj 7 [(lit ''note'', JStr (lit ''<script>''))]) (lit ''root'') (lit ''$'') 0 = Some g \<and>
     tree_node t 1 (JObj 8 [(lit ''\"><b>'', JStr (lit ''plain''))]) (lit ''root'') (lit ''$'') 0 = Some h \<and>
     markup g = markup h"
proof -
  define t where "t = \<lparr>host_lower = id, tree_query = [], match_ids = [], expanded_ids = [], active_id = None\<rparr>"
  have unsearched: "unsearched t" by (simp add: unsearched_def t_def trim_def trim_end_def)
  have same: "same_tree (JObj 7 [(lit ''note'', JStr (lit ''<script>''))]) (JObj 8 [(lit ''\"><b>'', JStr (lit ''plain''))])"
    by (rule same_tree.branch) (auto intro: same_tree.leaf)
  obtain g h where "tree_node t 1 (JObj 7 [(lit ''note'', JStr (lit ''<script>''))]) (lit ''root'') (lit ''$'') 0 = Some g"
    "tree_node t 1 (JObj 8 [(lit ''\"><b>'', JStr (lit ''plain''))]) (lit ''root'') (lit ''$'') 0 = Some h"
    using tree_node_total by metis
  then show ?thesis using tree_markup_is_fixed [OF unsearched same] by blast
qed

end
