(* ===== verification/Guidance.thy ===== *)
theory Guidance
  imports Views
begin

text \<open>
  What the "Copy YAML" button copies: \<open>decodeURIComponent\<close> of the attribute that \<open>fixGuidance\<close> wrote with
  \<open>encodeURIComponent\<close>. Both are modelled after the ECMAScript definition, over UTF-8.
\<close>

section \<open>Model\<close>

definition hex_of_unit :: "code_unit \<Rightarrow> nat option" where
  "hex_of_unit u =
     (if 48 \<le> u \<and> u \<le> 57 then Some (unat u - 48)
      else if 65 \<le> u \<and> u \<le> 70 then Some (unat u - 55)
      else if 97 \<le> u \<and> u \<le> 102 then Some (unat u - 87) else None)"

text \<open>One \<open>%XX\<close>: the byte and what follows.\<close>

fun percent_byte :: "jstr \<Rightarrow> (nat \<times> jstr) option" where
  "percent_byte (p # a # b # s) =
     (if p \<noteq> 37 then None
      else case (hex_of_unit a, hex_of_unit b) of (Some x, Some y) \<Rightarrow> Some (16 * x + y, s) | _ \<Rightarrow> None)"
| "percent_byte _ = None"

fun continuation_bytes :: "nat \<Rightarrow> nat \<Rightarrow> jstr \<Rightarrow> (nat \<times> jstr) option" where
  "continuation_bytes 0 n s = Some (n, s)"
| "continuation_bytes (Suc k) n s =
     (case percent_byte s of
        None \<Rightarrow> None
      | Some (b, s') \<Rightarrow> if 0x80 \<le> b \<and> b < 0xC0 then continuation_bytes k (64 * n + (b - 0x80)) s' else None)"

text \<open>The first byte: how many follow, its part of the value, and the least value of that length.\<close>

definition lead_byte :: "nat \<Rightarrow> (nat \<times> nat \<times> nat) option" where
  "lead_byte b =
     (if b < 0x80 then Some (0, b, 0)
      else if 0xC2 \<le> b \<and> b < 0xE0 then Some (1, b - 0xC0, 0x80)
      else if 0xE0 \<le> b \<and> b < 0xF0 then Some (2, b - 0xE0, 0x800)
      else if 0xF0 \<le> b \<and> b < 0xF5 then Some (3, b - 0xF0, 0x10000) else None)"

definition code_point :: "nat \<Rightarrow> jstr \<Rightarrow> (nat \<times> jstr) option" where
  "code_point b s =
     (case lead_byte b of
        None \<Rightarrow> None
      | Some (k, first, least) \<Rightarrow>
          (case continuation_bytes k first s of
             None \<Rightarrow> None
           | Some (n, s') \<Rightarrow>
               if least \<le> n \<and> \<not> (0xD800 \<le> n \<and> n \<le> 0xDFFF) \<and> n \<le> 0x10FFFF then Some (n, s') else None))"

definition utf16 :: "nat \<Rightarrow> jstr" where
  "utf16 n =
     (if n < 0x10000 then [of_nat n]
      else [of_nat (0xD800 + (n - 0x10000) div 1024), of_nat (0xDC00 + (n - 0x10000) mod 1024)])"

lemma percent_byte_shorter: "percent_byte s = Some (b, s') \<Longrightarrow> length s' < length s"
  by (induction s rule: percent_byte.induct) (auto split: option.splits if_splits)

lemma continuation_shorter: "continuation_bytes k n s = Some (m, s') \<Longrightarrow> length s' \<le> length s"
proof (induction k arbitrary: n s)
  case (Suc k)
  then obtain b t where bt: "percent_byte s = Some (b, t)" "continuation_bytes k (64 * n + (b - 0x80)) t = Some (m, s')"
    by (auto split: option.splits if_splits)
  with Suc.IH [OF bt(2)] percent_byte_shorter [OF bt(1)] show ?case by linarith
qed simp

lemma code_point_shorter: "code_point b s = Some (m, s') \<Longrightarrow> length s' \<le> length s"
  by (auto simp: code_point_def dest!: continuation_shorter split: if_splits option.splits)

function decode_uri :: "jstr \<Rightarrow> jstr option" where
  "decode_uri [] = Some []"
| "decode_uri (u # us) =
     (if u \<noteq> 37 then map_option (Cons u) (decode_uri us)
      else case percent_byte (u # us) of
        None \<Rightarrow> None
      | Some (b, s) \<Rightarrow> (case code_point b s of
            None \<Rightarrow> None
          | Some (n, s') \<Rightarrow> map_option ((@) (utf16 n)) (decode_uri s')))"
  by pat_completeness auto
termination
  by (relation "measure length")
    (auto dest!: percent_byte_shorter code_point_shorter simp del: percent_byte.simps)

section \<open>Laws\<close>

lemma hex_of_unit: "n < 16 \<Longrightarrow> hex_of_unit (upper_hex n) = Some n"
proof -
  assume "n < 16"
  then consider "n < 10" | "n = 10" | "n = 11" | "n = 12" | "n = 13" | "n = 14" | "n = 15" by linarith
  then show ?thesis
  proof cases
    case 1
    then have "unat (48 + of_nat n :: code_unit) = 48 + n" by (simp add: unat_word_ariths unat_of_nat)
    with 1 show ?thesis by (simp add: hex_of_unit_def upper_hex_def word_le_nat_alt)
  qed (simp_all add: hex_of_unit_def upper_hex_def)
qed

lemma percent_byte_percent [simp]: "b < 256 \<Longrightarrow> percent_byte (percent b @ s) = Some (b, s)"
  by (simp add: percent_def hex_of_unit)

lemma continuation_step [simp]:
  "m < 64 \<Longrightarrow> continuation_bytes (Suc k) n (percent (0x80 + m) @ s) = continuation_bytes k (64 * n + m) s"
  by simp

text \<open>The bytes of a code point read back.\<close>

definition scalar_value_point :: "nat \<Rightarrow> bool" where
  "scalar_value_point n \<longleftrightarrow> n \<le> 0x10FFFF \<and> \<not> (0xD800 \<le> n \<and> n \<le> 0xDFFF)"

lemma regroup2: "64 * (n div 64) + n mod 64 = (n :: nat)"
  by simp

lemma regroup3: "64 * (64 * (n div 4096) + n div 64 mod 64) + n mod 64 = (n :: nat)"
proof -
  have "n div 4096 = n div 64 div 64" by (simp add: div_mult2_eq [symmetric])
  then show ?thesis by (simp add: regroup2)
qed

lemma regroup4: "64 * (64 * (64 * (n div 262144) + n div 4096 mod 64) + n div 64 mod 64) + n mod 64 = (n :: nat)"
proof -
  have "n div 262144 = n div 64 div 4096" "n div 4096 = n div 64 div 64"
    by (simp_all add: div_mult2_eq [symmetric])
  then show ?thesis using regroup3 [of "n div 64"] regroup2 [of n] by simp
qed

lemma lead_bytes:
  "x < 0x80 \<Longrightarrow> lead_byte x = Some (0, x, 0)"
  "2 \<le> x \<Longrightarrow> x < 32 \<Longrightarrow> lead_byte (0xC0 + x) = Some (1, x, 0x80)"
  "x < 16 \<Longrightarrow> lead_byte (0xE0 + x) = Some (2, x, 0x800)"
  "x < 5 \<Longrightarrow> lead_byte (0xF0 + x) = Some (3, x, 0x10000)"
  by (simp_all add: lead_byte_def)

lemma code_point_utf8:
  assumes "scalar_value_point n" and "utf8 n = b # bs"
  shows "b < 256 \<and> code_point b (concat (map percent bs) @ s) = Some (n, s)"
proof -
  have n: "n \<le> 0x10FFFF" "\<not> (0xD800 \<le> n \<and> n \<le> 0xDFFF)" using assms(1) by (simp_all add: scalar_value_point_def)
  have steps: "continuation_bytes 1 x (percent (0x80 + n mod 64) @ s) = Some (64 * x + n mod 64, s)"
    "continuation_bytes 2 x (percent (0x80 + n div 64 mod 64) @ percent (0x80 + n mod 64) @ s) =
       Some (64 * (64 * x + n div 64 mod 64) + n mod 64, s)"
    "continuation_bytes 3 x (percent (0x80 + n div 4096 mod 64) @ percent (0x80 + n div 64 mod 64) @ percent (0x80 + n mod 64) @ s) =
       Some (64 * (64 * (64 * x + n div 4096 mod 64) + n div 64 mod 64) + n mod 64, s)" for x
    unfolding One_nat_def numeral_2_eq_2 numeral_3_eq_3 by (simp_all del: continuation_bytes.simps(2))
  consider "n < 0x80" | "0x80 \<le> n" "n < 0x800" | "0x800 \<le> n" "n < 0x10000" | "0x10000 \<le> n" by linarith
  then show ?thesis
  proof cases
    case 1
    then show ?thesis using assms(2) by (auto simp: utf8_def code_point_def lead_bytes)
  next
    case 2
    have "2 \<le> n div 64" "n div 64 < 32" using 2 by auto
    then show ?thesis using 2 assms(2) regroup2 [of n]
      by (auto simp: utf8_def code_point_def lead_bytes steps)
  next
    case 3
    have "n div 4096 < 16" using 3 by auto
    then show ?thesis using 3 assms(2) regroup3 [of n] n
      by (auto simp: utf8_def code_point_def lead_bytes steps)
  next
    case 4
    have "n div 262144 < 5" using n(1) by auto
    then show ?thesis using 4 assms(2) regroup4 [of n] n
      by (auto simp: utf8_def code_point_def lead_bytes steps)
  qed
qed

lemma utf8_nonempty: "utf8 n \<noteq> []"
  by (simp add: utf8_def)

lemma decode_code_point:
  assumes "scalar_value_point n"
  shows "decode_uri (concat (map percent (utf8 n)) @ s) = map_option ((@) (utf16 n)) (decode_uri s)"
proof -
  obtain b bs where b: "utf8 n = b # bs" using utf8_nonempty by (meson neq_Nil_conv)
  note point = code_point_utf8 [OF assms b, of s]
  obtain us where us: "concat (map percent (utf8 n)) @ s = 37 # us"
    "37 # us = percent b @ (concat (map percent bs) @ s)"
    by (simp add: b percent_def)
  have "percent_byte (37 # us) = Some (b, concat (map percent bs) @ s)"
    using point by (simp only: us(2) percent_byte_percent)
  with point show ?thesis by (simp add: us(1))
qed

lemma decode_unreserved: "unreserved u \<Longrightarrow> u \<noteq> 37"
  by (auto simp: unreserved_def is_digit_def lit_Cons cu_def)

text \<open>The code point of a surrogate pair, taken apart again.\<close>

lemma pair_point:
  assumes "0xD800 \<le> u" "u \<le> 0xDBFF" "0xDC00 \<le> v" "v \<le> (0xDFFF :: code_unit)"
  shows "utf16 (0x10000 + (unat u - 0xD800) * 1024 + (unat v - 0xDC00)) = [u, v]"
    "scalar_value_point (0x10000 + (unat u - 0xD800) * 1024 + (unat v - 0xDC00))"
proof -
  have u: "0xD800 \<le> unat u" "unat u \<le> 0xDBFF" and v: "0xDC00 \<le> unat v" "unat v \<le> 0xDFFF"
    using assms by (simp_all add: word_le_nat_alt)
  obtain x y where xy: "unat u = 0xD800 + x" "unat v = 0xDC00 + y" "y < 1024"
    using u(1) v le_Suc_ex [OF u(1)] le_Suc_ex [OF v(1)] by auto
  have "(x * 1024 + y) div 1024 = x" "(x * 1024 + y) mod 1024 = y" using xy(3) by simp_all
  then have "utf16 (0x10000 + (unat u - 0xD800) * 1024 + (unat v - 0xDC00)) = [of_nat (unat u), of_nat (unat v)]"
    unfolding utf16_def xy(1,2) by simp
  then show "utf16 (0x10000 + (unat u - 0xD800) * 1024 + (unat v - 0xDC00)) = [u, v]" by simp
  show "scalar_value_point (0x10000 + (unat u - 0xD800) * 1024 + (unat v - 0xDC00))"
    using u v by (simp add: scalar_value_point_def)
qed

lemma unit_point:
  assumes "\<not> (0xDC00 \<le> u \<and> u \<le> 0xDFFF)" "\<not> (0xD800 \<le> u \<and> u \<le> (0xDBFF :: code_unit))"
  shows "utf16 (unat u) = [u]" "scalar_value_point (unat u)"
proof -
  have "unat u < 0x10000" using unsigned_less [of u] by simp
  then show "utf16 (unat u) = [u]" "scalar_value_point (unat u)"
    using assms by (auto simp: utf16_def scalar_value_point_def word_le_nat_alt)
qed

lemma decode_encode_uri: "encode_uri s = Some t \<Longrightarrow> decode_uri t = Some s"
proof (induction s arbitrary: t rule: encode_uri.induct)
  case (2 u us)
  consider "unreserved u" | "\<not> unreserved u" "0xD800 \<le> u" "u \<le> 0xDBFF"
    | "\<not> unreserved u" "\<not> (0xDC00 \<le> u \<and> u \<le> 0xDFFF)" "\<not> (0xD800 \<le> u \<and> u \<le> 0xDBFF)"
    using "2.prems" by (auto split: if_splits)
  then show ?case
  proof cases
    case 1
    with "2.prems" obtain r where "encode_uri us = Some r" "t = u # r" by auto
    with "2.IH"(1) [OF 1] decode_unreserved [OF 1] show ?thesis by simp
  next
    case 2
    have low: "\<not> (0xDC00 \<le> u \<and> u \<le> 0xDFFF)" using 2(3) by (auto simp: word_le_nat_alt)
    obtain v vs r where r: "us = v # vs" "0xDC00 \<le> v" "v \<le> 0xDFFF" "encode_uri vs = Some r"
      "t = concat (map percent (utf8 (0x10000 + (unat u - 0xD800) * 1024 + (unat v - 0xDC00)))) @ r"
      using "2.prems" 2 low by (auto split: list.splits if_splits)
    have "decode_uri r = Some vs" using "2.IH"(2) [OF 2(1) low _ r(1)] 2 r by blast
    then show ?thesis
      using pair_point [OF 2(2,3) r(2,3)] decode_code_point by (simp add: r(1,5))
  next
    case 3
    obtain r where r: "encode_uri us = Some r" "t = concat (map percent (utf8 (unat u))) @ r"
      using "2.prems" 3 by (auto split: if_splits)
    have "decode_uri r = Some us" using "2.IH"(3) [OF 3(1,2)] 3(3) r(1) by blast
    then show ?thesis using unit_point [OF 3(2,3)] decode_code_point by (simp add: r(2))
  qed
qed simp

section \<open>Properties\<close>

text \<open>The "Copy YAML" button copies exactly the example that is shown: decoding the attribute that
  was written for an example gives the example back, for every text that has one.\<close>

theorem copied_example_is_shown_example:
  assumes "encode_uri s = Some t"
  shows "decode_uri t = Some s"
  by (rule decode_encode_uri [OF assms])

lemma copied_example_is_shown_example_witness:
  "decode_uri (lit ''cpu%3A%20100m%0A%C3%A9'') = Some (lit ''cpu: 100m'' @ [lf, 0xE9])"
  by (rule copied_example_is_shown_example)
    (simp add: unreserved_def is_digit_def lit_Cons cu_def utf8_def percent_def upper_hex_def)

end
