(* ===== verification/Systems.thy ===== *)
theory Systems
  imports Main
begin

text \<open>
  Transition systems with labelled steps: the states reached by a sequence of events, invariants, and
  simulations. The page of the Workbench and its abstract specification are instances.
\<close>

text \<open>A sequence of events of a deterministic system, each of them offered when it comes.\<close>

fun visit_ok :: "('s \<Rightarrow> 'e \<Rightarrow> bool) \<Rightarrow> ('e \<Rightarrow> 's \<Rightarrow> 's) \<Rightarrow> 's \<Rightarrow> 'e list \<Rightarrow> bool" where
  "visit_ok offers reaction s [] \<longleftrightarrow> True"
| "visit_ok offers reaction s (e # es) \<longleftrightarrow> offers s e \<and> visit_ok offers reaction (reaction e s) es"

locale transition_system =
  fixes initial :: "'s \<Rightarrow> bool"
    and step :: "'s \<Rightarrow> 'e \<Rightarrow> 's \<Rightarrow> bool"
begin

inductive run :: "'s \<Rightarrow> 'e list \<Rightarrow> 's \<Rightarrow> bool" where
  stay: "run s [] s"
| go: "step s e t \<Longrightarrow> run t es u \<Longrightarrow> run s (e # es) u"

definition reachable :: "'s \<Rightarrow> bool" where
  "reachable t \<longleftrightarrow> (\<exists>s es. initial s \<and> run s es t)"

lemma run_append: "run s es t \<Longrightarrow> run t fs u \<Longrightarrow> run s (es @ fs) u"
  by (induction rule: run.induct) (auto intro: run.intros)

lemma run_visit:
  assumes "\<And>s e. offers s e \<Longrightarrow> step s e (reaction e s)"
  shows "visit_ok offers reaction s es \<Longrightarrow> run s es (fold reaction es s)"
  by (induction es arbitrary: s) (auto intro: run.intros assms)

lemma reachable_visit:
  assumes "\<And>s e. offers s e \<Longrightarrow> step s e (reaction e s)" and "initial s" and "visit_ok offers reaction s es"
  shows "reachable (fold reaction es s)"
  unfolding reachable_def using run_visit [OF assms(1)] assms(2,3) by blast

lemma run_invariant:
  assumes "\<And>s e t. I s \<Longrightarrow> step s e t \<Longrightarrow> I t"
  shows "run s es t \<Longrightarrow> I s \<Longrightarrow> I t"
  by (induction rule: run.induct) (use assms in blast)+

lemma reachable_invariant:
  assumes "\<And>s. initial s \<Longrightarrow> I s" and "\<And>s e t. I s \<Longrightarrow> step s e t \<Longrightarrow> I t"
  shows "reachable t \<Longrightarrow> I t"
  unfolding reachable_def using assms run_invariant [of I] by blast

end

text \<open>
  The operations a sequence of events amounts to: \<open>op s e\<close> is what event \<open>e\<close> means in state \<open>s\<close>, and
  \<open>None\<close> if it means nothing.
\<close>

fun op_trace :: "('s \<Rightarrow> 'e \<Rightarrow> 'b option) \<Rightarrow> ('e \<Rightarrow> 's \<Rightarrow> 's) \<Rightarrow> 's \<Rightarrow> 'e list \<Rightarrow> 'b list" where
  "op_trace op reaction s [] = []"
| "op_trace op reaction s (e # es) =
     (case op s e of None \<Rightarrow> op_trace op reaction (reaction e s) es
      | Some b \<Rightarrow> b # op_trace op reaction (reaction e s) es)"

text \<open>
  A simulation of a deterministic system: on states that satisfy an invariant, a step is the abstract
  step of the operation that \<open>op\<close> names for it, or leaves the abstract state as it is. A run is then the
  abstract run of exactly the operations its events amount to.
\<close>

locale simulation =
  concrete: transition_system initial step + abstract: transition_system abs_initial abs_step
  for initial :: "'s \<Rightarrow> bool" and step :: "'s \<Rightarrow> 'e \<Rightarrow> 's \<Rightarrow> bool"
    and abs_initial :: "'a \<Rightarrow> bool" and abs_step :: "'a \<Rightarrow> 'b \<Rightarrow> 'a \<Rightarrow> bool" +
  fixes abs :: "'s \<Rightarrow> 'a" and inv :: "'s \<Rightarrow> bool" and op :: "'s \<Rightarrow> 'e \<Rightarrow> 'b option"
    and reaction :: "'e \<Rightarrow> 's \<Rightarrow> 's"
  assumes abs_init: "initial s \<Longrightarrow> abs_initial (abs s)"
    and inv_init: "initial s \<Longrightarrow> inv s"
    and inv_step: "inv s \<Longrightarrow> step s e t \<Longrightarrow> inv t"
    and reacts: "step s e t \<Longrightarrow> t = reaction e s"
    and simulates: "inv s \<Longrightarrow> step s e t \<Longrightarrow>
      (case op s e of None \<Rightarrow> abs t = abs s | Some b \<Rightarrow> abs_step (abs s) b (abs t))"
begin

lemma run_simulated:
  "concrete.run s es t \<Longrightarrow> inv s \<Longrightarrow> abstract.run (abs s) (op_trace op reaction s es) (abs t)"
proof (induction rule: concrete.run.induct)
  case (go s e t es u)
  then have rest: "abstract.run (abs t) (op_trace op reaction t es) (abs u)" and t: "t = reaction e s"
    using inv_step reacts by blast+
  show ?case
  proof (cases "op s e")
    case None
    then show ?thesis using simulates [OF go.prems go.hyps(1)] rest by (simp add: t)
  next
    case (Some b)
    then have "abs_step (abs s) b (abs t)" using simulates [OF go.prems go.hyps(1)] by simp
    then show ?thesis using Some rest by (simp add: t abstract.run.go)
  qed
qed (simp add: abstract.run.stay)

lemma reachable_simulated: "concrete.reachable t \<Longrightarrow> abstract.reachable (abs t)"
  unfolding concrete.reachable_def abstract.reachable_def
  using run_simulated abs_init inv_init by blast

end

end
