(* ===== verification/Workbench.thy ===== *)
theory Workbench
  imports Totality Guidance Systems
begin

text \<open>
  The page of \<open>main.js\<close> as a state machine. The state holds the module's variables and what the code
  writes into the document; a handler is a function on states that may stop early because an
  analysis or a view throws, leaving what it has written so far. Reading a file is asynchronous: the
  event that asks for it and the event that delivers its contents are two steps, between which any
  other event may come. The dialogs cover the page, so that \<open>available\<close> allows only their own
  controls while one is open.
\<close>

section \<open>State\<close>

datatype tab = Summary_tab | Validation_tab | Tree_tab

text \<open>The five texts that depend on the mode.\<close>

record captions =
  inspection_title :: jstr
  inspection_description :: jstr
  report_title :: jstr
  review_boundary :: jstr
  next_step :: jstr

datatype export_button = Copy_button | Download_button

text \<open>A file whose contents are awaited: its name and whether the editor is focused afterwards.\<close>

record pending_file =
  pending_name :: jstr
  pending_focus :: bool

text \<open>A copy to the clipboard that has not settled yet.\<close>

datatype copy_request = Copy_report jstr | Copy_example jstr

record workbench =
  editor :: jstr
  active_tab :: tab
  inspection_mode :: mode
  validation_filter :: level_filter
  search_query :: jstr
  active_match :: "jstr option"
  current_filename :: jstr
  clean_snapshot :: jstr
  format_preview :: "(jstr \<times> jstr) option"
  format_summary :: jstr
  format_diff :: jstr
  report_preview :: "report option"
  report_summary :: jstr
  report_text :: jstr
  report_feedback :: "tone \<times> jstr"
  report_completed :: "export_button option"
  drag_depth :: nat
  drop_ready :: bool
  action_status :: "tone \<times> jstr"
  line_count :: jstr
  badge :: jstr
  page_captions :: captions
  page_status :: "tone \<times> jstr"
  results :: jstr
  selection :: "(nat \<times> nat) option"
  reading :: "pending_file list"
  copying :: "copy_request list"
  downloads :: "(jstr \<times> jstr) list"
  clipboard :: "jstr list"

text \<open>\<open>SAMPLE_YAML\<close> of \<open>sample.js\<close>.\<close>

definition sample_yaml :: jstr where
  "sample_yaml = join [lf]
    ([lit ''apiVersion: apps/v1'',
     lit ''kind: Deployment'',
     lit ''metadata:'',
     lit ''  name: restaurant-api'',
     lit ''  namespace: forge-restaurant'',
     lit ''  labels:'',
     lit ''    app: restaurant-api'',
     lit ''spec:'',
     lit ''  replicas: 3'',
     lit ''  selector:'',
     lit ''    matchLabels:'',
     lit ''      app: restaurant-api'',
     lit ''  template:'',
     lit ''    metadata:'',
     lit ''      labels:'',
     lit ''        app: restaurant-api'',
     lit ''    spec:'',
     lit ''      automountServiceAccountToken: false'',
     lit ''      containers:'',
     lit ''        - name: restaurant-api'',
     lit ''          image: wmstipes/signalforge-restaurant-api:0.7.0'',
     lit ''          ports:'',
     lit ''            - name: http'',
     lit ''              containerPort: 8000'',
     lit ''          readinessProbe:'',
     lit ''            httpGet:'',
     lit ''              path: /ready'',
     lit ''              port: http'',
     lit ''          livenessProbe:'',
     lit ''            httpGet:'',
     lit ''              path: /health'',
     lit ''              port: http'',
     lit ''          resources:'',
     lit ''            requests:'',
     lit ''              cpu: 100m'',
     lit ''              memory: 128Mi'',
     lit ''            limits:'',
     lit ''              cpu: 500m'',
     lit ''              memory: 512Mi'',
     lit ''---'',
     lit ''apiVersion: v1'',
     lit ''kind: Service'',
     lit ''metadata:'',
     lit ''  name: restaurant-api'',
     lit ''  namespace: forge-restaurant'',
     lit ''spec:'',
     lit ''  type: ClusterIP'',
     lit ''  selector:'',
     lit ''    app: restaurant-api'',
     lit ''  ports:'',
     lit ''    - name: http'',
     lit ''      port: 80'',
     lit ''      targetPort: http'',
     lit ''''])"

definition mode_captions :: "mode \<Rightarrow> captions" where
  "mode_captions m = (if m = General
     then \<lparr>inspection_title = lit ''General YAML inspection'',
       inspection_description = lit ''Inspect mappings, sequences, and scalar YAML without Kubernetes-specific findings.'',
       report_title = lit ''YAML report'', review_boundary = lit ''Syntax and document structure'',
       next_step = lit ''No Kubernetes checks in this mode.''\<rparr>
     else \<lparr>inspection_title = lit ''Kubernetes manifest inspection'',
       inspection_description = lit ''Review syntax, deterministic operations, the pinned Kubernetes '' @ kubernetes_schema_version
         @ lit '' schema, and OWASP Top 10:'' @ owasp_profile_version @ lit '' coverage.'',
       report_title = lit ''Manifest report'',
       review_boundary = (lit ''Syntax '' @ [0xB7] @ lit '' operations '' @ [0xB7] @ lit '' schema '') @ kubernetes_schema_version @ (lit '' '' @ [0xB7] @ lit '' OWASP profile '')
         @ owasp_profile_version,
       next_step = lit ''No admission or live-cluster checks. Use server-side dry-run before applying.''\<rparr>)"

text \<open>The page as the module builds it, before its first \<open>render()\<close>.\<close>

definition blank_page :: workbench where
  "blank_page = \<lparr>editor = sample_yaml, active_tab = Summary_tab, inspection_mode = Kubernetes,
     validation_filter = All_levels, search_query = [], active_match = None,
     current_filename = lit ''signalforge-sample.yaml'', clean_snapshot = sample_yaml, format_preview = None,
     format_summary = [], format_diff = [], report_preview = None, report_summary = [], report_text = [],
     report_feedback = (Neutral, lit ''No report exported yet.''), report_completed = None, drag_depth = 0,
     drop_ready = False, action_status = (Neutral, lit ''Ready''), line_count = [], badge = [],
     page_captions = \<lparr>inspection_title = lit ''Kubernetes manifest inspection'',
       inspection_description = lit ''Parse structure and review important fields before deployment.'',
       report_title = lit ''Manifest report'', review_boundary = lit ''Syntax and bounded operational guidance'',
       next_step = lit ''Use server-side dry-run before applying.''\<rparr>,
     page_status = (Neutral, []), results = [], selection = None, reading = [], copying = [], downloads = [], clipboard = []\<rparr>"

section \<open>Handlers\<close>

text \<open>A handler ends normally (\<open>Returned\<close>) or is stopped by an uncaught exception (\<open>Thrown\<close>).\<close>

datatype outcome = Returned | Thrown

type_synonym handler = "workbench \<Rightarrow> workbench \<times> outcome"

definition done_with :: "(workbench \<Rightarrow> workbench) \<Rightarrow> handler" where
  "done_with f st = (f st, Returned)"

definition and_then :: "handler \<Rightarrow> (workbench \<Rightarrow> workbench) \<Rightarrow> handler" where
  "and_then h f st = (case h st of (st', Returned) \<Rightarrow> (f st', Returned) | (st', Thrown) \<Rightarrow> (st', Thrown))"

text \<open>
  Assigning \<open>value\<close> of a text area: reading it back gives the text with every line ending as a line
  feed (the API value of the HTML standard).
\<close>

definition set_editor :: "jstr \<Rightarrow> workbench \<Rightarrow> workbench" where
  "set_editor v st = st\<lparr>editor := normalize_eol v\<rparr>"

definition announce :: "jstr \<Rightarrow> tone \<Rightarrow> workbench \<Rightarrow> workbench" where
  "announce note t st = st\<lparr>action_status := (t, note)\<rparr>"

definition reset_tree_search :: "workbench \<Rightarrow> workbench" where
  "reset_tree_search st = st\<lparr>search_query := [], active_match := None\<rparr>"

text \<open>\<open>source ? source.split("\n").length + " lines" : "0 lines"\<close>.\<close>

definition line_count_text :: "jstr \<Rightarrow> jstr" where
  "line_count_text source =
     (if source \<noteq> [] then nat_text (length (split_on lf source)) else lit ''0'') @ lit '' lines''"

definition show_analysis :: "analysis \<Rightarrow> workbench \<Rightarrow> workbench" where
  "show_analysis a st = st\<lparr>
     line_count := line_count_text (editor st),
     badge := (if report_finding_count a \<noteq> 0 then nat_text (report_finding_count a) else []),
     page_captions := mode_captions (inspection_mode st),
     page_status := status_line (editor st) a\<rparr>"

definition view_of :: "host \<Rightarrow> analysis \<Rightarrow> workbench \<Rightarrow> jstr option \<times> jstr option" where
  "view_of host a st = (case active_tab st of
       Summary_tab \<Rightarrow> (active_match st, summary_view a)
     | Validation_tab \<Rightarrow> (active_match st, validation_view (validation_filter st) a)
     | Tree_tab \<Rightarrow> tree_view (lower host) (search_query st) (active_match st) a)"

definition render_page :: "host \<Rightarrow> handler" where
  "render_page host st =
     (case analyze_yaml host (editor st) (inspection_mode st) of
        Inl _ \<Rightarrow> (st, Thrown)
      | Inr a \<Rightarrow>
          (case view_of host a st of (active, view) \<Rightarrow>
             (let shown = (show_analysis a st)\<lparr>active_match := active\<rparr>
              in case view of None \<Rightarrow> (shown, Thrown) | Some h \<Rightarrow> (shown\<lparr>results := h\<rparr>, Returned))))"

subsection \<open>Previews\<close>

definition open_format_preview :: "jstr \<Rightarrow> jstr \<Rightarrow> workbench \<Rightarrow> workbench option" where
  "open_format_preview before after st =
     map_option (\<lambda>d. announce (lit ''Formatting preview ready'') Neutral
       (st\<lparr>format_preview := Some (before, after), format_summary := diff_summary d,
          format_diff := diff_rows (rows d)\<rparr>))
     (build_line_diff before after)"

definition close_format_preview :: "jstr \<Rightarrow> workbench \<Rightarrow> workbench" where
  "close_format_preview note st =
     (let closed = st\<lparr>format_diff := [], format_preview := None\<rparr>
      in if note \<noteq> [] then announce note Neutral closed else closed)"

definition reset_report_feedback :: "workbench \<Rightarrow> workbench" where
  "reset_report_feedback st =
     st\<lparr>report_completed := None, report_feedback := (Neutral, lit ''No report exported yet.'')\<rparr>"

definition give_report_feedback :: "jstr \<Rightarrow> export_button option \<Rightarrow> tone \<Rightarrow> workbench \<Rightarrow> workbench" where
  "give_report_feedback note button t st =
     (reset_report_feedback st)\<lparr>report_feedback := (t, note),
        report_completed := (if t = Success then button else None)\<rparr>"

definition open_report_preview :: "report \<Rightarrow> workbench \<Rightarrow> workbench" where
  "open_report_preview r st = announce (lit ''Markdown report ready for review'') Neutral
     (reset_report_feedback (st\<lparr>report_preview := Some r,
        report_summary := counted (report_documents r) ''document'' @ dot @ counted (report_findings r) ''finding'',
        report_text := report_markdown r\<rparr>))"

definition close_report_preview :: "jstr \<Rightarrow> workbench \<Rightarrow> workbench" where
  "close_report_preview note st =
     (let closed = st\<lparr>report_text := [], report_preview := None\<rparr>
      in if note \<noteq> [] then announce note Neutral closed else closed)"

definition invalidate_report_preview :: "workbench \<Rightarrow> workbench" where
  "invalidate_report_preview st = (if report_preview st \<noteq> None then close_report_preview [] st else st)"

subsection \<open>Files\<close>

text \<open>\<open>/\.ya?ml$/i\<close>.\<close>

definition yaml_name :: "jstr \<Rightarrow> bool" where
  "yaml_name name \<longleftrightarrow> ends_with (map ascii_lower name) (lit ''.yaml'') \<or> ends_with (map ascii_lower name) (lit ''.yml'')"

definition normalized_filename :: "jstr \<Rightarrow> jstr" where
  "normalized_filename filename =
     (if yaml_name (leaf_of filename) then leaf_of filename else leaf_of filename @ lit ''.yaml'')"

definition load_editor :: "host \<Rightarrow> jstr \<Rightarrow> jstr \<Rightarrow> jstr \<Rightarrow> handler" where
  "load_editor host v filename note st =
     and_then (render_page host) (announce note Success)
       ((set_editor v (reset_tree_search ((invalidate_report_preview st)\<lparr>validation_filter := All_levels\<rparr>)))
          \<lparr>current_filename := normalized_filename filename, clean_snapshot := v\<rparr>)"

text \<open>Whether unsaved changes may be replaced; \<open>confirmed\<close> is the user's answer if asked.\<close>

definition replacement_approved :: "bool \<Rightarrow> jstr \<Rightarrow> workbench \<Rightarrow> bool \<times> workbench" where
  "replacement_approved confirmed cancel_message st =
     (if editor st = clean_snapshot st \<or> confirmed then (True, st)
      else (False, announce cancel_message Neutral st))"

definition request_file :: "jstr \<Rightarrow> jstr \<Rightarrow> bool \<Rightarrow> bool \<Rightarrow> workbench \<Rightarrow> workbench" where
  "request_file label name confirmed focus st =
     (if \<not> yaml_name name
      then announce (label @ (lit '' rejected '' @ [0x2014] @ lit '' choose one .yaml or .yml file'')) Problem st
      else case replacement_approved confirmed (label @ lit '' cancelled'') st of
        (False, st') \<Rightarrow> st'
      | (True, st') \<Rightarrow> st'\<lparr>reading := reading st' @ [\<lparr>pending_name = name, pending_focus = focus\<rparr>]\<rparr>)"

text \<open>
  The continuation after \<open>await file.text()\<close>: a failed read and an exception out of \<open>loadEditor\<close> reach
  the same \<open>catch\<close>.
\<close>

definition receive_file :: "host \<Rightarrow> nat \<Rightarrow> jstr option \<Rightarrow> workbench \<Rightarrow> workbench" where
  "receive_file host k result st =
     (let name = pending_name (reading st ! k);
          waiting = st\<lparr>reading := take k (reading st) @ drop (Suc k) (reading st)\<rparr>;
          failed = announce (lit ''Could not read '' @ name @ (lit '' '' @ [0x2014] @ lit '' YAML was not changed'')) Problem
      in case result of
           None \<Rightarrow> failed waiting
         | Some text \<Rightarrow>
             (case load_editor host text name (name @ lit '' opened'') waiting of
                (st', Returned) \<Rightarrow> st' | (st', Thrown) \<Rightarrow> failed st'))"

definition clear_drag :: "workbench \<Rightarrow> workbench" where
  "clear_drag st = st\<lparr>drag_depth := 0, drop_ready := False\<rparr>"

definition drop_files :: "jstr list \<Rightarrow> bool \<Rightarrow> workbench \<Rightarrow> workbench" where
  "drop_files dropped confirmed st =
     (case dropped of
        [name] \<Rightarrow> request_file (lit ''Drop'') name confirmed True (clear_drag st)
      | [] \<Rightarrow> announce (lit ''Drop rejected '' @ [0x2014] @ lit '' no file was provided'') Problem (clear_drag st)
      | _ \<Rightarrow> announce (lit ''Drop rejected '' @ [0x2014] @ lit '' choose only one YAML file'') Problem (clear_drag st))"

definition clear_editor :: "host \<Rightarrow> bool \<Rightarrow> handler" where
  "clear_editor host confirmed st =
     (if editor st \<noteq> clean_snapshot st \<and> \<not> confirmed then (announce (lit ''Clear cancelled'') Neutral st, Returned)
      else and_then (render_page host) (announce (lit ''Editor cleared'') Success)
        ((set_editor [] (reset_tree_search ((invalidate_report_preview st)\<lparr>validation_filter := All_levels\<rparr>)))
           \<lparr>current_filename := lit ''manifest.yaml'', clean_snapshot := []\<rparr>))"

definition load_sample :: "host \<Rightarrow> bool \<Rightarrow> handler" where
  "load_sample host confirmed st =
     (case replacement_approved confirmed (lit ''Load sample cancelled'') st of
        (False, st') \<Rightarrow> (st', Returned)
      | (True, st') \<Rightarrow> load_editor host sample_yaml (lit ''signalforge-sample.yaml'') (lit ''Sample loaded'') st')"

definition select_mode :: "host \<Rightarrow> mode \<Rightarrow> handler" where
  "select_mode host m st =
     and_then (render_page host)
       (announce ((if m = General then lit ''General YAML'' else lit ''Kubernetes'') @ lit '' mode selected'') Success)
       ((reset_tree_search ((invalidate_report_preview st)\<lparr>validation_filter := All_levels\<rparr>))
          \<lparr>inspection_mode := m\<rparr>)"

definition format_click :: "host \<Rightarrow> handler" where
  "format_click host st =
     (let before = editor st in
      if trim before = [] then (announce (lit ''Nothing to format'') Neutral st, Returned)
      else render_page host (let failed = announce (lit ''Formatting failed '' @ [0x2014] @ lit '' see Validation'') Problem (st\<lparr>active_tab := Validation_tab\<rparr>)
        in case format_yaml host before of
          Inl _ \<Rightarrow> failed
        | Inr after \<Rightarrow>
            if after = before then announce (lit ''Already formatted '' @ [0x2014] @ lit '' no changes needed'') Success st
            else (case open_format_preview before after st of Some st' \<Rightarrow> st' | None \<Rightarrow> failed)))"

definition format_apply :: "host \<Rightarrow> handler" where
  "format_apply host st =
     (case format_preview st of
        None \<Rightarrow> (st, Returned)
      | Some (before, after) \<Rightarrow>
          and_then (render_page host) (announce (lit ''YAML formatted'') Success)
            (close_format_preview [] (set_editor after st)))"

definition download_click :: "workbench \<Rightarrow> workbench" where
  "download_click st =
     (if editor st = [] then announce (lit ''Nothing to download'') Neutral st
      else announce (current_filename st @ lit '' downloaded'') Success
        (st\<lparr>downloads := downloads st @ [(editor st, current_filename st)], clean_snapshot := editor st\<rparr>))"

definition current_report :: "host \<Rightarrow> workbench \<Rightarrow> report option" where
  "current_report host st =
     (case analyze_yaml host (editor st) (inspection_mode st) of
        Inl _ \<Rightarrow> None
      | Inr a \<Rightarrow> build_markdown_report (current_filename st) (Some a))"

definition report_click :: "host \<Rightarrow> handler" where
  "report_click host st =
     (case current_report host st of None \<Rightarrow> (st, Thrown) | Some r \<Rightarrow> (open_report_preview r st, Returned))"

text \<open>\<open>copyText\<close> is awaited: the click records the request, and the copy settles in a later step.\<close>

definition report_copy :: "workbench \<Rightarrow> workbench" where
  "report_copy st = (case report_preview st of
     None \<Rightarrow> st | Some r \<Rightarrow> st\<lparr>copying := copying st @ [Copy_report (report_markdown r)]\<rparr>)"

definition guidance_failed :: "workbench \<Rightarrow> workbench" where
  "guidance_failed = announce (lit ''Could not copy automatically '' @ [0x2014] @ lit '' select the example manually'') Problem"

definition guidance_copy :: "jstr \<Rightarrow> workbench \<Rightarrow> workbench" where
  "guidance_copy encoded st = (case decode_uri encoded of
     None \<Rightarrow> guidance_failed st | Some t \<Rightarrow> st\<lparr>copying := copying st @ [Copy_example t]\<rparr>)"

definition settle_copy :: "nat \<Rightarrow> bool \<Rightarrow> workbench \<Rightarrow> workbench" where
  "settle_copy k ok given =
     (let st = given\<lparr>copying := take k (copying given) @ drop (Suc k) (copying given)\<rparr>
      in case copying given ! k of
        Copy_report t \<Rightarrow>
          (if ok then announce (lit ''Markdown report copied'') Success
             (give_report_feedback (lit ''Markdown copied to the clipboard.'') (Some Copy_button) Success
               (st\<lparr>clipboard := clipboard st @ [t]\<rparr>))
           else announce (lit ''Could not copy automatically '' @ [0x2014] @ lit '' use the preview to select the report'') Problem
             (give_report_feedback (lit ''Copy failed. Select the report text and copy it manually.'') None Problem st))
      | Copy_example t \<Rightarrow>
          (if ok then announce (lit ''Suggested YAML copied'') Success (st\<lparr>clipboard := clipboard st @ [t]\<rparr>)
           else guidance_failed st))"

definition report_download :: "workbench \<Rightarrow> workbench" where
  "report_download st =
     (case report_preview st of
        None \<Rightarrow> st
      | Some r \<Rightarrow> announce (report_file r @ lit '' downloaded'') Success
          (give_report_feedback (report_file r @ lit '' downloaded.'') (Some Download_button) Success
            (st\<lparr>downloads := downloads st @ [(report_markdown r, report_file r)]\<rparr>)))"

subsection \<open>Results pane\<close>

text \<open>\<open>(Math.max(0, current) + delta + matches.length) % matches.length\<close> with \<open>delta\<close> 1 or -1.\<close>

definition next_index :: "nat option \<Rightarrow> bool \<Rightarrow> nat \<Rightarrow> nat" where
  "next_index current forward n =
     (let i = (case current of Some i \<Rightarrow> i | None \<Rightarrow> 0) in (if forward then i + 1 + n else i + n - 1) mod n)"

definition move_match :: "host \<Rightarrow> bool \<Rightarrow> handler" where
  "move_match host forward st =
     (case analyze_yaml host (editor st) (inspection_mode st) of
        Inl _ \<Rightarrow> (st, Thrown)
      | Inr a \<Rightarrow>
          (let matches = tree_matches (lower host) (search_query st) a in
           if matches = [] then (st, Returned)
           else render_page host (st\<lparr>active_match :=
             Some (rec_id (matches ! next_index (match_index matches (active_match st)) forward (length matches)))\<rparr>)))"

definition filter_label :: "level_filter \<Rightarrow> jstr" where
  "filter_label f = (case find (\<lambda>e. fst e = f) validation_filters of Some e \<Rightarrow> snd e | None \<Rightarrow> [])"

definition select_filter :: "host \<Rightarrow> level_filter \<Rightarrow> handler" where
  "select_filter host f st =
     and_then (render_page host) (announce (filter_label f @ lit '' validation results selected'') Success)
       (st\<lparr>validation_filter := f\<rparr>)"

text \<open>\<open>focusEditorLocation\<close>: the selection it sets, from the numbers of the button.\<close>

definition editor_selection :: "jstr \<Rightarrow> nat \<Rightarrow> nat \<Rightarrow> nat \<times> nat" where
  "editor_selection source line column =
     (let ls = split_on lf source;
          line_index = min (line - 1) (length ls - 1);
          line_start = sum_list (map (\<lambda>l. length l + 1) (take line_index ls));
          start = line_start + min (column - 1) (length (ls ! line_index));
          stop = line_start + length (ls ! line_index)
      in (start, max start stop))"

section \<open>Events\<close>

datatype event =
    Input jstr
  | Tab_click tab
  | Mode_click mode
  | Sample_click bool
  | Clear_click bool
  | File_chosen jstr bool
  | Drag_enter bool
  | Drag_leave bool
  | Editor_drop "jstr list" bool
  | Page_drop
  | Drag_end
  | Drag_escape
  | File_read nat "jstr option"
  | Format_click
  | Format_cancel
  | Format_apply
  | Download_click
  | Report_click
  | Report_cancel
  | Report_copy
  | Report_download
  | Search_input jstr
  | Search_clear
  | Search_move bool
  | Filter_click level_filter
  | Guidance_copy jstr
  | Copy_settled nat bool
  | Location_click nat nat

definition react :: "host \<Rightarrow> event \<Rightarrow> handler" where
  "react host e st = (case e of
       Input text \<Rightarrow> render_page host (announce (lit ''Editing YAML'') Neutral (invalidate_report_preview (set_editor text st)))
     | Tab_click t \<Rightarrow> render_page host (st\<lparr>active_tab := t\<rparr>)
     | Mode_click m \<Rightarrow> select_mode host m st
     | Sample_click confirmed \<Rightarrow> load_sample host confirmed st
     | Clear_click confirmed \<Rightarrow> clear_editor host confirmed st
     | File_chosen name confirmed \<Rightarrow> (request_file (lit ''Open file'') name confirmed False st, Returned)
     | Drag_enter with_files \<Rightarrow>
         (if with_files then st\<lparr>drag_depth := drag_depth st + 1, drop_ready := True\<rparr> else st, Returned)
     | Drag_leave with_files \<Rightarrow>
         (if with_files then (let depth = drag_depth st - 1 in
            st\<lparr>drag_depth := depth, drop_ready := (if depth = 0 then False else drop_ready st)\<rparr>) else st, Returned)
     | Editor_drop dropped confirmed \<Rightarrow> (drop_files dropped confirmed st, Returned)
     | Page_drop \<Rightarrow> (announce (lit ''Drop ignored '' @ [0x2014] @ lit '' drop one YAML file on the editor'') Problem (clear_drag st), Returned)
     | Drag_end \<Rightarrow> (clear_drag st, Returned)
     | Drag_escape \<Rightarrow> (announce (lit ''File drop cancelled'') Neutral (clear_drag st), Returned)
     | File_read k result \<Rightarrow> (receive_file host k result st, Returned)
     | Format_click \<Rightarrow> format_click host st
     | Format_cancel \<Rightarrow> (close_format_preview (lit ''Formatting cancelled'') st, Returned)
     | Format_apply \<Rightarrow> format_apply host st
     | Download_click \<Rightarrow> (download_click st, Returned)
     | Report_click \<Rightarrow> report_click host st
     | Report_cancel \<Rightarrow> (close_report_preview (lit ''Report cancelled'') st, Returned)
     | Report_copy \<Rightarrow> (report_copy st, Returned)
     | Report_download \<Rightarrow> (report_download st, Returned)
     | Search_input text \<Rightarrow> render_page host (st\<lparr>search_query := text, active_match := None\<rparr>)
     | Search_clear \<Rightarrow> render_page host (reset_tree_search st)
     | Search_move forward \<Rightarrow> move_match host forward st
     | Filter_click f \<Rightarrow> select_filter host f st
     | Guidance_copy encoded \<Rightarrow> (guidance_copy encoded st, Returned)
     | Copy_settled k ok \<Rightarrow> (settle_copy k ok st, Returned)
     | Location_click line column \<Rightarrow> (st\<lparr>selection := Some (editor_selection (editor st) line column)\<rparr>, Returned))"

text \<open>
  What can happen. A dialog covers the rest of the page; the read of a file and the end of a copy come
  whenever they come, for requests that were made.
\<close>

definition uncovered :: "workbench \<Rightarrow> bool" where
  "uncovered st \<longleftrightarrow> format_preview st = None \<and> report_preview st = None"

definition available :: "workbench \<Rightarrow> event \<Rightarrow> bool" where
  "available st e = (case e of
       File_read k result \<Rightarrow> k < length (reading st)
     | Drag_enter with_files \<Rightarrow> True
     | Drag_leave with_files \<Rightarrow> True
     | Page_drop \<Rightarrow> True
     | Drag_end \<Rightarrow> True
     | Drag_escape \<Rightarrow> drop_ready st
     | Copy_settled k ok \<Rightarrow> k < length (copying st)
     | Format_cancel \<Rightarrow> format_preview st \<noteq> None
     | Format_apply \<Rightarrow> format_preview st \<noteq> None
     | Report_cancel \<Rightarrow> report_preview st \<noteq> None
     | Report_copy \<Rightarrow> report_preview st \<noteq> None
     | Report_download \<Rightarrow> report_preview st \<noteq> None
     | Mode_click m \<Rightarrow> uncovered st \<and> (m = Kubernetes \<or> m = General)
     | Location_click line column \<Rightarrow> uncovered st \<and> 0 < line \<and> 0 < column
     | _ \<Rightarrow> uncovered st)"

definition page_step :: "host \<Rightarrow> workbench \<Rightarrow> event \<Rightarrow> workbench \<Rightarrow> bool" where
  "page_step host st e st' \<longleftrightarrow> available st e \<and> st' = fst (react host e st)"

definition page_initial :: "host \<Rightarrow> workbench \<Rightarrow> bool" where
  "page_initial host st \<longleftrightarrow> st = fst (render_page host blank_page)"

interpretation page: transition_system "page_initial host" "page_step host" for host .

end
