(* ===== verification/PageLaws.thy ===== *)
theory PageLaws
  imports Workbench
begin

text \<open>
  Laws of the page: what each handler leaves as it was, the invariants of the reachable pages, and
  when no handler throws.
\<close>

section \<open>Inspections of tame sources\<close>

text \<open>A source all of whose evaluated documents are tame, and validators with documented errors.\<close>

definition tame_source :: "host \<Rightarrow> jstr \<Rightarrow> bool" where
  "tame_source host source \<longleftrightarrow> (\<forall>p \<in> set (fst (parse host source)). problems p = [] \<and> contents p \<noteq> None \<longrightarrow>
     (\<exists>v. to_js p = Some v \<and> tame v))"

definition documented_validators :: "host \<Rightarrow> bool" where
  "documented_validators host \<longleftrightarrow> (\<forall>key check v es. validators host key = Some check \<longrightarrow>
     check v = (False, Some es) \<longrightarrow> (\<forall>e \<in> set es. documented e))"

lemma empty_presentable: "presentable (empty_analysis m)"
  by (simp add: presentable_def empty_analysis_def)

lemma general_printable: "to_str (scalar_value d) \<noteq> None \<Longrightarrow> general_report d \<noteq> None"
  by (auto simp: general_report_def text_or_empty_def)

lemma general_inspection:
  assumes "tame_source host source"
  shows "\<exists>a. analyze_yaml host source General = Inr a"
proof -
  obtain ps lp where parsed: "parse host source = (ps, lp)" by fastforce
  have "\<not> (\<exists>p \<in> set ps. unreadable p)"
    using assms by (auto simp: tame_source_def parsed unreadable_def)
  then have "\<exists>a. analyze_documents host lp 1 ps (empty_analysis General) = Inr a"
    using general_loop [of "empty_analysis General" ps host lp 1] by (auto simp: empty_analysis_def)
  then show ?thesis by (auto simp: analyze_yaml_def parsed)
qed

lemma inspection_returns:
  assumes "tame_source host source" and "documented_validators host" and "m = Kubernetes \<or> m = General"
  shows "\<exists>a. analyze_yaml host source m = Inr a"
  using assms general_inspection kubernetes_returns [of host source]
  unfolding tame_source_def documented_validators_def by blast

lemma blank_inspection: "trim source = [] \<Longrightarrow> analyze_yaml host source m = Inr (empty_analysis m)"
  by (simp add: analyze_yaml_def)

lemma inspection_presentable:
  assumes "tame_source host source" and "analyze_yaml host source m = Inr a" and "m = Kubernetes \<or> m = General"
  shows "presentable a"
proof (cases "trim source = []")
  case True
  then show ?thesis using assms(2) empty_presentable [of m] by (simp add: blank_inspection)
next
  case False
  with assms show ?thesis
    using kubernetes_presentable [of host source] general_presentable [of host source]
    unfolding tame_source_def by blast
qed

lemma general_mode:
  assumes "analyze_yaml host source General = Inr a"
  shows "mode_of a = General"
proof (cases "trim source = []")
  case True
  then show ?thesis using assms by (auto simp: blank_inspection empty_analysis_def)
next
  case False
  obtain ps lp where parsed: "parse host source = (ps, lp)" by fastforce
  have "analyze_documents host lp 1 ps (empty_analysis General) = Inr a"
    using assms False by (auto simp: analyze_yaml_def parsed split: sum.splits)
  then show ?thesis
    using general_loop [of "empty_analysis General" ps host lp 1] by (auto simp: empty_analysis_def split: if_splits)
qed

lemma empty_report: "\<exists>r. build_markdown_report filename (Some (empty_analysis Kubernetes)) = Some r"
  by (rule report_total) (auto simp: empty_analysis_def)

lemma general_reported:
  assumes "mode_of a = General" and "presentable a"
  shows "\<exists>r. build_markdown_report filename (Some a) = Some r"
proof -
  have "traverse general_report (generals_of a) \<noteq> None"
    unfolding traverse_None_iff using assms(2) general_printable unfolding presentable_def by blast
  with assms(1) show ?thesis by (auto simp: build_markdown_report_def)
qed

lemma inspection_reported:
  assumes "tame_source host source" and "analyze_yaml host source m = Inr a" and "m = Kubernetes \<or> m = General"
  shows "\<exists>r. build_markdown_report filename (Some a) = Some r"
proof (cases "m = General")
  case True
  then show ?thesis using assms general_reported general_mode inspection_presentable by blast
next
  case False
  show ?thesis
  proof (cases "trim source = []")
    case True
    then show ?thesis using assms(2,3) False empty_report by (auto simp: blank_inspection)
  next
    case nonblank: False
    with assms False show ?thesis
      using kubernetes_report_total [of host source] unfolding tame_source_def by blast
  qed
qed

section \<open>What the handlers leave alone\<close>

lemma and_then_result:
  "fst (and_then h f st) = (if snd (h st) = Returned then f (fst (h st)) else fst (h st))"
  "snd (and_then h f st) = snd (h st)"
  by (auto simp: and_then_def split: prod.splits outcome.splits)

lemma announce_fields [simp]:
  "editor (announce s t st) = editor st" "active_tab (announce s t st) = active_tab st"
  "inspection_mode (announce s t st) = inspection_mode st" "current_filename (announce s t st) = current_filename st"
  "clean_snapshot (announce s t st) = clean_snapshot st" "format_preview (announce s t st) = format_preview st"
  "report_preview (announce s t st) = report_preview st" "report_text (announce s t st) = report_text st"
  "drag_depth (announce s t st) = drag_depth st" "drop_ready (announce s t st) = drop_ready st"
  "reading (announce s t st) = reading st" "validation_filter (announce s t st) = validation_filter st"
  "search_query (announce s t st) = search_query st" "active_match (announce s t st) = active_match st"
  "results (announce s t st) = results st"
  by (simp_all add: announce_def)

lemma render_fields [simp]:
  "editor (fst (render_page host st)) = editor st" "active_tab (fst (render_page host st)) = active_tab st"
  "inspection_mode (fst (render_page host st)) = inspection_mode st"
  "current_filename (fst (render_page host st)) = current_filename st"
  "clean_snapshot (fst (render_page host st)) = clean_snapshot st"
  "format_preview (fst (render_page host st)) = format_preview st"
  "report_preview (fst (render_page host st)) = report_preview st"
  "report_text (fst (render_page host st)) = report_text st"
  "drag_depth (fst (render_page host st)) = drag_depth st"
  "drop_ready (fst (render_page host st)) = drop_ready st"
  "reading (fst (render_page host st)) = reading st"
  by (auto simp: render_page_def show_analysis_def Let_def split: sum.splits prod.splits option.splits)

lemma invalidate_fields [simp]:
  "editor (invalidate_report_preview st) = editor st"
  "inspection_mode (invalidate_report_preview st) = inspection_mode st"
  "current_filename (invalidate_report_preview st) = current_filename st"
  "clean_snapshot (invalidate_report_preview st) = clean_snapshot st"
  "format_preview (invalidate_report_preview st) = format_preview st"
  "report_preview (invalidate_report_preview st) = None"
  "drag_depth (invalidate_report_preview st) = drag_depth st"
  "drop_ready (invalidate_report_preview st) = drop_ready st"
  by (auto simp: invalidate_report_preview_def close_report_preview_def Let_def)

lemma request_fields [simp]:
  "editor (request_file label name confirmed focus st) = editor st"
  "inspection_mode (request_file label name confirmed focus st) = inspection_mode st"
  "current_filename (request_file label name confirmed focus st) = current_filename st"
  "clean_snapshot (request_file label name confirmed focus st) = clean_snapshot st"
  "format_preview (request_file label name confirmed focus st) = format_preview st"
  "report_preview (request_file label name confirmed focus st) = report_preview st"
  "report_text (request_file label name confirmed focus st) = report_text st"
  "drag_depth (request_file label name confirmed focus st) = drag_depth st"
  "drop_ready (request_file label name confirmed focus st) = drop_ready st"
  by (auto simp: request_file_def replacement_approved_def)

lemma drop_fields [simp]:
  "editor (drop_files dropped confirmed st) = editor st"
  "inspection_mode (drop_files dropped confirmed st) = inspection_mode st"
  "current_filename (drop_files dropped confirmed st) = current_filename st"
  "clean_snapshot (drop_files dropped confirmed st) = clean_snapshot st"
  "format_preview (drop_files dropped confirmed st) = format_preview st"
  "report_preview (drop_files dropped confirmed st) = report_preview st"
  "report_text (drop_files dropped confirmed st) = report_text st"
  "drag_depth (drop_files dropped confirmed st) = 0"
  "drop_ready (drop_files dropped confirmed st) = False"
  by (auto simp: drop_files_def clear_drag_def split: list.splits)

lemma copy_fields [simp]:
  "editor (settle_copy k ok st) = editor st" "inspection_mode (settle_copy k ok st) = inspection_mode st"
  "current_filename (settle_copy k ok st) = current_filename st"
  "clean_snapshot (settle_copy k ok st) = clean_snapshot st"
  "format_preview (settle_copy k ok st) = format_preview st"
  "report_preview (settle_copy k ok st) = report_preview st" "report_text (settle_copy k ok st) = report_text st"
  "drag_depth (settle_copy k ok st) = drag_depth st" "drop_ready (settle_copy k ok st) = drop_ready st"
  by (auto simp: settle_copy_def give_report_feedback_def reset_report_feedback_def guidance_failed_def Let_def
      split: copy_request.splits)

text \<open>The file a load leaves in the page, whether or not the render after it returns.\<close>

lemma load_fields [simp]:
  "editor (fst (load_editor host v filename note st)) = normalize_eol v"
  "inspection_mode (fst (load_editor host v filename note st)) = inspection_mode st"
  "current_filename (fst (load_editor host v filename note st)) = normalized_filename filename"
  "clean_snapshot (fst (load_editor host v filename note st)) = v"
  "format_preview (fst (load_editor host v filename note st)) = format_preview st"
  "report_preview (fst (load_editor host v filename note st)) = None"
  "drag_depth (fst (load_editor host v filename note st)) = drag_depth st"
  "drop_ready (fst (load_editor host v filename note st)) = drop_ready st"
  by (auto simp: load_editor_def and_then_result set_editor_def reset_tree_search_def)

text \<open>
  The state after a read: the state of the load without the request, up to the announcement; a failed
  read only announces.
\<close>

definition answered :: "nat \<Rightarrow> workbench \<Rightarrow> workbench" where
  "answered k st = st\<lparr>reading := take k (reading st) @ drop (Suc k) (reading st)\<rparr>"

lemma receive_None: "\<exists>status. receive_file host k None st = (answered k st)\<lparr>action_status := status\<rparr>"
  by (auto simp: receive_file_def answered_def announce_def)

lemma receive_Some:
  "\<exists>status. receive_file host k (Some v) st =
     (fst (load_editor host v (pending_name (reading st ! k)) (pending_name (reading st ! k) @ lit '' opened'') (answered k st)))
       \<lparr>action_status := status\<rparr>"
proof -
  define out where "out = load_editor host v (pending_name (reading st ! k))
    (pending_name (reading st ! k) @ lit '' opened'') (answered k st)"
  have "receive_file host k (Some v) st = (case out of (st', Returned) \<Rightarrow> st' | (st', Thrown) \<Rightarrow>
      announce (lit ''Could not read '' @ pending_name (reading st ! k)
        @ (lit '' '' @ [0x2014] @ lit '' YAML was not changed'')) Problem st')"
    by (simp add: receive_file_def out_def answered_def Let_def)
  moreover obtain st' r where out: "out = (st', r)" by fastforce
  moreover have "st' = st'\<lparr>action_status := action_status st'\<rparr>" by simp
  ultimately have "\<exists>status. receive_file host k (Some v) st = (fst out)\<lparr>action_status := status\<rparr>"
    by (cases r) (auto simp only: announce_def outcome.case prod.case fst_conv)
  then show ?thesis by (simp only: out_def)
qed

lemma answered_fields [simp]:
  "editor (answered k st) = editor st" "inspection_mode (answered k st) = inspection_mode st"
  "current_filename (answered k st) = current_filename st" "clean_snapshot (answered k st) = clean_snapshot st"
  "format_preview (answered k st) = format_preview st" "report_preview (answered k st) = report_preview st"
  "report_text (answered k st) = report_text st"
  "drag_depth (answered k st) = drag_depth st" "drop_ready (answered k st) = drop_ready st"
  by (simp_all add: answered_def)

section \<open>The well-formed pages\<close>

definition plain_yaml_name :: "jstr \<Rightarrow> bool" where
  "plain_yaml_name name \<longleftrightarrow> yaml_name name \<and> backslash \<notin> set name \<and> cu CHR ''/'' \<notin> set name"

definition page_wf :: "host \<Rightarrow> workbench \<Rightarrow> bool" where
  "page_wf host st \<longleftrightarrow>
     cr \<notin> set (editor st) \<and> plain_yaml_name (current_filename st) \<and>
     inspection_mode st \<in> {Kubernetes, General} \<and>
     (drop_ready st \<longleftrightarrow> 0 < drag_depth st) \<and>
     (case report_preview st of None \<Rightarrow> True | Some r \<Rightarrow> format_preview st = None \<and>
        current_report host st = Some r \<and> report_text st = report_markdown r) \<and>
     (case format_preview st of None \<Rightarrow> True | Some (before, after) \<Rightarrow>
        format_yaml host before = Inr after \<and> before \<noteq> after)"

lemma leaf_plain: "backslash \<notin> set (leaf_of name) \<and> cu CHR ''/'' \<notin> set (leaf_of name)"
proof -
  define given where "given = (if name = [] then lit ''manifest.yaml'' else name)"
  define leaf where "leaf = rev (takeWhile (\<lambda>u. u \<noteq> backslash \<and> u \<noteq> cu CHR ''/'') (rev given))"
  have "leaf_of name = (if leaf = [] then lit ''manifest.yaml'' else leaf)"
    by (simp only: leaf_of_def Let_def given_def leaf_def)
  moreover have "backslash \<notin> set leaf \<and> cu CHR ''/'' \<notin> set leaf"
    unfolding leaf_def set_rev by (blast dest: set_takeWhileD)
  moreover have "backslash \<notin> set (lit ''manifest.yaml'') \<and> cu CHR ''/'' \<notin> set (lit ''manifest.yaml'')"
    by (simp add: str_simps)
  ultimately show ?thesis by presburger
qed

lemma yaml_extension:
  "ends_with (map ascii_lower (name @ lit ''.yaml'')) (lit ''.yaml'')"
  "backslash \<notin> set (lit ''.yaml'')" "cu CHR ''/'' \<notin> set (lit ''.yaml'')"
proof -
  have "map ascii_lower (lit ''.yaml'') = lit ''.yaml''" by (simp add: str_simps ascii_lower_def)
  then show "ends_with (map ascii_lower (name @ lit ''.yaml'')) (lit ''.yaml'')"
    by (simp add: ends_with_iff suffix_def)
qed (simp_all add: str_simps)

lemma normalized_plain: "plain_yaml_name (normalized_filename name)"
  using leaf_plain [of name] yaml_extension
  by (auto simp: plain_yaml_name_def normalized_filename_def yaml_name_def)

lemma plain_names [simp]:
  "plain_yaml_name (lit ''manifest.yaml'')" "plain_yaml_name (lit ''signalforge-sample.yaml'')"
  by (simp_all add: plain_yaml_name_def yaml_name_def str_simps)

text \<open>Well-formedness looks at these fields only.\<close>

definition page_frame :: "workbench \<Rightarrow> _" where
  "page_frame st = (editor st, inspection_mode st, current_filename st, format_preview st, report_preview st,
     report_text st, drag_depth st, drop_ready st)"

lemma page_wf_frame: "page_frame s = page_frame t \<Longrightarrow> page_wf host s = page_wf host t"
  by (simp add: page_frame_def page_wf_def current_report_def cong: option.case_cong sum.case_cong)

lemma page_wf_render [simp]: "page_wf host (fst (render_page host' st)) = page_wf host st"
  by (rule page_wf_frame) (simp add: page_frame_def)

lemma page_wf_announce [simp]: "page_wf host (announce note t st) = page_wf host st"
  by (rule page_wf_frame) (simp add: page_frame_def)

lemma page_wf_then [simp]:
  "page_wf host (fst (and_then (render_page host) (announce note t) st)) = page_wf host st"
  by (simp add: and_then_result)

lemma page_wf_load [simp]: "page_wf host st \<Longrightarrow> page_wf host (fst (load_editor host v name note st))"
  by (simp add: load_editor_def)
    (simp add: page_wf_def set_editor_def reset_tree_search_def normalize_eol_no_cr normalized_plain)

lemma page_wf_receive:
  assumes "page_wf host st"
  shows "page_wf host (receive_file host k result st)"
proof -
  have answered: "page_wf host (answered k st)"
    using assms page_wf_frame [of "answered k st" st] by (simp add: page_frame_def)
  have status: "page_wf host (s\<lparr>action_status := status\<rparr>) = page_wf host s" for s status
    by (rule page_wf_frame) (simp add: page_frame_def)
  show ?thesis
    using receive_None [of host k st] receive_Some [of host k _ st] answered status page_wf_load
    by (cases result) metis+
qed

lemma page_wf_open_report:
  "page_wf host st \<Longrightarrow> format_preview st = None \<Longrightarrow> current_report host st = Some r \<Longrightarrow>
    page_wf host (open_report_preview r st)"
  by (simp add: open_report_preview_def)
    (simp add: page_wf_def reset_report_feedback_def current_report_def cong: sum.case_cong)

lemma page_wf_open_format:
  "page_wf host st \<Longrightarrow> uncovered st \<Longrightarrow> format_yaml host (editor st) = Inr after \<Longrightarrow> after \<noteq> editor st \<Longrightarrow>
    open_format_preview (editor st) after st = Some st' \<Longrightarrow> page_wf host st'"
  by (auto simp: open_format_preview_def page_wf_def uncovered_def)

lemma page_wf_format_click:
  assumes "page_wf host st" and "uncovered st"
  shows "page_wf host (fst (format_click host st))"
proof -
  have tab: "page_wf host (st\<lparr>active_tab := t\<rparr>)" for t
    using assms(1) page_wf_frame [of "st\<lparr>active_tab := t\<rparr>" st] by (simp add: page_frame_def)
  show ?thesis
    using assms tab page_wf_open_format [OF assms]
    by (auto simp: format_click_def Let_def split: sum.splits option.splits)
qed

lemma page_wf_clear: "page_wf host st \<Longrightarrow> page_wf host (fst (clear_editor host confirmed st))"
  by (simp add: clear_editor_def) (simp add: page_wf_def set_editor_def reset_tree_search_def)

lemma page_wf_sample: "page_wf host st \<Longrightarrow> page_wf host (fst (load_sample host confirmed st))"
  by (simp add: load_sample_def replacement_approved_def)

lemma page_wf_mode:
  "page_wf host st \<Longrightarrow> m = Kubernetes \<or> m = General \<Longrightarrow> page_wf host (fst (select_mode host m st))"
  by (simp add: select_mode_def) (auto simp: page_wf_def reset_tree_search_def)

lemma page_wf_apply: "page_wf host st \<Longrightarrow> page_wf host (fst (format_apply host st))"
  by (auto simp: format_apply_def split: option.splits)
    (auto simp: close_format_preview_def set_editor_def page_wf_def normalize_eol_no_cr split: option.splits)

lemma page_wf_search: "page_wf host st \<Longrightarrow> page_wf host (fst (move_match host forward st))"
  using page_wf_frame [of "st\<lparr>active_match := m\<rparr>" st for m]
  by (auto simp: move_match_def page_frame_def Let_def split: sum.splits)

lemma page_wf_report_click:
  "page_wf host st \<Longrightarrow> uncovered st \<Longrightarrow> page_wf host (fst (report_click host st))"
  using page_wf_open_report by (auto simp: report_click_def uncovered_def split: option.splits)

text \<open>The events that write to none of these fields.\<close>

lemma page_wf_quiet:
  assumes "page_wf host st"
  shows "page_wf host (request_file label name confirmed focus st)"
    and "page_wf host (settle_copy k ok st)" and "page_wf host (download_click st)"
    and "page_wf host (report_copy st)" and "page_wf host (report_download st)"
    and "page_wf host (guidance_copy encoded st)" and "page_wf host (st\<lparr>selection := s\<rparr>)"
    and "page_wf host (st\<lparr>active_tab := t\<rparr>)" and "page_wf host (st\<lparr>validation_filter := f\<rparr>)"
    and "page_wf host (st\<lparr>search_query := q, active_match := m\<rparr>)"
proof -
  have frame: "page_frame s = page_frame st \<Longrightarrow> page_wf host s" for s
    using assms page_wf_frame by blast
  show "page_wf host (request_file label name confirmed focus st)" by (rule frame) (simp add: page_frame_def)
  show "page_wf host (settle_copy k ok st)" by (rule frame) (simp add: page_frame_def)
  show "page_wf host (download_click st)" by (rule frame) (simp add: page_frame_def download_click_def)
  show "page_wf host (report_copy st)"
    by (rule frame) (auto simp: page_frame_def report_copy_def split: option.splits)
  show "page_wf host (report_download st)"
    by (rule frame) (auto simp: page_frame_def report_download_def give_report_feedback_def
        reset_report_feedback_def split: option.splits)
  show "page_wf host (guidance_copy encoded st)"
    by (rule frame) (auto simp: page_frame_def guidance_copy_def guidance_failed_def split: option.splits)
  show "page_wf host (st\<lparr>selection := s\<rparr>)" by (rule frame) (simp add: page_frame_def)
  show "page_wf host (st\<lparr>active_tab := t\<rparr>)" by (rule frame) (simp add: page_frame_def)
  show "page_wf host (st\<lparr>validation_filter := f\<rparr>)" by (rule frame) (simp add: page_frame_def)
  show "page_wf host (st\<lparr>search_query := q, active_match := m\<rparr>)" by (rule frame) (simp add: page_frame_def)
qed

lemma page_wf_closes:
  assumes "page_wf host st"
  shows "page_wf host (close_format_preview note st)" and "page_wf host (close_report_preview note st)"
    and "page_wf host (clear_drag st)" and "page_wf host (drop_files dropped confirmed st)"
    and "page_wf host (fst (react host (Drag_enter b) st))" and "page_wf host (fst (react host (Drag_leave b) st))"
    and "page_wf host (invalidate_report_preview (set_editor v st))"
proof -
  show "page_wf host (clear_drag st)" using assms by (simp add: clear_drag_def page_wf_def current_report_def cong: option.case_cong sum.case_cong)
  then show "page_wf host (drop_files dropped confirmed st)"
    by (auto simp: drop_files_def page_wf_quiet split: list.splits)
  show "page_wf host (close_format_preview note st)"
    using assms by (auto simp: close_format_preview_def page_wf_def current_report_def Let_def
        cong: option.case_cong sum.case_cong split: option.splits)
  show "page_wf host (close_report_preview note st)"
    using assms by (auto simp: close_report_preview_def page_wf_def Let_def)
  show "page_wf host (fst (react host (Drag_enter b) st))"
    using assms by (auto simp: react_def page_wf_def current_report_def cong: option.case_cong sum.case_cong)
  show "page_wf host (fst (react host (Drag_leave b) st))"
    using assms by (auto simp: react_def page_wf_def current_report_def Let_def cong: option.case_cong sum.case_cong)
  show "page_wf host (invalidate_report_preview (set_editor v st))"
    using assms by (simp add: page_wf_def set_editor_def normalize_eol_no_cr)
qed

lemmas page_wf_events = page_wf_clear page_wf_sample page_wf_mode page_wf_apply page_wf_search
  page_wf_report_click page_wf_format_click page_wf_receive page_wf_quiet page_wf_closes

lemma page_wf_step:
  assumes "page_wf host st" and "available st e"
  shows "page_wf host (fst (react host e st))"
proof (cases e)
  case (Search_clear)
  have "page_wf host (reset_tree_search st)"
    using page_wf_quiet(10) [OF assms(1)] by (simp add: reset_tree_search_def)
  then show ?thesis by (simp add: Search_clear react_def)
next
  case (Filter_click f)
  then show ?thesis
    using page_wf_quiet(9) [OF assms(1)] by (simp add: react_def select_filter_def)
next
  case (Drag_enter b)
  then show ?thesis using page_wf_closes(5) [OF assms(1)] by simp
next
  case (Drag_leave b)
  then show ?thesis using page_wf_closes(6) [OF assms(1)] by simp
qed (use assms in \<open>simp_all add: react_def available_def page_wf_events\<close>)

lemma sample_lines: "cr \<notin> set sample_yaml"
  unfolding sample_yaml_def by (simp add: join_Cons str_simps)

lemma page_wf_initial: "page_initial host st \<Longrightarrow> page_wf host st"
  by (simp add: page_initial_def) (simp add: page_wf_def blank_page_def sample_lines)

section \<open>Properties of the page\<close>

text \<open>C29: whatever happens on the page, and in whatever order: the editor holds no carriage return; the
  file name is one path segment with a YAML extension; the drop zone is lit exactly while a drag is
  inside it; at most one dialog is open; an open report is the report of the current text, mode and
  file name; and an open formatting preview holds a text and its differing formatting.\<close>

theorem page_stays_well_formed: "page.reachable host st \<Longrightarrow> page_wf host st"
  by (rule page.reachable_invariant) (auto simp: page_step_def page_wf_initial page_wf_step)

end
