(* ===== verification/Session.thy ===== *)
theory Session
  imports PageLaws
begin

text \<open>
  What the page promises about the document being edited, as a small abstract machine: a text, the
  text last saved or opened, a file name and the files that have been asked for. The page is a
  refinement of it: rendering, previews, search, reports and the clipboard never touch the document.
\<close>

section \<open>The abstract session\<close>

record session =
  s_text :: jstr
  s_saved :: jstr
  s_name :: jstr
  s_pending :: "jstr list"

datatype session_op =
    Edit jstr
  | Save
  | Replace jstr jstr bool
  | Ask jstr bool
  | Arrive nat jstr
  | Fail nat

definition unsaved :: "session \<Rightarrow> bool" where
  "unsaved s \<longleftrightarrow> s_text s \<noteq> s_saved s"

definition without_request :: "nat \<Rightarrow> session \<Rightarrow> session" where
  "without_request k s = s\<lparr>s_pending := take k (s_pending s) @ drop (Suc k) (s_pending s)\<rparr>"

text \<open>
  Replacing the text and asking for a file need consent while there are unsaved edits; the arrival of a
  file that was asked for needs none.
\<close>

fun session_step :: "session \<Rightarrow> session_op \<Rightarrow> session \<Rightarrow> bool" where
  "session_step s (Edit t) s' \<longleftrightarrow> cr \<notin> set t \<and> s' = s\<lparr>s_text := t\<rparr>"
| "session_step s Save s' \<longleftrightarrow> s_text s \<noteq> [] \<and> s' = s\<lparr>s_saved := s_text s\<rparr>"
| "session_step s (Replace name v consent) s' \<longleftrightarrow> (unsaved s \<longrightarrow> consent) \<and> plain_yaml_name name \<and> cr \<notin> set v \<and>
     s' = s\<lparr>s_text := v, s_saved := v, s_name := name\<rparr>"
| "session_step s (Ask name consent) s' \<longleftrightarrow> (unsaved s \<longrightarrow> consent) \<and> yaml_name name \<and>
     s' = s\<lparr>s_pending := s_pending s @ [name]\<rparr>"
| "session_step s (Arrive k v) s' \<longleftrightarrow> k < length (s_pending s) \<and>
     s' = (without_request k s)\<lparr>s_text := normalize_eol v, s_saved := v, s_name := normalized_filename (s_pending s ! k)\<rparr>"
| "session_step s (Fail k) s' \<longleftrightarrow> k < length (s_pending s) \<and> s' = without_request k s"

definition fresh_session :: session where
  "fresh_session = \<lparr>s_text = sample_yaml, s_saved = sample_yaml, s_name = lit ''signalforge-sample.yaml'', s_pending = []\<rparr>"

definition session_initial :: "session \<Rightarrow> bool" where
  "session_initial s \<longleftrightarrow> s = fresh_session"

interpretation session: transition_system session_initial session_step .

section \<open>The page as a session\<close>

definition session_of :: "workbench \<Rightarrow> session" where
  "session_of st = \<lparr>s_text = editor st, s_saved = clean_snapshot st, s_name = current_filename st,
     s_pending = map pending_name (reading st)\<rparr>"

definition asks :: "workbench \<Rightarrow> jstr \<Rightarrow> bool \<Rightarrow> session_op option" where
  "asks st name consent = (if yaml_name name \<and> (editor st = clean_snapshot st \<or> consent) then Some (Ask name consent) else None)"

text \<open>What an event of the page means for the session.\<close>

definition session_meaning :: "workbench \<Rightarrow> event \<Rightarrow> session_op option" where
  "session_meaning st e = (case e of
       Input v \<Rightarrow> Some (Edit (normalize_eol v))
     | Sample_click consent \<Rightarrow> (if editor st = clean_snapshot st \<or> consent
         then Some (Replace (lit ''signalforge-sample.yaml'') sample_yaml consent) else None)
     | Clear_click consent \<Rightarrow> (if editor st = clean_snapshot st \<or> consent
         then Some (Replace (lit ''manifest.yaml'') [] consent) else None)
     | File_chosen name consent \<Rightarrow> asks st name consent
     | Editor_drop dropped consent \<Rightarrow> (case dropped of [name] \<Rightarrow> asks st name consent | _ \<Rightarrow> None)
     | File_read k (Some v) \<Rightarrow> Some (Arrive k v)
     | File_read k None \<Rightarrow> Some (Fail k)
     | Format_apply \<Rightarrow> map_option (\<lambda>p. Edit (normalize_eol (snd p))) (format_preview st)
     | Download_click \<Rightarrow> (if editor st \<noteq> [] then Some Save else None)
     | _ \<Rightarrow> None)"

lemma session_frame:
  "editor s = editor t \<Longrightarrow> clean_snapshot s = clean_snapshot t \<Longrightarrow> current_filename s = current_filename t \<Longrightarrow>
    reading s = reading t \<Longrightarrow> session_of s = session_of t"
  by (simp add: session_of_def)

lemma session_render [simp]: "session_of (fst (render_page host st)) = session_of st"
  by (rule session_frame) simp_all

lemma session_announce [simp]: "session_of (announce note t st) = session_of st"
  by (rule session_frame) simp_all

lemma session_invalidate [simp]: "session_of (invalidate_report_preview st) = session_of st"
  by (rule session_frame) (auto simp: invalidate_report_preview_def close_report_preview_def Let_def)

lemma session_then [simp]: "session_of (fst (and_then (render_page host) (announce note t) st)) = session_of st"
  by (simp add: and_then_result)

lemma session_load:
  "session_of (fst (load_editor host v filename note st)) =
     (session_of st)\<lparr>s_text := normalize_eol v, s_saved := v, s_name := normalized_filename filename\<rparr>"
  by (simp add: load_editor_def)
    (auto simp: session_of_def set_editor_def reset_tree_search_def invalidate_report_preview_def
      close_report_preview_def Let_def)

lemma session_request:
  "case asks st name consent of
     None \<Rightarrow> session_of (request_file label name consent focus st) = session_of st
   | Some p \<Rightarrow> session_step (session_of st) p (session_of (request_file label name consent focus st))"
  by (auto simp: asks_def request_file_def replacement_approved_def unsaved_def)
    (auto simp: session_of_def unsaved_def)

lemma session_receive:
  "k < length (reading st) \<Longrightarrow> session_step (session_of st) (case result of Some v \<Rightarrow> Arrive k v | None \<Rightarrow> Fail k)
     (session_of (receive_file host k result st))"
proof -
  assume k: "k < length (reading st)"
  have status: "session_of (s\<lparr>action_status := status\<rparr>) = session_of s" for s status
    by (simp add: session_of_def)
  have answered: "session_of (answered k st) = without_request k (session_of st)"
    by (simp add: session_of_def answered_def without_request_def take_map drop_map)
  have named: "s_pending (session_of st) ! k = pending_name (reading st ! k)"
    using k by (simp add: session_of_def)
  show ?thesis
  proof (cases result)
    case None
    then show ?thesis using receive_None [of host k st] k answered status
      by (auto simp: session_of_def)
  next
    case (Some v)
    then show ?thesis using receive_Some [of host k v st] k answered named status
      by (auto simp: session_load) (auto simp: session_of_def)
  qed
qed

lemma session_drop:
  "case (case dropped of [name] \<Rightarrow> asks st name consent | _ \<Rightarrow> None) of
     None \<Rightarrow> session_of (drop_files dropped consent st) = session_of st
   | Some p \<Rightarrow> session_step (session_of st) p (session_of (drop_files dropped consent st))"
proof -
  have clear: "session_of (clear_drag st) = session_of st" "asks (clear_drag st) = asks st"
    by (simp_all add: session_of_def clear_drag_def asks_def fun_eq_iff)
  show ?thesis
    using session_request [where st = "clear_drag st" and consent = consent and label = "lit ''Drop''" and focus = True]
    by (cases dropped rule: remdups_adj.cases) (simp_all add: drop_files_def clear cong: option.case_cong)
qed

lemma session_format_click [simp]: "session_of (fst (format_click host st)) = session_of st"
proof -
  have "session_of st' = session_of st" if opened: "open_format_preview b a st = Some st'" for b a st'
    using opened by (auto simp: open_format_preview_def session_of_def)
  moreover have "session_of (st\<lparr>active_tab := t\<rparr>) = session_of st" for t by (simp add: session_of_def)
  ultimately show ?thesis
    by (auto simp: format_click_def Let_def split: sum.splits option.splits)
qed

lemma session_quiet [simp]:
  "session_of (settle_copy k ok st) = session_of st" "session_of (report_copy st) = session_of st"
  "session_of (report_download st) = session_of st" "session_of (guidance_copy encoded st) = session_of st"
  "session_of (clear_drag st) = session_of st" "session_of (close_format_preview note st) = session_of st"
  "session_of (close_report_preview note st) = session_of st" "session_of (open_report_preview r st) = session_of st"
  by (auto simp: session_of_def settle_copy_def report_copy_def report_download_def guidance_copy_def clear_drag_def
      close_format_preview_def close_report_preview_def open_report_preview_def give_report_feedback_def
      reset_report_feedback_def guidance_failed_def Let_def announce_def split: option.splits copy_request.splits)

lemma session_search [simp]: "session_of (fst (move_match host forward st)) = session_of st"
proof -
  have "session_of (st\<lparr>active_match := m\<rparr>) = session_of st" for m by (simp add: session_of_def)
  then show ?thesis by (auto simp: move_match_def Let_def split: sum.splits)
qed

lemma session_clear:
  "session_of (fst (clear_editor host consent st)) = (if editor st = clean_snapshot st \<or> consent
     then (session_of st)\<lparr>s_text := [], s_saved := [], s_name := lit ''manifest.yaml''\<rparr> else session_of st)"
  by (auto simp: clear_editor_def)
    (auto simp: session_of_def set_editor_def reset_tree_search_def invalidate_report_preview_def
      close_report_preview_def Let_def)

lemma session_sample:
  "session_of (fst (load_sample host consent st)) = (if editor st = clean_snapshot st \<or> consent
     then (session_of st)\<lparr>s_text := sample_yaml, s_saved := sample_yaml, s_name := lit ''signalforge-sample.yaml''\<rparr>
     else session_of st)"
proof -
  have name: "normalized_filename (lit ''signalforge-sample.yaml'') = lit ''signalforge-sample.yaml''"
    by (simp add: normalized_filename_def leaf_of_def yaml_name_def str_simps)
  show ?thesis
    by (simp add: load_sample_def replacement_approved_def session_load name normalize_eol_id [OF sample_lines])
qed

lemma session_apply:
  "session_of (fst (format_apply host st)) = (case format_preview st of None \<Rightarrow> session_of st
     | Some p \<Rightarrow> (session_of st)\<lparr>s_text := normalize_eol (snd p)\<rparr>)"
  by (auto simp: format_apply_def split: option.splits) (auto simp: session_of_def set_editor_def)

lemma session_download:
  "session_of (download_click st) = (if editor st = [] then session_of st
     else (session_of st)\<lparr>s_saved := editor st\<rparr>)"
  by (simp add: download_click_def) (simp add: session_of_def)

lemma session_input:
  "session_of (set_editor v st) = (session_of st)\<lparr>s_text := normalize_eol v\<rparr>"
  by (simp add: session_of_def set_editor_def)

lemma session_small [simp]:
  "session_of (st\<lparr>active_tab := t\<rparr>) = session_of st" "session_of (st\<lparr>selection := s\<rparr>) = session_of st"
  "session_of (st\<lparr>drag_depth := d, drop_ready := r\<rparr>) = session_of st"
  "session_of (st\<lparr>search_query := q, active_match := i\<rparr>) = session_of st"
  "session_of (reset_tree_search st) = session_of st"
  "session_of (fst (select_mode host m st)) = session_of st" "session_of (fst (select_filter host f st)) = session_of st"
  "session_of (fst (report_click host st)) = session_of st"
proof -
  show "session_of (fst (select_mode host m st)) = session_of st"
    by (simp add: select_mode_def)
      (auto simp: session_of_def reset_tree_search_def invalidate_report_preview_def close_report_preview_def Let_def)
  show "session_of (fst (select_filter host f st)) = session_of st"
    by (simp add: select_filter_def) (simp add: session_of_def)
  show "session_of (fst (report_click host st)) = session_of st"
    by (auto simp: report_click_def split: option.splits)
qed (simp_all add: session_of_def reset_tree_search_def)

lemma session_simulates:
  assumes "page_wf host st" and "available st e"
  shows "case session_meaning st e of None \<Rightarrow> session_of (fst (react host e st)) = session_of st
    | Some p \<Rightarrow> session_step (session_of st) p (session_of (fst (react host e st)))"
proof (cases e)
  case (File_read k result)
  then show ?thesis
    using assms(2) session_receive [of k st result host]
    by (cases result) (simp_all add: session_meaning_def react_def available_def)
next
  case (File_chosen name consent)
  then show ?thesis
    using session_request [where st = st and name = name and consent = consent] by (simp add: session_meaning_def react_def cong: option.case_cong)
next
  case (Editor_drop dropped consent)
  then show ?thesis
    using session_drop [where st = st and dropped = dropped and consent = consent] by (simp add: session_meaning_def react_def cong: option.case_cong)
next
  case (Download_click)
  then show ?thesis
    by (simp add: session_meaning_def react_def session_download) (simp add: session_of_def)
next
  case (Input v)
  then show ?thesis
    by (simp add: session_meaning_def react_def session_input normalize_eol_no_cr)
next
  case (Format_apply)
  then show ?thesis
    by (cases "format_preview st") (simp_all add: session_meaning_def react_def session_apply normalize_eol_no_cr)
next
  case (Clear_click consent)
  then show ?thesis
    by (simp add: session_meaning_def react_def session_clear unsaved_def) (simp add: session_of_def)
next
  case (Sample_click consent)
  then show ?thesis
    by (simp add: session_meaning_def react_def session_sample unsaved_def sample_lines) (simp add: session_of_def)
qed (simp_all add: session_meaning_def react_def Let_def split: if_splits)

lemma session_start: "page_initial host st \<Longrightarrow> session_of st = fresh_session"
  by (simp add: page_initial_def) (simp add: session_of_def fresh_session_def blank_page_def)

interpretation page_session: simulation "page_initial host" "page_step host" session_initial session_step
  session_of "page_wf host" session_meaning "\<lambda>e st. fst (react host e st)" for host
proof
  show "session_initial (session_of st)" if "page_initial host st" for st
    using session_start [OF that] by (simp add: session_initial_def)
  show "page_wf host st" if "page_initial host st" for st using page_wf_initial [OF that] .
  show "page_wf host st'" if "page_wf host st" "page_step host st e st'" for st e st'
    using page_wf_step that by (auto simp: page_step_def)
  show "st' = fst (react host e st)" if "page_step host st e st'" for st e st'
    using that by (simp add: page_step_def)
  show "case session_meaning st e of None \<Rightarrow> session_of st' = session_of st
      | Some p \<Rightarrow> session_step (session_of st) p (session_of st')"
    if "page_wf host st" "page_step host st e st'" for st e st'
    using session_simulates [of host st e] that by (simp add: page_step_def cong: option.case_cong)
qed

text \<open>A page on which one file has been chosen: the first steps of a visit.\<close>

definition first_page :: workbench where
  "first_page = fst (render_page bare_host blank_page)"

lemma first_page: "page_initial bare_host first_page" "page.reachable bare_host first_page"
  "editor first_page = sample_yaml" "clean_snapshot first_page = sample_yaml" "uncovered first_page"
  "reading first_page = []"
proof -
  show initial: "page_initial bare_host first_page" by (simp add: page_initial_def first_page_def)
  then show "page.reachable bare_host first_page"
    unfolding page.reachable_def by (blast intro: page.run.stay)
qed (simp_all add: first_page_def uncovered_def, simp_all add: blank_page_def)

lemma session_consent:
  assumes "session_step s p s'" and "unsaved s"
  shows "s_text s' \<noteq> s_text s \<Longrightarrow>
      (\<exists>t. p = Edit t) \<or> (\<exists>name v. p = Replace name v True) \<or> (\<exists>k v. p = Arrive k v \<and> k < length (s_pending s))"
    and "length (s_pending s') > length (s_pending s) \<Longrightarrow> \<exists>name. p = Ask name True \<and> yaml_name name"
  using assms by (cases p; auto simp: without_request_def)+

lemma meaning_Some:
  "session_meaning st e = Some (Edit t) \<Longrightarrow> (\<exists>v. e = Input v) \<or> e = Format_apply"
  "session_meaning st e = Some (Replace name v b) \<Longrightarrow> e = Sample_click b \<or> e = Clear_click b"
  "session_meaning st e = Some (Arrive k v) \<Longrightarrow> e = File_read k (Some v)"
  "session_meaning st e = Some (Ask name b) \<Longrightarrow> e = File_chosen name b \<or> e = Editor_drop [name] b"
  by (auto simp: session_meaning_def asks_def split: event.splits if_splits option.splits list.splits)

lemma session_pending:
  assumes "session_step s p s'" and "name \<in> set (s_pending s')"
  shows "set (s_pending s') \<subseteq> set (s_pending s) \<or> name \<in> set (s_pending s) \<or>
    (\<exists>consent. p = Ask name consent \<and> yaml_name name \<and> (unsaved s \<longrightarrow> consent))"
  using assms by (cases p) (auto simp: without_request_def dest: in_set_takeD in_set_dropD)

text \<open>A file of this name was chosen or dropped, when nothing was unsaved or with a confirmation.\<close>

definition was_requested :: "host \<Rightarrow> workbench \<Rightarrow> event list \<Rightarrow> jstr \<Rightarrow> bool" where
  "was_requested host s es name \<longleftrightarrow> (\<exists>before e after consent. es = before @ e # after \<and> yaml_name name \<and>
     (e = File_chosen name consent \<or> e = Editor_drop [name] consent) \<and>
     (let u = fold (\<lambda>e st. fst (react host e st)) before s in editor u = clean_snapshot u \<or> consent))"

lemma was_requested_later: "was_requested host (fst (react host e s)) es name \<Longrightarrow> was_requested host s (e # es) name"
  unfolding was_requested_def
proof (elim exE conjE)
  fix before x after consent
  assume "es = before @ x # after" "yaml_name name" "x = File_chosen name consent \<or> x = Editor_drop [name] consent"
    "let u = fold (\<lambda>e st. fst (react host e st)) before (fst (react host e s)) in editor u = clean_snapshot u \<or> consent"
  then show "\<exists>before x after consent. e # es = before @ x # after \<and> yaml_name name \<and>
      (x = File_chosen name consent \<or> x = Editor_drop [name] consent) \<and>
      (let u = fold (\<lambda>e st. fst (react host e st)) before s in editor u = clean_snapshot u \<or> consent)"
    by (intro exI [of _ "e # before"] exI [of _ x] exI [of _ after] exI [of _ consent]) simp
qed

lemma new_request:
  assumes "page_wf host st" and "page_step host st e st'" and "name \<in> set (map pending_name (reading st'))"
  shows "name \<in> set (map pending_name (reading st)) \<or> was_requested host st (e # es) name"
proof -
  have pending: "set (map pending_name (reading u)) = set (s_pending (session_of u))" for u
    by (simp add: session_of_def)
  have step: "case session_meaning st e of None \<Rightarrow> session_of st' = session_of st
      | Some p \<Rightarrow> session_step (session_of st) p (session_of st')"
    using session_simulates [OF assms(1)] assms(2) by (auto simp: page_step_def)
  show ?thesis
  proof (cases "session_meaning st e")
    case None
    then show ?thesis using step assms(3) unfolding pending by simp
  next
    case (Some p)
    then have step: "session_step (session_of st) p (session_of st')" using step by simp
    consider "set (s_pending (session_of st')) \<subseteq> set (s_pending (session_of st))"
      | "name \<in> set (s_pending (session_of st))"
      | consent where "p = Ask name consent" "yaml_name name" "unsaved (session_of st) \<longrightarrow> consent"
      using session_pending [OF step, of name] assms(3) unfolding pending by blast
    then show ?thesis
    proof cases
      case 1
      then show ?thesis using assms(3) unfolding pending by blast
    next
      case 2
      then show ?thesis unfolding pending ..
    next
      case 3
      then have "e = File_chosen name consent \<or> e = Editor_drop [name] consent" using meaning_Some(4) Some by blast
      moreover have "editor st = clean_snapshot st \<or> consent" using 3(3) by (auto simp: unsaved_def session_of_def)
      ultimately have "was_requested host st (e # es) name"
        unfolding was_requested_def using 3(2)
        by (intro exI [of _ "[]"] exI [of _ e] exI [of _ es] exI [of _ consent]) simp
      then show ?thesis ..
    qed
  qed
qed

lemma pending_was_requested:
  "page.run host s es t \<Longrightarrow> page_wf host s \<Longrightarrow> name \<in> set (map pending_name (reading t)) \<Longrightarrow>
    name \<in> set (map pending_name (reading s)) \<or> was_requested host s es name"
proof (induction rule: page.run.induct)
  case (go s e t es u)
  then have t: "t = fst (react host e s)" "page_wf host t" using page_wf_step by (auto simp: page_step_def)
  then have "name \<in> set (map pending_name (reading t)) \<or> was_requested host t es name" using go by blast
  then show ?case using new_request [OF go.prems(1) go.hyps(1)] was_requested_later t(1) by blast
qed blast

lemma fresh_reading: "page_initial host s \<Longrightarrow> reading s = []"
proof -
  assume "page_initial host s"
  then have "s_pending (session_of s) = []" by (simp add: session_start fresh_session_def)
  then show ?thesis by (simp add: session_of_def)
qed

lemma consent_step:
  assumes "page.reachable host st" and "page_step host st e st'" and "editor st \<noteq> clean_snapshot st"
  shows "(editor st' \<noteq> editor st \<longrightarrow> (\<exists>v. e = Input v) \<or> e = Format_apply \<or> e = Sample_click True \<or>
      e = Clear_click True \<or> (\<exists>k v. e = File_read k (Some v) \<and> k < length (reading st))) \<and>
    (length (reading st') > length (reading st) \<longrightarrow>
      (\<exists>name. yaml_name name \<and> (e = File_chosen name True \<or> e = Editor_drop [name] True)))"
proof -
  have wf: "page_wf host st"
    using page.reachable_invariant [of host "page_wf host"] assms(1) page_wf_initial page_wf_step
    by (auto simp: page_step_def)
  have fields: "s_text (session_of u) = editor u" "length (s_pending (session_of u)) = length (reading u)"
    "unsaved (session_of st)" for u
    using assms(3) by (simp_all add: session_of_def unsaved_def)
  have step: "case session_meaning st e of None \<Rightarrow> session_of st' = session_of st
      | Some p \<Rightarrow> session_step (session_of st) p (session_of st')"
    using session_simulates [OF wf] assms(2) by (auto simp: page_step_def)
  show ?thesis
  proof (cases "session_meaning st e")
    case None
    then show ?thesis using step fields(1,2) by (metis less_irrefl option.simps(4))
  next
    case (Some p)
    with step have step: "session_step (session_of st) p (session_of st')" by simp
    show ?thesis
      using session_consent [OF step fields(3)] meaning_Some [of st e] Some unfolding fields by blast
  qed
qed

section \<open>Properties\<close>

text \<open>C30: the page refines the session, event by event: whatever sequence of events happens, the document
  (text, saved text, file name, files asked for) goes through exactly the session operations these events
  amount to, in their order, each with the consent that its event carries. A sample, a clear or a chosen
  file is such an operation only if nothing is unsaved or the user confirmed, else it means nothing;
  renders, previews, searches, tabs, reports, drags and copies mean nothing, so that they leave the document
  as it is.\<close>

theorem page_refines_session:
  assumes "page_initial host s" and "page.run host s es t"
  shows "session.run fresh_session (op_trace session_meaning (\<lambda>e st. fst (react host e st)) s es) (session_of t)"
  using page_session.run_simulated [OF assms(2) page_wf_initial [OF assms(1)]] session_start [OF assms(1)] by simp

text \<open>Typing, then a sample that is not confirmed: one operation, the edit.\<close>

lemma page_refines_session_witness:
  "\<exists>t. session.run fresh_session [Edit (lit ''kind: Pod'')] (session_of t) \<and> editor t = lit ''kind: Pod''"
proof -
  let ?typed = "fst (react bare_host (Input (lit ''kind: Pod'')) first_page)"
  let ?t = "fst (react bare_host (Sample_click False) ?typed)"
  have input: "session_of ?typed = (session_of first_page)\<lparr>s_text := lit ''kind: Pod''\<rparr>"
    by (simp add: react_def session_input) (simp add: str_simps)
  then have typed: "editor ?typed = lit ''kind: Pod''" "clean_snapshot ?typed = sample_yaml"
    using first_page(3,4) by (simp_all add: session_of_def)
  have covered: "uncovered ?typed"
    using first_page(5) by (simp add: react_def uncovered_def) (simp add: set_editor_def)
  have "page.run bare_host first_page [Input (lit ''kind: Pod''), Sample_click False] ?t"
    using first_page(5) covered
    by (intro page.run.go [OF _ page.run.go [OF _ page.run.stay]]) (simp_all add: page_step_def available_def)
  from page_refines_session [OF first_page(1) this]
  have run: "session.run fresh_session
      (op_trace session_meaning (\<lambda>e st. fst (react bare_host e st)) first_page [Input (lit ''kind: Pod''), Sample_click False])
      (session_of ?t)" .
  have edited: "lit ''kind: Pod'' \<noteq> sample_yaml" by (simp add: sample_yaml_def str_simps)
  have eol: "normalize_eol (lit ''kind: Pod'') = lit ''kind: Pod''" by (simp add: str_simps)
  have "session_meaning first_page (Input (lit ''kind: Pod'')) = Some (Edit (lit ''kind: Pod''))"
    by (simp add: session_meaning_def eol)
  moreover have "session_meaning ?typed (Sample_click False) = None"
    by (simp add: session_meaning_def typed edited)
  ultimately have "session.run fresh_session [Edit (lit ''kind: Pod'')] (session_of ?t)"
    using run by (simp only: op_trace.simps option.case)
  moreover have "session_of (fst (react bare_host (Sample_click False) u)) = session_of u"
    if "editor u \<noteq> clean_snapshot u" for u
    by (simp add: react_def session_sample that)
  then have "session_of ?t = session_of ?typed" using typed edited by metis
  then have "editor ?t = lit ''kind: Pod''" using typed(1) by (simp add: session_of_def)
  ultimately show ?thesis by blast
qed

text \<open>C31: unsaved edits are not replaced without the user: while there are any, the text changes only by
  typing, by applying a formatting preview, by a sample or a clear that was confirmed, or by the arrival of
  a file that the user chose or dropped earlier, at a moment when nothing was unsaved or with a
  confirmation; and while there are any, a file is asked for only with a confirmation and a YAML name. The
  arrival itself asks nothing, so that it replaces what was typed since the file was chosen.\<close>

theorem unsaved_edits_need_consent:
  assumes "page_initial host s" and "page.run host s es st" and "page_step host st e st'"
    and "editor st \<noteq> clean_snapshot st"
  shows "(editor st' \<noteq> editor st \<longrightarrow> (\<exists>v. e = Input v) \<or> e = Format_apply \<or> e = Sample_click True \<or>
      e = Clear_click True \<or> (\<exists>k v. e = File_read k (Some v) \<and> k < length (reading st) \<and>
        was_requested host s es (pending_name (reading st ! k)))) \<and>
    (length (reading st') > length (reading st) \<longrightarrow>
      (\<exists>name. yaml_name name \<and> (e = File_chosen name True \<or> e = Editor_drop [name] True)))"
proof -
  have reachable: "page.reachable host st" unfolding page.reachable_def using assms(1,2) by blast
  have requested: "was_requested host s es (pending_name (reading st ! k))" if "k < length (reading st)" for k
  proof -
    have "pending_name (reading st ! k) \<in> set (map pending_name (reading st))" using that by simp
    from pending_was_requested [OF assms(2) page_wf_initial [OF assms(1)] this] show ?thesis
      by (simp add: fresh_reading [OF assms(1)])
  qed
  have step: "editor st' \<noteq> editor st \<Longrightarrow> (\<exists>v. e = Input v) \<or> e = Format_apply \<or> e = Sample_click True \<or>
      e = Clear_click True \<or> (\<exists>k v. e = File_read k (Some v) \<and> k < length (reading st))"
    "length (reading st') > length (reading st) \<Longrightarrow>
      (\<exists>name. yaml_name name \<and> (e = File_chosen name True \<or> e = Editor_drop [name] True))"
    using consent_step [OF reachable assms(3,4)] by blast+
  show ?thesis
  proof (intro conjI impI)
    assume "editor st' \<noteq> editor st"
    from step(1) [OF this] show "(\<exists>v. e = Input v) \<or> e = Format_apply \<or> e = Sample_click True \<or> e = Clear_click True \<or>
        (\<exists>k v. e = File_read k (Some v) \<and> k < length (reading st) \<and>
          was_requested host s es (pending_name (reading st ! k)))"
      using requested by blast
  qed (rule step(2))
qed

text \<open>The first page after typing.\<close>

definition edited_page :: workbench where
  "edited_page = fst (react bare_host (Input (lit ''kind: Pod'')) first_page)"

lemma edited_page:
  "page.run bare_host first_page [Input (lit ''kind: Pod'')] edited_page" "page.reachable bare_host edited_page"
  "editor edited_page = lit ''kind: Pod''" "clean_snapshot edited_page = sample_yaml" "uncovered edited_page"
  "reading edited_page = []"
proof -
  show run: "page.run bare_host first_page [Input (lit ''kind: Pod'')] edited_page"
    unfolding edited_page_def
    by (rule page.run.go [OF _ page.run.stay]) (simp add: page_step_def available_def first_page(5))
  then show "page.reachable bare_host edited_page"
    unfolding page.reachable_def using first_page(1) by blast
  have same: "session_of edited_page = (session_of first_page)\<lparr>s_text := lit ''kind: Pod''\<rparr>"
    by (simp add: edited_page_def react_def session_input) (simp add: str_simps)
  then show "editor edited_page = lit ''kind: Pod''" "clean_snapshot edited_page = sample_yaml" "reading edited_page = []"
    using first_page by (simp_all add: session_of_def)
  show "uncovered edited_page"
    using first_page(5) by (simp add: edited_page_def react_def uncovered_def) (simp add: set_editor_def)
qed

lemma unsaved_edits_need_consent_witness:
  "\<exists>st'. page_step bare_host edited_page (Sample_click False) st' \<and> editor st' = editor edited_page"
proof -
  have step: "page_step bare_host edited_page (Sample_click False)
      (fst (react bare_host (Sample_click False) edited_page))"
    using edited_page(5) by (simp add: page_step_def available_def)
  have "editor edited_page \<noteq> clean_snapshot edited_page"
    by (simp add: edited_page(3,4) sample_yaml_def str_simps)
  from unsaved_edits_need_consent [OF first_page(1) edited_page(1) step this] step show ?thesis by blast
qed

text \<open>
  Requests that overtake each other. A file is read between its approval and its arrival, and nothing is
  checked at the arrival: what is typed meanwhile is discarded without a question. A formatting preview
  that is open at the arrival stays open, and applying it puts the formatting of the former text under
  the name of the new file.
\<close>

lemma late_file_discards_edits:
  assumes "page.run host st [Input v, File_read k (Some w)] u"
  shows "editor u = normalize_eol w \<and> clean_snapshot u = w"
proof -
  obtain m where "u = receive_file host k (Some w) m"
    using assms by (auto elim!: page.run.cases simp: page_step_def react_def)
  moreover have "editor (s\<lparr>action_status := a\<rparr>) = editor s \<and> clean_snapshot (s\<lparr>action_status := a\<rparr>) = clean_snapshot s"
    for s a by simp
  ultimately show ?thesis using receive_Some [of host k w m] load_fields by metis
qed

text \<open>C32: a formatting preview outlives the text it was made for: if a file that was asked for arrives while
  the preview is open, applying the preview replaces the contents of that file by the formatting of the
  text before, under the name of that file.\<close>

theorem stale_preview_overwrites_file:
  assumes "format_preview st = Some (before, after)"
    and "page.run host st [File_read k (Some w), Format_apply] u"
  shows "editor u = normalize_eol after \<and> clean_snapshot u = w \<and>
    current_filename u = normalized_filename (pending_name (reading st ! k))"
proof -
  define m where "m = receive_file host k (Some w) st"
  have u: "u = fst (format_apply host m)"
    using assms(2) by (auto elim!: page.run.cases simp: page_step_def react_def m_def)
  obtain status where m: "m = (fst (load_editor host w (pending_name (reading st ! k))
      (pending_name (reading st ! k) @ lit '' opened'') (answered k st)))\<lparr>action_status := status\<rparr>"
    using receive_Some unfolding m_def by blast
  have "format_preview m = Some (before, after)" using assms(1) by (simp add: m)
  then have "session_of u = (session_of m)\<lparr>s_text := normalize_eol after\<rparr>"
    using session_apply [of host m] u by simp
  then show ?thesis by (simp add: m session_of_def)
qed

text \<open>A file is chosen on the first page, and formatting is previewed before it arrives.\<close>

definition previewing_page :: workbench where
  "previewing_page = fst (react bare_host Format_click (fst (react bare_host (File_chosen (lit ''b.yaml'') False) first_page)))"

lemma visible_start: "s = u # r \<Longrightarrow> \<not> is_ws u \<Longrightarrow> \<not> list_all is_ws s \<and> [] \<noteq> s"
  by simp

lemma previewing_page:
  "page.reachable bare_host previewing_page" "format_preview previewing_page = Some (sample_yaml, [])"
  "map pending_name (reading previewing_page) = [lit ''b.yaml'']"
proof -
  define asked where "asked = fst (react bare_host (File_chosen (lit ''b.yaml'') False) first_page)"
  have name: "yaml_name (lit ''b.yaml'')" by (simp add: yaml_name_def str_simps)
  have asked: "asked = first_page\<lparr>reading := [\<lparr>pending_name = lit ''b.yaml'', pending_focus = False\<rparr>]\<rparr>"
    using first_page(3,4,6) name by (simp add: asked_def react_def request_file_def replacement_approved_def)
  have covered: "uncovered asked" "editor asked = sample_yaml"
    using first_page(3,5) by (simp_all add: asked uncovered_def)
  have "page_step bare_host first_page (File_chosen (lit ''b.yaml'') False) asked"
    "page_step bare_host asked Format_click previewing_page"
    using first_page(5) covered(1)
    by (simp_all add: page_step_def available_def asked_def previewing_page_def)
  then have "page.run bare_host first_page [File_chosen (lit ''b.yaml'') False, Format_click] previewing_page"
    by (blast intro: page.run.intros)
  then show "page.reachable bare_host previewing_page"
    unfolding page.reachable_def using first_page(1) by blast
  obtain d where "build_line_diff sample_yaml [] = Some d" using diff_returns by blast
  then obtain st' where opened: "open_format_preview sample_yaml [] asked = Some st'" by (simp add: open_format_preview_def)
  then have st': "format_preview st' = Some (sample_yaml, [])" "reading st' = reading asked"
    by (auto simp: open_format_preview_def)
  have formatted: "format_yaml bare_host sample_yaml = Inr []"
    by (simp add: format_yaml_def bare_host_def trim_end_def)
  have "\<exists>ls. sample_yaml = join [lf] (lit ''apiVersion: apps/v1'' # ls)"
    by (simp only: sample_yaml_def) blast
  then obtain ls where "sample_yaml = join [lf] (lit ''apiVersion: apps/v1'' # ls)" ..
  then have "sample_yaml = cu CHR ''a'' # join [lf] (lit ''piVersion: apps/v1'' # ls)"
    by (simp only: lit_Cons [of "CHR ''a''" "''piVersion: apps/v1''"] join_Cons_head cu_def)
  moreover have "\<not> is_ws (cu CHR ''a'')" by (simp add: is_ws_def cu_def)
  ultimately have "\<not> list_all is_ws sample_yaml \<and> [] \<noteq> sample_yaml"
    by (rule visible_start)
  then have page: "previewing_page = fst (render_page bare_host st')"
    unfolding previewing_page_def asked_def [symmetric]
    by (simp add: react_def format_click_def covered formatted opened trim_Nil_iff Let_def)
  show "format_preview previewing_page = Some (sample_yaml, [])"
    "map pending_name (reading previewing_page) = [lit ''b.yaml'']"
    using st' by (simp_all add: page asked)
qed

lemma stale_preview_overwrites_file_witness:
  "\<exists>u. page.run bare_host previewing_page [File_read 0 (Some (lit ''kind: Pod'')), Format_apply] u \<and>
     editor u = [] \<and> clean_snapshot u = lit ''kind: Pod''"
proof -
  define m where "m = fst (react bare_host (File_read 0 (Some (lit ''kind: Pod''))) previewing_page)"
  have "reading previewing_page \<noteq> []" using previewing_page(3) by force
  then have first: "page_step bare_host previewing_page (File_read 0 (Some (lit ''kind: Pod''))) m"
    by (simp add: page_step_def available_def m_def)
  have "format_preview m = Some (sample_yaml, [])"
    using receive_Some [of bare_host 0 "lit ''kind: Pod''" previewing_page] previewing_page(2)
    by (auto simp: m_def react_def)
  then have "page_step bare_host m Format_apply (fst (react bare_host Format_apply m))"
    by (simp add: page_step_def available_def)
  with first have "page.run bare_host previewing_page [File_read 0 (Some (lit ''kind: Pod'')), Format_apply]
      (fst (react bare_host Format_apply m))"
    by (blast intro: page.run.intros)
  from this stale_preview_overwrites_file [OF previewing_page(2) this] show ?thesis by auto
qed

text \<open>
  The snapshot of an opened file is its raw text, the editor's text has line feeds only: a file with
  carriage returns counts as edited as soon as it is opened.
\<close>

lemma opened_with_returns_is_unsaved:
  assumes "page.run host st [File_read k (Some w)] u" and "cr \<in> set w"
  shows "unsaved (session_of u)"
proof -
  have "u = receive_file host k (Some w) st"
    using assms(1) by (auto elim!: page.run.cases simp: page_step_def react_def)
  then have "editor u = normalize_eol w" "clean_snapshot u = w"
    using receive_Some [of host k w st] by auto
  moreover have "normalize_eol w \<noteq> w" using assms(2) normalize_eol_no_cr [of w] by metis
  ultimately show ?thesis by (simp add: unsaved_def session_of_def)
qed

text \<open>A load that throws has replaced the text already, and the announcement says it has not.\<close>

lemma failed_open_changes_text:
  assumes "snd (load_editor host w (pending_name (reading st ! k)) (pending_name (reading st ! k) @ lit '' opened'')
      (answered k st)) = Thrown"
  shows "editor (receive_file host k (Some w) st) = normalize_eol w \<and>
    action_status (receive_file host k (Some w) st) =
      (Problem, lit ''Could not read '' @ pending_name (reading st ! k) @ (lit '' '' @ [0x2014] @ lit '' YAML was not changed''))"
proof -
  have "receive_file host k (Some w) st = announce
      (lit ''Could not read '' @ pending_name (reading st ! k) @ (lit '' '' @ [0x2014] @ lit '' YAML was not changed'')) Problem
      (fst (load_editor host w (pending_name (reading st ! k)) (pending_name (reading st ! k) @ lit '' opened'') (answered k st)))"
    using assms by (auto simp: receive_file_def answered_def [symmetric] Let_def split: prod.splits outcome.splits)
  then show ?thesis by simp (simp add: announce_def)
qed

lemma page_stays_well_formed_witness: "page_wf bare_host previewing_page"
  using page_stays_well_formed [OF previewing_page(1)] .

end
