(* ===== verification/Freshness.thy ===== *)
theory Freshness
  imports Session
begin

text \<open>
  What the page shows. As long as every text in the editor is tame, no handler throws, and in every state
  between two events the badge, the status, the captions and the selected tab are those of an
  inspection of the text that is in the editor, in the selected mode.
\<close>

section \<open>Rendering\<close>

definition presents :: "host \<Rightarrow> workbench \<Rightarrow> bool" where
  "presents host st \<longleftrightarrow> (\<exists>a. analyze_yaml host (editor st) (inspection_mode st) = Inr a \<and>
     show_analysis a st = st \<and> view_of host a st = (active_match st, Some (results st)))"

lemma match_index_first [simp]: "match_index (r # rs) (Some (rec_id r)) = Some 0"
  by (simp add: match_index_def)

lemma match_index_SomeD: "match_index ms active = Some i \<Longrightarrow> i < length ms \<and> active = Some (rec_id (ms ! i))"
  using nth_length_takeWhile [of "\<lambda>r. Some (rec_id r) \<noteq> active" ms]
  by (auto simp: match_index_def Let_def split: if_splits)

lemma settle_idem [simp]: "settle_active ms (settle_active ms active) = settle_active ms active"
proof (cases ms)
  case (Cons r rs)
  show ?thesis
  proof (cases "match_index ms active")
    case None
    then show ?thesis by (simp add: settle_active_def Cons)
  next
    case (Some i)
    then have "settle_active ms active = active"
      using match_index_SomeD [OF Some] by (simp add: settle_active_def Cons)
    then show ?thesis by simp
  qed
qed (simp add: settle_active_def)

lemma tree_view_settled: "tree_view low q (fst (tree_view low q given a)) a = tree_view low q given a"
proof -
  have "fst (tree_view low q given a) = settle_active (tree_matches low q a) given"
    by (simp add: tree_view_def Let_def)
  then show ?thesis by (simp add: tree_view_def)
qed

lemma view_settled: "view_of host a (st\<lparr>active_match := fst (view_of host a st)\<rparr>) = view_of host a st"
  by (simp add: view_of_def tree_view_settled split: tab.split)

lemma view_cong:
  "active_tab s = active_tab t \<Longrightarrow> active_match s = active_match t \<Longrightarrow> validation_filter s = validation_filter t \<Longrightarrow>
    search_query s = search_query t \<Longrightarrow> view_of host a s = view_of host a t"
  by (simp add: view_of_def cong: tab.case_cong)

lemma view_total:
  assumes "presentable a"
  shows "\<exists>h. snd (view_of host a st) = Some h"
  using assms summary_view_total validation_view_total tree_view_total
  by (simp add: view_of_def split: tab.split)

definition renderable :: "host \<Rightarrow> workbench \<Rightarrow> bool" where
  "renderable host st \<longleftrightarrow> tame_source host (editor st) \<and> documented_validators host \<and>
     inspection_mode st \<in> {Kubernetes, General}"

lemma render_presents:
  assumes "renderable host st"
  shows "snd (render_page host st) = Returned" and "presents host (fst (render_page host st))"
proof -
  have mode: "inspection_mode st = Kubernetes \<or> inspection_mode st = General"
    and tame: "tame_source host (editor st)" "documented_validators host"
    using assms by (auto simp: renderable_def)
  obtain a where a: "analyze_yaml host (editor st) (inspection_mode st) = Inr a"
    using inspection_returns [OF tame mode] by blast
  obtain active h where view: "view_of host a st = (active, Some h)"
    using view_total [OF inspection_presentable [OF tame(1) a mode]] by (metis prod.collapse)
  let ?shown = "(show_analysis a st)\<lparr>active_match := active, results := h\<rparr>"
  have render: "render_page host st = (?shown, Returned)"
    by (simp add: render_page_def a view Let_def)
  then show "snd (render_page host st) = Returned" by simp
  have "view_of host a ?shown = view_of host a (st\<lparr>active_match := active\<rparr>)"
    by (rule view_cong) (simp_all add: show_analysis_def)
  also have "\<dots> = (active, Some h)" using view_settled [of host a st] by (simp add: view)
  finally have "view_of host a ?shown = (active, Some h)" .
  moreover have "show_analysis a ?shown = ?shown" by (simp add: show_analysis_def)
  moreover have "analyze_yaml host (editor ?shown) (inspection_mode ?shown) = Inr a"
    "active_match ?shown = active" "results ?shown = h"
    using a by (simp_all add: show_analysis_def)
  ultimately show "presents host (fst (render_page host st))"
    unfolding presents_def render fst_conv by metis
qed

text \<open>What \<open>presents\<close> looks at.\<close>

definition shown_frame :: "workbench \<Rightarrow> _" where
  "shown_frame st = (editor st, inspection_mode st, active_tab st, validation_filter st, search_query st,
     active_match st, line_count st, badge st, page_captions st, page_status st, results st)"

lemma presents_frame:
  assumes "shown_frame s = shown_frame t"
  shows "presents host s = presents host t"
proof -
  have "view_of host a s = view_of host a t" for a
    using assms by (intro view_cong) (simp_all add: shown_frame_def)
  moreover have "show_analysis a s = s \<longleftrightarrow> line_count_text (editor s) = line_count s \<and>
      (if report_finding_count a \<noteq> 0 then nat_text (report_finding_count a) else []) = badge s \<and>
      mode_captions (inspection_mode s) = page_captions s \<and> status_line (editor s) a = page_status s" for a s
    by (cases s) (simp add: show_analysis_def)
  ultimately show ?thesis using assms by (simp add: presents_def shown_frame_def)
qed

section \<open>Events\<close>

text \<open>A handler that ends well from here: nothing is thrown and the page shows its text.\<close>

definition settles :: "host \<Rightarrow> workbench \<times> outcome \<Rightarrow> bool" where
  "settles host out \<longleftrightarrow> presents host (fst out) \<and> snd out = Returned"

lemma presents_announce [simp]: "presents host (announce note t st) = presents host st"
  by (rule presents_frame) (simp add: shown_frame_def announce_def)

lemma settles_render [simp]: "renderable host st \<Longrightarrow> settles host (render_page host st)"
  by (simp add: settles_def render_presents)

lemma settles_then [simp]:
  "renderable host st \<Longrightarrow> settles host (and_then (render_page host) (announce note t) st)"
  by (simp add: settles_def and_then_result render_presents)

lemma settles_frame: "presents host st \<Longrightarrow> shown_frame s = shown_frame st \<Longrightarrow> settles host (s, Returned)"
  using presents_frame [of s st] by (simp add: settles_def)

lemma settles_load [simp]:
  "renderable host (st\<lparr>editor := normalize_eol v\<rparr>) \<Longrightarrow> settles host (load_editor host v name note st)"
  unfolding load_editor_def by (rule settles_then)
    (simp add: renderable_def set_editor_def reset_tree_search_def)

lemma presents_receive:
  assumes "presents host st" and "case result of None \<Rightarrow> True | Some v \<Rightarrow> renderable host (st\<lparr>editor := normalize_eol v\<rparr>)"
  shows "presents host (receive_file host k result st)"
proof -
  have status: "presents host (s\<lparr>action_status := status\<rparr>) = presents host s" for s status
    by (rule presents_frame) (simp add: shown_frame_def)
  show ?thesis
  proof (cases result)
    case None
    have "presents host (answered k st)"
      using assms(1) presents_frame [of "answered k st" st] by (simp add: shown_frame_def answered_def)
    then show ?thesis using receive_None [of host k st] status None by metis
  next
    case (Some v)
    then have "renderable host ((answered k st)\<lparr>editor := normalize_eol v\<rparr>)"
      using assms(2) by (simp add: renderable_def)
    then have "presents host (fst (load_editor host v name msg (answered k st)))" for name msg
      using settles_load by (simp add: settles_def)
    then show ?thesis using receive_Some [of host k v st] status Some by metis
  qed
qed

lemma request_frame: "shown_frame (request_file label name consent focus st) = shown_frame st"
  by (auto simp: request_file_def replacement_approved_def shown_frame_def announce_def)

lemma drop_frame: "shown_frame (drop_files dropped consent st) = shown_frame st"
  by (auto simp: drop_files_def request_frame split: list.splits)
    (auto simp: shown_frame_def clear_drag_def announce_def)

lemma quiet_frames:
  "shown_frame (announce note t st) = shown_frame st" "shown_frame (settle_copy k ok st) = shown_frame st"
  "shown_frame (report_copy st) = shown_frame st" "shown_frame (report_download st) = shown_frame st"
  "shown_frame (guidance_copy encoded st) = shown_frame st" "shown_frame (clear_drag st) = shown_frame st"
  "shown_frame (close_format_preview note st) = shown_frame st" "shown_frame (close_report_preview note st) = shown_frame st"
  "shown_frame (open_report_preview r st) = shown_frame st" "shown_frame (download_click st) = shown_frame st"
  by (auto simp: shown_frame_def settle_copy_def report_copy_def report_download_def guidance_copy_def clear_drag_def
      close_format_preview_def close_report_preview_def open_report_preview_def give_report_feedback_def download_click_def
      reset_report_feedback_def guidance_failed_def Let_def announce_def split: option.splits copy_request.splits)

lemma settles_search:
  assumes "presents host st" and "renderable host st"
  shows "settles host (move_match host forward st)"
proof -
  have "renderable host (st\<lparr>active_match := i\<rparr>)" for i using assms(2) by (simp add: renderable_def)
  moreover obtain a where "analyze_yaml host (editor st) (inspection_mode st) = Inr a"
    using assms(1) by (auto simp: presents_def)
  moreover have "settles host (st, Returned)" using assms(1) by (simp add: settles_def)
  ultimately show ?thesis by (simp add: move_match_def Let_def)
qed

lemma settles_format_click:
  assumes "presents host st" and "renderable host st"
  shows "settles host (format_click host st)"
proof -
  have tab: "renderable host (st\<lparr>active_tab := t\<rparr>)" for t using assms(2) by (simp add: renderable_def)
  have announced: "renderable host (announce msg t s) = renderable host s" for msg t s
    by (simp add: renderable_def)
  have opened: "renderable host st'" if "open_format_preview before after st = Some st'" for before after st'
    using that assms(2) by (auto simp: open_format_preview_def renderable_def)
  have "settles host (announce msg t st, Returned)" for msg t using assms(1) by (simp add: settles_def)
  then show ?thesis
    using assms(2) tab announced opened
    by (simp add: format_click_def Let_def split: sum.split option.split)
qed

lemma settles_report_click:
  assumes "presents host st" and "renderable host st"
  shows "settles host (report_click host st)"
proof -
  obtain a where a: "analyze_yaml host (editor st) (inspection_mode st) = Inr a"
    using assms(1) by (auto simp: presents_def)
  then obtain r where "current_report host st = Some r"
    using inspection_reported [OF _ a] assms(2) unfolding current_report_def renderable_def by fastforce
  then show ?thesis
    using settles_frame [OF assms(1) quiet_frames(9)] by (simp add: report_click_def)
qed

lemma settles_clear:
  "presents host st \<Longrightarrow> renderable host (fst (clear_editor host consent st)) \<Longrightarrow> settles host (clear_editor host consent st)"
proof -
  assume "presents host st" and after: "renderable host (fst (clear_editor host consent st))"
  define cleared where "cleared = (set_editor [] (reset_tree_search ((invalidate_report_preview st)\<lparr>validation_filter := All_levels\<rparr>)))
    \<lparr>current_filename := lit ''manifest.yaml'', clean_snapshot := []\<rparr>"
  show ?thesis
  proof (cases "editor st \<noteq> clean_snapshot st \<and> \<not> consent")
    case True
    then show ?thesis using \<open>presents host st\<close> by (simp add: clear_editor_def settles_def)
  next
    case False
    then have clear: "clear_editor host consent st = and_then (render_page host) (announce (lit ''Editor cleared'') Success) cleared"
      by (auto simp: clear_editor_def cleared_def)
    then have "renderable host cleared"
      using after by (simp add: and_then_result renderable_def split: if_splits)
    then show ?thesis unfolding clear by (rule settles_then)
  qed
qed

lemma settles_sample:
  assumes "presents host st" and "renderable host (fst (load_sample host consent st))"
  shows "settles host (load_sample host consent st)"
proof (cases "editor st = clean_snapshot st \<or> consent")
  case True
  then have load: "load_sample host consent st =
      load_editor host sample_yaml (lit ''signalforge-sample.yaml'') (lit ''Sample loaded'') st"
    by (simp add: load_sample_def replacement_approved_def)
  have "renderable host (st\<lparr>editor := normalize_eol sample_yaml\<rparr>)"
    using assms(2) by (simp add: load renderable_def)
  then show ?thesis unfolding load by (rule settles_load)
qed (use assms(1) in \<open>simp add: load_sample_def replacement_approved_def settles_def\<close>)

lemma settles_apply:
  assumes "presents host st" and "renderable host (fst (format_apply host st))"
  shows "settles host (format_apply host st)"
proof (cases "format_preview st")
  case (Some p)
  let ?applied = "close_format_preview [] (set_editor (snd p) st)"
  have applied: "format_apply host st = and_then (render_page host) (announce (lit ''YAML formatted'') Success) ?applied"
    by (simp add: format_apply_def Some split: prod.split)
  have "renderable host ?applied"
    using assms(2) by (simp add: applied and_then_result renderable_def split: if_splits)
  then show ?thesis unfolding applied by (rule settles_then)
qed (use assms(1) in \<open>simp add: format_apply_def settles_def\<close>)

lemma settles_mode:
  assumes "renderable host st" and "m = Kubernetes \<or> m = General"
  shows "settles host (select_mode host m st)"
  unfolding select_mode_def
  by (rule settles_then) (use assms in \<open>auto simp: renderable_def reset_tree_search_def\<close>)

lemma receive_editor: "editor (receive_file host k (Some v) st) = normalize_eol v"
  using receive_Some [of host k v st] by auto

text \<open>Every available event, if the text it leaves in the editor is tame.\<close>

lemma event_settles:
  assumes "page_wf host st" and "presents host st" and "renderable host st" and "available st e"
    and "tame_source host (editor (fst (react host e st)))"
  shows "settles host (react host e st)"
proof -
  have after: "renderable host (fst (react host e st))"
    using page_wf_step [OF assms(1,4)] assms(3,5) by (auto simp: renderable_def page_wf_def)
  have written: "renderable host x" if "editor x = editor st" "inspection_mode x = inspection_mode st" for x
    using that assms(3) by (simp add: renderable_def)
  show ?thesis
  proof (cases e)
    case (Input v)
    define x where "x = announce (lit ''Editing YAML'') Neutral (invalidate_report_preview (set_editor v st))"
    have "renderable host x" using after by (simp add: Input react_def x_def renderable_def)
    then show ?thesis by (simp add: Input react_def x_def)
  next
    case (File_read k result)
    have "presents host (receive_file host k result st)"
    proof (rule presents_receive [OF assms(2)])
      show "case result of None \<Rightarrow> True | Some v \<Rightarrow> renderable host (st\<lparr>editor := normalize_eol v\<rparr>)"
        using assms(3,5) by (auto simp: File_read react_def renderable_def receive_editor split: option.split)
    qed
    then show ?thesis by (simp add: File_read react_def settles_def)
  next
    case (Drag_enter b)
    then show ?thesis
      using settles_frame [OF assms(2)] by (simp add: react_def shown_frame_def)
  next
    case (Drag_leave b)
    then show ?thesis
      using settles_frame [OF assms(2)] by (simp add: react_def shown_frame_def Let_def)
  next
    case (Location_click line column)
    then show ?thesis
      using settles_frame [OF assms(2)] by (simp add: react_def shown_frame_def)
  next
    case (Filter_click f)
    then show ?thesis
      using written by (simp add: react_def select_filter_def)
  next
    case (Mode_click m)
    then show ?thesis using settles_mode assms(3,4) by (simp add: react_def available_def)
  qed (use assms(2-4) after written in \<open>simp_all add: react_def settles_search settles_format_click
      settles_report_click settles_clear settles_sample settles_apply reset_tree_search_def
      settles_frame [OF assms(2)] request_frame drop_frame quiet_frames\<close>)
qed

section \<open>Properties\<close>

text \<open>The steps of the page that leave a tame text in the editor.\<close>

definition calm_step :: "host \<Rightarrow> workbench \<Rightarrow> event \<Rightarrow> workbench \<Rightarrow> bool" where
  "calm_step host st e st' \<longleftrightarrow> page_step host st e st' \<and> tame_source host (editor st')"

definition calm_initial :: "host \<Rightarrow> workbench \<Rightarrow> bool" where
  "calm_initial host st \<longleftrightarrow> page_initial host st \<and> tame_source host (editor st)"

interpretation calm: transition_system "calm_initial host" "calm_step host" for host .

lemma calm_invariant:
  assumes "documented_validators host" and "calm.reachable host st"
  shows "page_wf host st \<and> presents host st \<and> renderable host st"
proof (rule calm.reachable_invariant [OF _ _ assms(2)])
  fix s assume "calm_initial host s"
  then have s: "s = fst (render_page host blank_page)" "tame_source host (editor s)" "page_wf host s"
    using page_wf_initial by (auto simp: calm_initial_def page_initial_def)
  then have "renderable host blank_page" using assms(1) by (simp add: renderable_def) (simp add: blank_page_def)
  then show "page_wf host s \<and> presents host s \<and> renderable host s"
    using s render_presents assms(1) by (auto simp: renderable_def page_wf_def)
next
  fix s e t assume s: "page_wf host s \<and> presents host s \<and> renderable host s" and step: "calm_step host s e t"
  then have t: "available s e" "t = fst (react host e s)" "tame_source host (editor t)"
    by (auto simp: calm_step_def page_step_def)
  then have "presents host t" using event_settles s by (auto simp: settles_def)
  moreover have "page_wf host t" using page_wf_step s t by auto
  ultimately show "page_wf host t \<and> presents host t \<and> renderable host t"
    using t(3) assms(1) by (auto simp: renderable_def page_wf_def)
qed

text \<open>C33: the page never goes stale and never breaks on tame texts: in every state reached by events that
  leave tame texts in the editor, the line count, the badge, the captions, the status line and the
  results pane are those of an inspection of the text now in the editor, in the selected mode, under
  the selected tab, filter and search; and the next event that leaves a tame text returns.\<close>

theorem page_shows_its_text:
  assumes "documented_validators host" and "calm.reachable host st"
  shows "presents host st \<and>
    (\<forall>e. available st e \<and> tame_source host (editor (fst (react host e st))) \<longrightarrow> snd (react host e st) = Returned)"
  using calm_invariant [OF assms] event_settles by (auto simp: settles_def)

lemma page_shows_its_text_witness:
  "presents bare_host first_page \<and> snd (react bare_host Report_click first_page) = Returned"
proof -
  have validators: "documented_validators bare_host" by (simp add: documented_validators_def bare_host_def)
  have tame: "tame_source bare_host source" for source
    using bare_tame by (auto simp: tame_source_def)
  have "calm.reachable bare_host first_page"
    unfolding calm.reachable_def using first_page(1) tame by (auto simp: calm_initial_def intro: calm.run.stay)
  moreover have "available first_page Report_click" using first_page(5) by (simp add: available_def)
  ultimately show ?thesis using page_shows_its_text [OF validators] tame by blast
qed

end
