(* ===== verification/Keyboard.thy ===== *)
theory Keyboard
  imports Session
begin

text \<open>
  The keyboard of \<open>main.js\<close>: the two \<open>keydown\<close> listeners, what each key press runs, and how the focus
  moves inside a dialog; then moving through the matches of a search, and the selection in the editor.
\<close>

section \<open>Key presses\<close>





text \<open>The focus trap: \<open>current\<close> is \<open>indexOf\<close> of the focused element, none for -1.\<close>

definition trap_next :: "nat option \<Rightarrow> bool \<Rightarrow> nat \<Rightarrow> nat" where
  "trap_next current backward n =
     (if backward then (case current of None \<Rightarrow> n - 1 | Some i \<Rightarrow> if i = 0 then n - 1 else i - 1)
      else (case current of None \<Rightarrow> 0 | Some i \<Rightarrow> if i = n - 1 then 0 else i + 1))"

text \<open>The focusable elements of the dialogs: the text and three buttons, the rows and two buttons.\<close>

definition report_focusable :: nat where "report_focusable = 4"









section \<open>Laws\<close>





text \<open>Both focus trap and search walk around in a circle.\<close>

lemma trap_forward: "i < n \<Longrightarrow> trap_next (Some i) False n = (i + 1) mod n"
  by (auto simp: trap_next_def)

lemma trap_bounded: "0 < n \<Longrightarrow> (\<And>i. current = Some i \<Longrightarrow> i < n) \<Longrightarrow> trap_next current b n < n"
  by (auto simp: trap_next_def split: option.splits)

lemma trap_inverse: "i < n \<Longrightarrow> trap_next (Some (trap_next (Some i) b n)) (\<not> b) n = i"
  by (auto simp: trap_next_def split: if_splits)

lemma next_forward: "next_index (Some i) True n = (i + 1) mod n"
  by (simp add: next_index_def Let_def) (metis add_Suc mod_add_self2)

lemma next_backward: "i < n \<Longrightarrow> next_index (Some i) False n = (if i = 0 then n - 1 else i - 1)"
  by (auto simp: next_index_def Let_def mod_if)

lemma next_inverse: "i < n \<Longrightarrow> next_index (Some (next_index (Some i) b n)) (\<not> b) n = i"
  by (cases b) (auto simp: next_forward next_backward mod_if mod_Suc)

lemma walk_around:
  assumes "\<And>i. i < n \<Longrightarrow> f i = (i + 1) mod n" and "i < n"
  shows "(f ^^ j) i = (i + j) mod n"
proof (induction j)
  case (Suc j)
  have "(i + j) mod n < n" using assms(2) by (intro mod_less_divisor) simp
  then show ?case using Suc assms(1) by (simp add: mod_Suc_eq)
qed (use assms(2) in simp)

lemma join_lines_from:
  "i < length ls \<Longrightarrow> join [c] ls = concat (map (\<lambda>l. l @ [c]) (take i ls)) @ join [c] (drop i ls)"
proof (induction i arbitrary: ls)
  case (Suc i)
  then obtain l m ms where ls: "ls = l # m # ms"
    by (metis (no_types, lifting) Suc_less_eq length_Cons list.exhaust list.size(3) not_less_zero less_Suc0 less_antisym)
  with Suc show ?case by simp
qed simp

lemma selection_reads:
  assumes "i < length ls"
  defines "start \<equiv> sum_list (map (\<lambda>l. length l + 1) (take i ls))"
  shows "slice (join [c] ls) (start + k) (start + length (ls ! i)) = drop k (ls ! i)"
    and "start + length (ls ! i) \<le> length (join [c] ls)"
proof -
  have start: "start = length (concat (map (\<lambda>l. l @ [c]) (take i ls)))"
    by (simp add: start_def length_concat comp_def)
  obtain r where r: "join [c] (drop i ls) = ls ! i @ r"
    using assms(1) by (cases "drop (Suc i) ls") (simp_all add: Cons_nth_drop_Suc [symmetric])
  have whole: "join [c] ls = concat (map (\<lambda>l. l @ [c]) (take i ls)) @ ls ! i @ r"
    using join_lines_from [OF assms(1), of c] r by simp
  show "slice (join [c] ls) (start + k) (start + length (ls ! i)) = drop k (ls ! i)"
    by (simp add: slice_def whole start)
  show "start + length (ls ! i) \<le> length (join [c] ls)"
    by (simp add: whole start)
qed








section \<open>Properties\<close>



text \<open>Tab inside a dialog and Next in a search go round: from element \<open>i\<close> of \<open>n\<close>, \<open>j\<close> presses reach
  element \<open>(i + j) mod n\<close>, so every element is reached and none outside; the opposite key undoes a step.\<close>

theorem focus_and_search_go_round:
  assumes "i < n"
  shows "((\<lambda>i. trap_next (Some i) False n) ^^ j) i = (i + j) mod n \<and>
    ((\<lambda>i. next_index (Some i) True n) ^^ j) i = (i + j) mod n \<and>
    trap_next (Some (trap_next (Some i) b n)) (\<not> b) n = i \<and>
    next_index (Some (next_index (Some i) b n)) (\<not> b) n = i"
  using walk_around [OF trap_forward assms] walk_around [OF next_forward assms] trap_inverse [OF assms]
    next_inverse [OF assms] by simp

lemma focus_and_search_go_round_witness:
  "((\<lambda>i. trap_next (Some i) False report_focusable) ^^ 3) 2 = 1"
  using focus_and_search_go_round [where i = 2 and n = report_focusable and j = 3 and b = True] by (simp add: report_focusable_def)

text \<open>A click on the place of a finding selects what is there: for every line and column, inside the
  text or not, the selection lies inside the editor's text and covers the rest of that line (of the
  last line, when there are fewer) from that column on.\<close>

theorem location_selects_rest_of_line:
  "let ls = split_on lf source; selected = editor_selection source line column in
    slice source (fst selected) (snd selected) = drop (column - 1) (ls ! min (line - 1) (length ls - 1)) \<and>
    fst selected \<le> snd selected \<and> snd selected \<le> length source"
proof -
  let ?ls = "split_on lf source"
  let ?i = "min (line - 1) (length ?ls - 1)"
  let ?start = "sum_list (map (\<lambda>l. length l + 1) (take ?i ?ls))"
  let ?k = "min (column - 1) (length (?ls ! ?i))"
  have "?ls \<noteq> []" by simp
  then have i: "?i < length ?ls" by (metis diff_less length_greater_0_conv min.strict_coboundedI2 zero_less_one)
  have selected: "editor_selection source line column = (?start + ?k, ?start + length (?ls ! ?i))"
    by (simp add: editor_selection_def Let_def)
  have "slice source (?start + ?k) (?start + length (?ls ! ?i)) = drop ?k (?ls ! ?i)"
    "?start + length (?ls ! ?i) \<le> length source"
    using selection_reads(1) [OF i, of lf ?k] selection_reads(2) [OF i, of lf] by simp_all
  moreover have "drop ?k (?ls ! ?i) = drop (column - 1) (?ls ! ?i)" by (simp add: min_def)
  ultimately show ?thesis by (simp add: selected Let_def)
qed

end
