(* ===== verification/Console.thy ===== *)
theory Console
  imports Systems Prelude
begin

text \<open>
  The ForgeOps Console web client (\<open>src/apps/forgeops-console/web/src\<close>): the requests of \<open>api.ts\<close>, the check
  of \<open>compatibility.ts\<close>, and the component of \<open>App.tsx\<close> as a transition system. An asynchronous function is
  cut at its \<open>await\<close>s: each waits as a request in flight, and the answer to any request may come at any
  time. What the server answers is a parameter of the step.
\<close>

section \<open>Data (\<open>types.ts\<close>)\<close>

record scope =
  scope_context :: jstr
  scope_namespace :: jstr
  scope_generation :: nat

datatype resource_kind = Namespaces | Nodes | Deployments | Replica_sets | Pods | Services | Endpoint_slices

datatype operation = List_operation | Read_operation

record resource_record =
  record_kind :: jstr
  record_name :: jstr
  record_namespace :: "jstr option"
  record_uid :: "jstr option"
  record_fields :: "(jstr \<times> jstr) list"

text \<open>\<open>scope\<close> is read with \<open>?.\<close>, so that it may be missing.\<close>

record resource_result =
  result_resource :: resource_kind
  result_operation :: operation
  result_scope :: "scope option"
  result_items :: "resource_record list"
  result_truncated :: bool

record activity_entry =
  entry_sequence :: nat
  entry_outcome :: jstr
  entry_items :: nat

datatype contribution_type = Dashboard_card | Resource_browser

record contribution =
  contribution_id :: jstr
  contribution_kind :: contribution_type
  contribution_capability :: jstr

record plugin_manifest =
  plugin_id :: jstr
  plugin_version :: jstr
  sdk_compatibility :: jstr
  capabilities :: "jstr list"
  contributions :: "contribution list"

record bundle_identity =
  protocol_version :: jstr
  source_digest :: jstr

record boot_data =
  boot_bundle :: "bundle_identity option"
  synthetic_demo :: bool
  session_nonce :: jstr
  boot_scope :: scope
  boot_contexts :: "jstr list"
  boot_plugins :: "plugin_manifest list"

section \<open>Compatibility (\<open>compatibility.ts\<close>)\<close>

record expected_plugin =
  expected_id :: jstr
  expected_capabilities :: "jstr list"
  expected_contribution :: contribution

definition supported_plugins :: "expected_plugin list" where
  "supported_plugins =
     [\<lparr>expected_id = lit ''forge.example'', expected_capabilities = [lit ''example.status''],
        expected_contribution = \<lparr>contribution_id = lit ''example.card'', contribution_kind = Dashboard_card,
          contribution_capability = lit ''example.status''\<rparr>\<rparr>,
      \<lparr>expected_id = lit ''forge.resources'', expected_capabilities = [lit ''resources.read''],
        expected_contribution = \<lparr>contribution_id = lit ''resources.browser'', contribution_kind = Resource_browser,
          contribution_capability = lit ''resources.read''\<rparr>\<rparr>,
      \<lparr>expected_id = lit ''forge.diagnostics'', expected_capabilities = [lit ''pods.logs.read'', lit ''events.read'', lit ''command.preview''],
        expected_contribution = \<lparr>contribution_id = lit ''diagnostics.pod'', contribution_kind = Resource_browser,
          contribution_capability = lit ''pods.logs.read''\<rparr>\<rparr>]"

definition plugin_matches :: "expected_plugin \<Rightarrow> plugin_manifest \<Rightarrow> bool" where
  "plugin_matches e p \<longleftrightarrow>
     plugin_version p = lit ''0.1.0'' \<and> sdk_compatibility p = lit ''>=0.1.0 <0.2.0'' \<and>
     length (capabilities p) = length (expected_capabilities e) \<and>
     list_all (\<lambda>c. c \<in> set (capabilities p)) (expected_capabilities e) \<and>
     contributions p = [expected_contribution e]"

text \<open>\<open>own\<close> is \<open>__FORGEOPS_BUNDLE__\<close>, the identity the browser bundle was built with.\<close>

definition compatible :: "bundle_identity \<Rightarrow> boot_data \<Rightarrow> bool" where
  "compatible own d \<longleftrightarrow> boot_bundle d = Some own \<and> length (boot_plugins d) = length supported_plugins \<and>
     list_all (\<lambda>e. case filter (\<lambda>p. plugin_id p = expected_id e) (boot_plugins d) of
         [p] \<Rightarrow> plugin_matches e p
       | _ \<Rightarrow> False) supported_plugins"

section \<open>Requests (\<open>api.ts\<close>)\<close>

text \<open>
  What a \<open>fetch\<close> and its body can come to: a rejected fetch, a body that is no JSON, an error status with
  the \<open>error\<close> field of its body if it has one, or the value.
\<close>

datatype 'a response =
    Unreachable jstr
  | Bad_body jstr
  | Refused nat "jstr option"
  | Answered 'a

definition expect_json :: "'a response \<Rightarrow> jstr + 'a" where
  "expect_json r = (case r of
       Unreachable e \<Rightarrow> Inl e
     | Bad_body e \<Rightarrow> Inl e
     | Refused status code \<Rightarrow> Inl ((case code of
           Some c \<Rightarrow> if c = [] then lit ''request_failed'' else c
         | None \<Rightarrow> lit ''request_failed'') @ lit '' ('' @ nat_text status @ lit '')'')
     | Answered a \<Rightarrow> Inr a)"

text \<open>The truth of an optional string: present and not empty.\<close>

definition given :: "jstr option \<Rightarrow> bool" where
  "given s \<longleftrightarrow> (case s of Some t \<Rightarrow> t \<noteq> [] | None \<Rightarrow> False)"

definition query_resources ::
  "resource_kind \<Rightarrow> nat \<Rightarrow> jstr option \<Rightarrow> bool \<Rightarrow> resource_result response \<Rightarrow> jstr + resource_result" where
  "query_resources resource generation name aborted r =
     (case expect_json r of
        Inl e \<Rightarrow> Inl e
      | Inr loaded \<Rightarrow>
          if aborted \<or> map_option scope_generation (result_scope loaded) \<noteq> Some generation then Inl (lit ''stale_scope'')
          else if result_resource loaded \<noteq> resource \<or>
            result_operation loaded \<noteq> (if given name then Read_operation else List_operation) then Inl (lit ''invalid_response'')
          else Inr loaded)"

definition bootstrap :: "bundle_identity \<Rightarrow> boot_data response \<Rightarrow> jstr + boot_data" where
  "bootstrap own r = (case expect_json r of
       Inl e \<Rightarrow> Inl e
     | Inr d \<Rightarrow> if compatible own d then Inr d
         else Inl (lit ''Incompatible Console bundle. Restart with core and browser built from the same source.''))"

section \<open>The component (\<open>App.tsx\<close>)\<close>

text \<open>
  A request in flight, at the \<open>await\<close> where its function continues; the number is the \<open>id\<close> of the operation
  it belongs to. \<open>History_request\<close> is the one of the diagnostics panel, which belongs to none.
\<close>

datatype request =
    Boot_request
  | Context_request nat
  | Discovery_request nat scope
  | Context_activity nat
  | Namespace_request nat
  | Resource_request nat resource_kind "jstr option" "jstr option" scope
  | Resource_activity nat
  | History_request

datatype answer =
    Boot_answer "boot_data response"
  | Scope_answer "scope response"
  | Resource_answer "resource_result response"
  | Activity_answer "activity_entry list response"

fun answers :: "request \<Rightarrow> answer \<Rightarrow> bool" where
  "answers Boot_request (Boot_answer _) = True"
| "answers (Context_request _) (Scope_answer _) = True"
| "answers (Discovery_request _ _) (Resource_answer _) = True"
| "answers (Context_activity _) (Activity_answer _) = True"
| "answers (Namespace_request _) (Scope_answer _) = True"
| "answers (Resource_request _ _ _ _ _) (Resource_answer _) = True"
| "answers (Resource_activity _) (Activity_answer _) = True"
| "answers History_request (Activity_answer _) = True"
| "answers _ _ = False"

fun operation_of :: "request \<Rightarrow> nat option" where
  "operation_of (Context_request i) = Some i"
| "operation_of (Discovery_request i _) = Some i"
| "operation_of (Context_activity i) = Some i"
| "operation_of (Namespace_request i) = Some i"
| "operation_of (Resource_request i _ _ _ _) = Some i"
| "operation_of (Resource_activity i) = Some i"
| "operation_of _ = None"

record console =
  boot :: "boot_data option"
  scope_of :: scope
  context_choice :: jstr
  namespace_choice :: jstr
  known_namespaces :: "jstr list"
  namespaces_incomplete :: bool
  shown_kind :: resource_kind
  shown_result :: "resource_result option"
  shown_record :: "resource_record option"
  session_history :: "activity_entry list"
  busy :: bool
  shown_error :: jstr
  serial :: nat
  pending_operation :: "nat option"
  aborted_operations :: "nat list"
  mounted :: bool
  in_flight :: "request list"

definition no_scope :: scope where
  "no_scope = \<lparr>scope_context = [], scope_namespace = [], scope_generation = 0\<rparr>"

definition first_console :: console where
  "first_console = \<lparr>boot = None, scope_of = no_scope, context_choice = [], namespace_choice = [],
     known_namespaces = [], namespaces_incomplete = False, shown_kind = Pods, shown_result = None,
     shown_record = None, session_history = [], busy = False, shown_error = [], serial = 0,
     pending_operation = None, aborted_operations = [], mounted = True, in_flight = [Boot_request]\<rparr>"

definition abort_pending :: "console \<Rightarrow> console" where
  "abort_pending c = c\<lparr>aborted_operations :=
     (case pending_operation c of Some i \<Rightarrow> i # aborted_operations c | None \<Rightarrow> aborted_operations c)\<rparr>"

text \<open>\<open>begin()\<close>: the new operation is the one \<open>serial\<close> names.\<close>

definition begin_operation :: "console \<Rightarrow> console" where
  "begin_operation c = (abort_pending c)\<lparr>serial := serial c + 1, pending_operation := Some (serial c + 1),
     busy := True, shown_error := [], shown_result := None, shown_record := None\<rparr>"

definition is_current :: "nat \<Rightarrow> console \<Rightarrow> bool" where
  "is_current i c \<longleftrightarrow> i = serial c \<and> i \<notin> set (aborted_operations c)"

definition finish_operation :: "nat \<Rightarrow> console \<Rightarrow> console" where
  "finish_operation i c = (if is_current i c then c\<lparr>busy := False, pending_operation := None\<rparr> else c)"

definition await_next :: "request \<Rightarrow> console \<Rightarrow> console" where
  "await_next q c = c\<lparr>in_flight := in_flight c @ [q]\<rparr>"

text \<open>The \<open>catch\<close> and \<open>finally\<close> of an operation.\<close>

definition fail_operation :: "nat \<Rightarrow> jstr \<Rightarrow> console \<Rightarrow> console" where
  "fail_operation i e c = finish_operation i (if is_current i c then c\<lparr>shown_error := e\<rparr> else c)"

definition fail_resources :: "nat \<Rightarrow> jstr \<Rightarrow> console \<Rightarrow> console" where
  "fail_resources i e c = finish_operation i (if is_current i c then c\<lparr>shown_result := None, shown_error := e\<rparr> else c)"

definition activate_context :: "console \<Rightarrow> console" where
  "activate_context c =
     (if boot c = None \<or> context_choice c = [] then c
      else let b = begin_operation c in
        await_next (Context_request (serial b)) (b\<lparr>namespace_choice := [], known_namespaces := [],
          namespaces_incomplete := False, scope_of := no_scope\<rparr>))"

definition activate_namespace :: "console \<Rightarrow> console" where
  "activate_namespace c =
     (if namespace_choice c = [] then c
      else let b = begin_operation c in await_next (Namespace_request (serial b)) b)"

definition load_resources :: "resource_kind \<Rightarrow> jstr option \<Rightarrow> jstr option \<Rightarrow> console \<Rightarrow> console" where
  "load_resources k name uid c =
     (let b = begin_operation c in
      await_next (Resource_request (serial b) k name uid (scope_of c)) (b\<lparr>shown_kind := k\<rparr>))"

subsection \<open>Answers\<close>

definition after_context :: "nat \<Rightarrow> scope response \<Rightarrow> console \<Rightarrow> console" where
  "after_context i r c = (case expect_json r of
       Inl e \<Rightarrow> fail_operation i e c
     | Inr chosen \<Rightarrow> if \<not> is_current i c then finish_operation i c
         else await_next (Discovery_request i chosen) (c\<lparr>scope_of := chosen\<rparr>))"

definition after_discovery :: "nat \<Rightarrow> scope \<Rightarrow> resource_result response \<Rightarrow> console \<Rightarrow> console" where
  "after_discovery i chosen r c =
     (case query_resources Namespaces (scope_generation chosen) None (i \<in> set (aborted_operations c)) r of
        Inl e \<Rightarrow> fail_operation i e c
      | Inr loaded \<Rightarrow>
          if \<not> is_current i c then finish_operation i c
          else if result_scope loaded \<noteq> Some chosen \<or> result_resource loaded \<noteq> Namespaces
          then fail_operation i (lit ''stale_scope'') c
          else await_next (Context_activity i) (c\<lparr>known_namespaces := map record_name (result_items loaded),
            namespaces_incomplete := result_truncated loaded\<rparr>))"

definition after_activity :: "nat \<Rightarrow> (jstr \<Rightarrow> console \<Rightarrow> console) \<Rightarrow> activity_entry list response \<Rightarrow> console \<Rightarrow> console" where
  "after_activity i fail r c = (case expect_json r of
       Inl e \<Rightarrow> fail e c
     | Inr entries \<Rightarrow> finish_operation i (if is_current i c then c\<lparr>session_history := entries\<rparr> else c))"

definition after_namespace :: "nat \<Rightarrow> scope response \<Rightarrow> console \<Rightarrow> console" where
  "after_namespace i r c = (case expect_json r of
       Inl e \<Rightarrow> fail_operation i e c
     | Inr chosen \<Rightarrow> finish_operation i (if is_current i c then c\<lparr>scope_of := chosen\<rparr> else c))"

definition after_resources ::
  "nat \<Rightarrow> resource_kind \<Rightarrow> jstr option \<Rightarrow> jstr option \<Rightarrow> scope \<Rightarrow> resource_result response \<Rightarrow> console \<Rightarrow> console" where
  "after_resources i k name uid requested r c =
     (case query_resources k (scope_generation requested) name (i \<in> set (aborted_operations c)) r of
        Inl e \<Rightarrow> fail_resources i e c
      | Inr loaded \<Rightarrow>
          if \<not> is_current i c then finish_operation i c
          else if result_scope loaded \<noteq> Some requested \<or> result_resource loaded \<noteq> k
          then fail_resources i (lit ''stale_scope'') c
          else if given name \<and> given uid \<and> map record_uid (result_items loaded) \<noteq> [uid]
          then fail_resources i (lit ''pod_changed: endpoint target UID differs from current Pod; refresh the EndpointSlice.'') c
          else await_next (Resource_activity i) (c\<lparr>shown_result := Some loaded,
            shown_record := (case result_items loaded of
                [x] \<Rightarrow> if given name \<and> Some (record_name x) = name then Some x else shown_record c
              | _ \<Rightarrow> shown_record c)\<rparr>))"

definition after_boot :: "bundle_identity \<Rightarrow> boot_data response \<Rightarrow> console \<Rightarrow> console" where
  "after_boot own r c =
     (if \<not> mounted c then c
      else case bootstrap own r of
        Inl e \<Rightarrow> c\<lparr>shown_error := e\<rparr>
      | Inr d \<Rightarrow> c\<lparr>boot := Some d, scope_of := boot_scope d,
          context_choice := (if scope_context (boot_scope d) \<noteq> [] then scope_context (boot_scope d)
            else (case boot_contexts d of x # _ \<Rightarrow> x | [] \<Rightarrow> []))\<rparr>)"

definition after_history :: "activity_entry list response \<Rightarrow> console \<Rightarrow> console" where
  "after_history r c = (if \<not> mounted c then c else case expect_json r of
       Inl e \<Rightarrow> c\<lparr>shown_error := e\<rparr> | Inr entries \<Rightarrow> c\<lparr>session_history := entries\<rparr>)"

fun continue :: "bundle_identity \<Rightarrow> request \<Rightarrow> answer \<Rightarrow> console \<Rightarrow> console" where
  "continue own Boot_request (Boot_answer r) c = after_boot own r c"
| "continue own (Context_request i) (Scope_answer r) c = after_context i r c"
| "continue own (Discovery_request i s) (Resource_answer r) c = after_discovery i s r c"
| "continue own (Context_activity i) (Activity_answer r) c = after_activity i (fail_operation i) r c"
| "continue own (Namespace_request i) (Scope_answer r) c = after_namespace i r c"
| "continue own (Resource_request i k name uid s) (Resource_answer r) c = after_resources i k name uid s r c"
| "continue own (Resource_activity i) (Activity_answer r) c = after_activity i (fail_resources i) r c"
| "continue own History_request (Activity_answer r) c = after_history r c"
| "continue own _ _ c = c"

section \<open>Events\<close>

datatype console_event =
    Choose_context jstr
  | Choose_namespace jstr
  | Activate_click
  | Set_scope_click
  | Kind_click resource_kind
  | Refresh_click
  | Record_click resource_record
  | Pod_click jstr "jstr option"
  | Diagnostics_done
  | Unmount
  | Answer nat answer

definition respond :: "bundle_identity \<Rightarrow> console_event \<Rightarrow> console \<Rightarrow> console" where
  "respond own e c = (case e of
       Choose_context x \<Rightarrow> c\<lparr>context_choice := x\<rparr>
     | Choose_namespace x \<Rightarrow> c\<lparr>namespace_choice := x\<rparr>
     | Activate_click \<Rightarrow> activate_context c
     | Set_scope_click \<Rightarrow> activate_namespace c
     | Kind_click k \<Rightarrow> load_resources k None None c
     | Refresh_click \<Rightarrow> load_resources (shown_kind c) None None c
     | Record_click x \<Rightarrow> (case shown_result c of
           Some r \<Rightarrow> if \<not> busy c \<and> result_scope r = Some (scope_of c) \<and> result_resource r = shown_kind c
             then c\<lparr>shown_record := Some x\<rparr> else c
         | None \<Rightarrow> c)
     | Pod_click name uid \<Rightarrow> (case shown_result c of
           Some r \<Rightarrow> if \<not> busy c \<and> result_scope r = Some (scope_of c) then load_resources Pods (Some name) uid c else c
         | None \<Rightarrow> c)
     | Diagnostics_done \<Rightarrow> await_next History_request c
     | Unmount \<Rightarrow> (abort_pending c)\<lparr>serial := serial c + 1, mounted := False\<rparr>
     | Answer k a \<Rightarrow> continue own (in_flight c ! k) a
         (c\<lparr>in_flight := take k (in_flight c) @ drop (Suc k) (in_flight c)\<rparr>))"

text \<open>
  What can happen: the controls exist once the boot data is there and are disabled as \<open>disabled\<close> and the
  conditions of the markup say; an answer comes for a request in flight.
\<close>

definition offered :: "console \<Rightarrow> console_event \<Rightarrow> bool" where
  "offered c e = (case e of
       Answer k a \<Rightarrow> k < length (in_flight c) \<and> answers (in_flight c ! k) a
     | Unmount \<Rightarrow> mounted c
     | Choose_context x \<Rightarrow> mounted c \<and> boot c \<noteq> None
     | Choose_namespace x \<Rightarrow> mounted c \<and> boot c \<noteq> None \<and> known_namespaces c \<noteq> [] \<and> (x = [] \<or> x \<in> set (known_namespaces c))
     | Activate_click \<Rightarrow> mounted c \<and> boot c \<noteq> None \<and> \<not> busy c \<and> context_choice c \<noteq> []
     | Set_scope_click \<Rightarrow> mounted c \<and> boot c \<noteq> None \<and> \<not> busy c \<and> namespace_choice c \<noteq> []
     | Kind_click k \<Rightarrow> mounted c \<and> boot c \<noteq> None \<and> \<not> busy c \<and> k \<noteq> Namespaces \<and> scope_context (scope_of c) \<noteq> [] \<and>
         (k \<noteq> Nodes \<longrightarrow> scope_namespace (scope_of c) \<noteq> [])
     | Refresh_click \<Rightarrow> mounted c \<and> boot c \<noteq> None \<and> \<not> busy c \<and> scope_context (scope_of c) \<noteq> [] \<and>
         (shown_kind c \<noteq> Nodes \<longrightarrow> scope_namespace (scope_of c) \<noteq> [])
     | Record_click x \<Rightarrow> mounted c \<and> boot c \<noteq> None \<and> x \<in> set (case shown_result c of Some r \<Rightarrow> result_items r | None \<Rightarrow> [])
     | Pod_click name uid \<Rightarrow> mounted c \<and> boot c \<noteq> None \<and> shown_result c \<noteq> None
     | Diagnostics_done \<Rightarrow> mounted c \<and> boot c \<noteq> None)"

definition console_step :: "bundle_identity \<Rightarrow> console \<Rightarrow> console_event \<Rightarrow> console \<Rightarrow> bool" where
  "console_step own c e c' \<longleftrightarrow> offered c e \<and> c' = respond own e c"

definition console_initial :: "console \<Rightarrow> bool" where
  "console_initial c \<longleftrightarrow> c = first_console"

interpretation console: transition_system console_initial "console_step own" for own .

section \<open>Invariants\<close>

text \<open>The requests of the current operation.\<close>

definition current_requests :: "console \<Rightarrow> request list" where
  "current_requests c = filter (\<lambda>q. operation_of q = Some (serial c)) (in_flight c)"

fun request_fits :: "request \<Rightarrow> console \<Rightarrow> bool" where
  "request_fits (Discovery_request i s) c \<longleftrightarrow> s = scope_of c \<and> shown_result c = None"
| "request_fits (Resource_request i k name uid s) c \<longleftrightarrow> s = scope_of c \<and> k = shown_kind c \<and> shown_result c = None"
| "request_fits (Resource_activity i) c \<longleftrightarrow> True"
| "request_fits _ c \<longleftrightarrow> shown_result c = None"

definition shows_scope :: "console \<Rightarrow> bool" where
  "shows_scope c \<longleftrightarrow> (case shown_result c of None \<Rightarrow> True
     | Some r \<Rightarrow> result_scope r = Some (scope_of c) \<and> result_resource r = shown_kind c)"

definition ids_fit :: "console \<Rightarrow> bool" where
  "ids_fit c \<longleftrightarrow> (\<forall>q \<in> set (in_flight c). \<forall>i. operation_of q = Some i \<longrightarrow> i < serial c \<or> (mounted c \<and> i = serial c))"

definition boot_fits :: "console \<Rightarrow> bool" where
  "boot_fits c \<longleftrightarrow> length (filter (\<lambda>q. q = Boot_request) (in_flight c)) \<le> 1 \<and>
     (Boot_request \<in> set (in_flight c) \<longrightarrow> boot c = None)"

definition operation_fits :: "console \<Rightarrow> bool" where
  "operation_fits c \<longleftrightarrow>
     (\<forall>i \<in> set (aborted_operations c). i < serial c) \<and>
     pending_operation c = (if busy c then Some (serial c) else None) \<and>
     length (current_requests c) = (if busy c then 1 else 0) \<and>
     shows_scope c \<and> list_all (\<lambda>q. request_fits q c) (current_requests c) \<and>
     (boot c = None \<longrightarrow> shown_result c = None \<and> \<not> busy c)"

definition console_wf :: "console \<Rightarrow> bool" where
  "console_wf c \<longleftrightarrow> ids_fit c \<and> boot_fits c \<and> (mounted c \<longrightarrow> operation_fits c)"

definition without_nth :: "nat \<Rightarrow> 'a list \<Rightarrow> 'a list" where
  "without_nth k xs = take k xs @ drop (Suc k) xs"

lemma without_nth_subset: "set (without_nth k xs) \<subseteq> set xs"
  by (auto simp: without_nth_def dest: in_set_takeD in_set_dropD)

lemma filter_without_nth:
  assumes "k < length xs"
  shows "length (filter P xs) = length (filter P (without_nth k xs)) + (if P (xs ! k) then 1 else 0)"
  using arg_cong [OF id_take_nth_drop [OF assms], of "\<lambda>ys. length (filter P ys)"] by (simp add: without_nth_def)

lemma filter_without_other:
  assumes "k < length xs" and "\<not> P (xs ! k)"
  shows "filter P (without_nth k xs) = filter P xs"
  using arg_cong [OF id_take_nth_drop [OF assms(1)], of "filter P"] assms(2) by (simp add: without_nth_def)

text \<open>A new operation starts.\<close>

lemma wf_starts:
  assumes "console_wf c" and "mounted c" and "boot c \<noteq> None" and "\<not> busy c"
    and "mounted d" "serial d = Suc (serial c)" "aborted_operations d = aborted_operations c"
    "pending_operation d = Some (serial d)" "busy d" "shown_result d = None" "boot d = boot c"
    "in_flight d = in_flight c @ [q]" "operation_of q = Some (serial d)" "request_fits q d"
  shows "console_wf d"
proof -
  have old: "i < serial d" if "x \<in> set (in_flight c)" "operation_of x = Some i" for x i
    using assms(1,2,6) that unfolding console_wf_def ids_fit_def by fastforce
  then have "filter (\<lambda>q. operation_of q = Some (serial d)) (in_flight c) = []"
    by (auto simp: filter_empty_conv dest: old)
  then have current: "current_requests d = [q]" using assms(12,13) by (simp add: current_requests_def)
  have "ids_fit d"
    using old assms(5,12,13) unfolding ids_fit_def by auto
  moreover have "q \<noteq> Boot_request" using assms(13) by auto
  then have "boot_fits d"
    using assms(1,3,11,12) by (auto simp: console_wf_def boot_fits_def)
  moreover have "operation_fits d"
    using assms(1-3,6-11,14) current by (auto simp: console_wf_def operation_fits_def shows_scope_def less_Suc_eq)
  ultimately show ?thesis by (simp add: console_wf_def)
qed

text \<open>An operation goes on after an answer: with its next request, or to its end.\<close>

lemma wf_continues:
  assumes "console_wf c" and "mounted c" and "k < length (in_flight c)"
    and "operation_of (in_flight c ! k) = Some (serial c)"
    and "mounted d" "serial d = serial c" "aborted_operations d = aborted_operations c" "boot d = boot c"
    "in_flight d = without_nth k (in_flight c) @ qs" "shows_scope d"
    "pending_operation d = (if busy d then Some (serial d) else None)"
    "qs = [] \<and> \<not> busy d \<or> (\<exists>q. qs = [q] \<and> busy d \<and> operation_of q = Some (serial d) \<and> request_fits q d)"
  shows "console_wf d"
proof -
  have busy: "busy c" "boot c \<noteq> None" and one: "length (current_requests c) = 1"
    using assms(1,2,4) filter_without_nth [OF assms(3), of "\<lambda>q. operation_of q = Some (serial c)"]
    by (auto simp: console_wf_def operation_fits_def current_requests_def split: if_splits)
  then have none: "filter (\<lambda>q. operation_of q = Some (serial c)) (without_nth k (in_flight c)) = []"
    using filter_without_nth [OF assms(3), of "\<lambda>q. operation_of q = Some (serial c)"] assms(4)
    by (simp add: current_requests_def)
  then have current: "current_requests d = qs"
    using assms(6,9,12) by (auto simp: current_requests_def)
  have "in_flight c ! k \<noteq> Boot_request" using assms(4) by auto
  then have boot: "filter (\<lambda>q. q = Boot_request) (without_nth k (in_flight c)) = filter (\<lambda>q. q = Boot_request) (in_flight c)"
    by (rule filter_without_other [OF assms(3)])
  have subset: "x \<in> set (in_flight c)" if "x \<in> set (without_nth k (in_flight c))" for x
    by (rule subsetD [OF without_nth_subset that])
  have ids: "i \<le> serial c" if "x \<in> set (in_flight c)" "operation_of x = Some i" for x i
    using assms(1) that unfolding console_wf_def ids_fit_def by (metis less_or_eq_imp_le)
  have "i \<le> serial d" if x: "x \<in> set (in_flight d)" "operation_of x = Some i" for x i
    using x assms(6,9,12) subset ids by auto
  then have "ids_fit d"
    using assms(5) unfolding ids_fit_def by (simp add: le_less)
  moreover have "boot_fits d"
  proof -
    have none: "Boot_request \<notin> set qs" using assms(12) by auto
    then have "filter (\<lambda>q. q = Boot_request) qs = []" by (auto simp: filter_empty_conv)
    moreover have "boot_fits c" using assms(1) by (simp add: console_wf_def)
    ultimately show ?thesis using assms(8,9) boot subset none by (auto simp: boot_fits_def)
  qed
  moreover have "operation_fits d"
    using assms(1,2,6-8,10-12) busy current by (auto simp: console_wf_def operation_fits_def)
  ultimately show ?thesis by (simp add: console_wf_def)
qed

text \<open>Answers to requests of earlier operations, and of an unmounted component, are too late.\<close>

lemma late_answer:
  assumes "operation_of q = Some i" and "i \<noteq> serial c" and "answers q a"
  shows "continue own q a c = c"
proof -
  have late: "\<not> is_current i c" "finish_operation i c = c" "fail_operation i e c = c" "fail_resources i e c = c" for e
    using assms(2) by (simp_all add: is_current_def finish_operation_def fail_operation_def fail_resources_def)
  show ?thesis
    using assms(1,3) late
    by (cases q; cases a)
      (auto simp: after_context_def after_discovery_def after_activity_def after_namespace_def after_resources_def
        split: sum.splits)
qed

lemma fits_same:
  "scope_of d = scope_of c \<Longrightarrow> shown_kind d = shown_kind c \<Longrightarrow> shown_result d = shown_result c \<Longrightarrow>
    request_fits q d = request_fits q c"
  by (cases q) simp_all

text \<open>Only requests that belong to no operation are added, and none of the fields of the invariant is written.\<close>

lemma wf_same:
  assumes "console_wf c"
    and "boot d = boot c" "mounted d = mounted c" "serial d = serial c" "aborted_operations d = aborted_operations c"
      "pending_operation d = pending_operation c" "busy d = busy c" "shown_result d = shown_result c"
      "shown_kind d = shown_kind c" "scope_of d = scope_of c"
      "in_flight d = in_flight c @ qs" "set qs \<subseteq> {History_request}"
  shows "console_wf d"
proof -
  have none: "filter (\<lambda>q. operation_of q = Some i) qs = []" "filter (\<lambda>q. q = Boot_request) qs = []" for i
    using assms(12) by (auto simp: filter_empty_conv)
  then have current: "current_requests d = current_requests c"
    by (simp add: current_requests_def assms(4,11))
  have "ids_fit d" using assms(1,3,4,11,12) by (auto simp: console_wf_def ids_fit_def)
  moreover have "boot_fits d" using assms(1,2,11,12) none by (auto simp: console_wf_def boot_fits_def)
  moreover have "operation_fits d" if "mounted c"
    using assms that current fits_same [of d c]
    by (simp add: console_wf_def operation_fits_def shows_scope_def list_all_iff cong: option.case_cong)
  ultimately show ?thesis using assms(3) by (simp add: console_wf_def)
qed

lemma wf_late:
  assumes "console_wf c" and "k < length (in_flight c)" and "operation_of (in_flight c ! k) \<noteq> Some (serial c)"
    and "boot d = boot c \<or> Boot_request \<notin> set (without_nth k (in_flight c))" "mounted c \<and> boot d = None \<longrightarrow> boot c = None"
    and "mounted d = mounted c" "serial d = serial c" "aborted_operations d = aborted_operations c"
      "pending_operation d = pending_operation c" "busy d = busy c" "shown_result d = shown_result c"
      "shown_kind d = shown_kind c" "in_flight d = without_nth k (in_flight c)"
    and "scope_of d = scope_of c \<or> shown_result c = None \<and> \<not> busy c"
  shows "console_wf d"
proof -
  have subset: "x \<in> set (in_flight c)" if "x \<in> set (in_flight d)" for x
    using assms(13) subsetD [OF without_nth_subset] that by metis
  have "ids_fit d"
    using assms(1,6,7) subset by (auto simp: console_wf_def ids_fit_def)
  moreover have "length (filter (\<lambda>q. q = Boot_request) (in_flight d)) \<le> 1"
    using assms(1) filter_without_nth [OF assms(2), of "\<lambda>q. q = Boot_request"]
    by (auto simp: console_wf_def boot_fits_def assms(13))
  then have "boot_fits d"
    using assms(1,4,13) subset by (auto simp: console_wf_def boot_fits_def)
  moreover have current: "current_requests d = current_requests c"
    using filter_without_other [of k "in_flight c" "\<lambda>q. operation_of q = Some (serial c)", OF assms(2,3)]
    by (simp add: current_requests_def assms(7,13))
  have "operation_fits d" if mounted: "mounted c"
  proof -
    have c: "operation_fits c" using assms(1) mounted by (simp add: console_wf_def)
    then have "list_all (\<lambda>q. request_fits q d) (current_requests d) \<and> shows_scope d"
    proof (cases "scope_of d = scope_of c")
      case True
      have "request_fits q d = request_fits q c" for q
        using assms(11,12) True by (cases q) simp_all
      then show ?thesis using c current True assms(11,12) by (simp add: operation_fits_def shows_scope_def cong: option.case_cong)
    next
      case False
      then have idle: "shown_result c = None" "\<not> busy c" using assms(14) by auto
      then have "current_requests c = []" using c by (simp add: operation_fits_def)
      then show ?thesis using idle current assms(11) by (simp add: shows_scope_def)
    qed
    then show ?thesis
      using c current assms(5,7-11) mounted by (auto simp: operation_fits_def)
  qed
  ultimately show ?thesis using assms(6) by (simp add: console_wf_def)
qed

text \<open>The two ways an answer to the current operation can go.\<close>

lemma current_serial: "console_wf c \<Longrightarrow> mounted c \<Longrightarrow> is_current (serial c) c"
  by (auto simp: console_wf_def operation_fits_def is_current_def)

lemma wf_ends:
  assumes "console_wf c" and "mounted c" and "k < length (in_flight c)"
    and "operation_of (in_flight c ! k) = Some (serial c)"
    and "mounted x" "serial x = serial c" "aborted_operations x = aborted_operations c" "boot x = boot c"
      "in_flight x = without_nth k (in_flight c)" "shows_scope x"
  shows "console_wf (finish_operation (serial c) x)"
proof (rule wf_continues [OF assms(1-4), where qs = "[]"])
  have "is_current (serial c) x"
    using current_serial [OF assms(1,2)] assms(6,7) by (simp add: is_current_def)
  then have "finish_operation (serial c) x = x\<lparr>busy := False, pending_operation := None\<rparr>"
    by (simp add: finish_operation_def)
  then show "mounted (finish_operation (serial c) x)" "serial (finish_operation (serial c) x) = serial c"
    "aborted_operations (finish_operation (serial c) x) = aborted_operations c" "boot (finish_operation (serial c) x) = boot c"
    "in_flight (finish_operation (serial c) x) = without_nth k (in_flight c) @ []" "shows_scope (finish_operation (serial c) x)"
    "pending_operation (finish_operation (serial c) x) =
      (if busy (finish_operation (serial c) x) then Some (serial (finish_operation (serial c) x)) else None)"
    "[] = [] \<and> \<not> busy (finish_operation (serial c) x) \<or> (\<exists>q. [] = [q] \<and> busy (finish_operation (serial c) x) \<and>
      operation_of q = Some (serial (finish_operation (serial c) x)) \<and> request_fits q (finish_operation (serial c) x))"
    using assms(5-10) by (simp_all add: shows_scope_def cong: option.case_cong)
qed

lemma wf_awaits:
  assumes "console_wf c" and "mounted c" and "k < length (in_flight c)"
    and "operation_of (in_flight c ! k) = Some (serial c)"
    and "mounted x" "serial x = serial c" "aborted_operations x = aborted_operations c" "boot x = boot c"
      "in_flight x = without_nth k (in_flight c)" "shows_scope x" "busy x = busy c" "pending_operation x = pending_operation c"
    and "operation_of q = Some (serial c)" "request_fits q (await_next q x)"
  shows "console_wf (await_next q x)"
proof (rule wf_continues [OF assms(1-4), where qs = "[q]"])
  have "busy c \<and> pending_operation c = Some (serial c)"
    using assms(1-4) filter_without_nth [OF assms(3), of "\<lambda>q. operation_of q = Some (serial c)"]
    by (auto simp: console_wf_def operation_fits_def current_requests_def split: if_splits)
  then show "mounted (await_next q x)" "serial (await_next q x) = serial c"
    "aborted_operations (await_next q x) = aborted_operations c" "boot (await_next q x) = boot c"
    "in_flight (await_next q x) = without_nth k (in_flight c) @ [q]" "shows_scope (await_next q x)"
    "pending_operation (await_next q x) = (if busy (await_next q x) then Some (serial (await_next q x)) else None)"
    "[q] = [] \<and> \<not> busy (await_next q x) \<or> (\<exists>q'. [q] = [q'] \<and> busy (await_next q x) \<and>
      operation_of q' = Some (serial (await_next q x)) \<and> request_fits q' (await_next q x))"
    using assms(5-14) by (simp_all add: await_next_def shows_scope_def cong: option.case_cong)
qed

lemma wf_current_answer:
  assumes "console_wf c" and "mounted c" and "k < length (in_flight c)"
    and op: "operation_of (in_flight c ! k) = Some (serial c)" and "answers (in_flight c ! k) a"
  shows "console_wf (continue own (in_flight c ! k) a (c\<lparr>in_flight := without_nth k (in_flight c)\<rparr>))"
proof -
  let ?c = "c\<lparr>in_flight := without_nth k (in_flight c)\<rparr>"
  let ?i = "serial c"
  note ends = wf_ends [OF assms(1-4)] and awaits = wf_awaits [OF assms(1-4)]
  have current: "is_current ?i ?c" "is_current ?i c"
    using current_serial [OF assms(1,2)] by (simp_all add: is_current_def)
  have shown: "shows_scope c" using assms(1,2) by (simp add: console_wf_def operation_fits_def)
  have "in_flight c ! k \<in> set (current_requests c)"
    using assms(3) op by (simp add: current_requests_def)
  then have fits: "request_fits (in_flight c ! k) c"
    using assms(1,2) by (auto simp: console_wf_def operation_fits_def list_all_iff)
  have fail: "console_wf (fail_operation ?i e ?c)" "console_wf (fail_resources ?i e ?c)" for e
    unfolding fail_operation_def fail_resources_def
    by (rule ends; use assms(2) shown current in \<open>simp add: shows_scope_def cong: option.case_cong\<close>)+
  show ?thesis
  proof (cases "in_flight c ! k")
    case (Context_request i)
    then have i: "i = ?i" using op by simp
    obtain r where a: "a = Scope_answer r" using assms(5) Context_request by (cases a) auto
    show ?thesis
      using fits by (auto simp: Context_request a i after_context_def fail current assms(2) shows_scope_def
          await_next_def [symmetric] split: sum.split intro!: awaits)
        (auto simp: await_next_def)
  next
    case (Discovery_request i s)
    then have i: "i = ?i" using op by simp
    obtain r where a: "a = Resource_answer r" using assms(5) Discovery_request by (cases a) auto
    show ?thesis
      using fits by (auto simp: Discovery_request a i after_discovery_def fail current assms(2) shows_scope_def
          split: sum.split intro!: awaits)
        (auto simp: await_next_def)
  next
    case (Context_activity i)
    then have i: "i = ?i" using op by simp
    obtain r where a: "a = Activity_answer r" using assms(5) Context_activity by (cases a) auto
    show ?thesis
      using fits by (auto simp: Context_activity a i after_activity_def fail current assms(2) shows_scope_def
          split: sum.split intro!: ends)
  next
    case (Namespace_request i)
    then have i: "i = ?i" using op by simp
    obtain r where a: "a = Scope_answer r" using assms(5) Namespace_request by (cases a) auto
    show ?thesis
      using fits by (auto simp: Namespace_request a i after_namespace_def fail current assms(2) shows_scope_def
          split: sum.split intro!: ends)
  next
    case (Resource_request i kd name uid s)
    then have i: "i = ?i" using op by simp
    obtain r where a: "a = Resource_answer r" using assms(5) Resource_request by (cases a) auto
    show ?thesis
      using fits by (auto simp: Resource_request a i after_resources_def fail current assms(2) shows_scope_def
          split: sum.split intro!: awaits)
  next
    case (Resource_activity i)
    then have i: "i = ?i" using op by simp
    obtain r where a: "a = Activity_answer r" using assms(5) Resource_activity by (cases a) auto
    show ?thesis
      using shown by (auto simp: Resource_activity a i after_activity_def fail current assms(2) shows_scope_def
          split: sum.split option.splits intro!: ends)
  qed (use op in simp_all)
qed

lemma wf_loads:
  assumes "console_wf c" and "mounted c" and "boot c \<noteq> None" and "\<not> busy c"
  shows "console_wf (load_resources k name uid c)"
proof -
  have "pending_operation c = None" using assms by (simp add: console_wf_def operation_fits_def)
  then show ?thesis
    by (intro wf_starts [OF assms, where q = "Resource_request (Suc (serial c)) k name uid (scope_of c)"])
      (simp_all add: assms(2) load_resources_def begin_operation_def abort_pending_def await_next_def Let_def)
qed

lemma first_console_wf: "console_wf first_console"
  by (simp add: console_wf_def ids_fit_def boot_fits_def operation_fits_def first_console_def current_requests_def shows_scope_def)

lemma wf_step:
  assumes "console_wf c" and "offered c e"
  shows "console_wf (respond own e c)"
proof (cases e)
  case (Answer k a)
  then have k: "k < length (in_flight c)" "answers (in_flight c ! k) a"
    using assms(2) by (auto simp: offered_def)
  let ?c = "c\<lparr>in_flight := without_nth k (in_flight c)\<rparr>"
  have respond: "respond own e c = continue own (in_flight c ! k) a ?c"
    by (simp add: Answer respond_def without_nth_def)
  consider (current) "operation_of (in_flight c ! k) = Some (serial c)" "mounted c"
    | (late) i where "operation_of (in_flight c ! k) = Some i" "i \<noteq> serial c"
    | (none) "operation_of (in_flight c ! k) = None"
  proof (cases "operation_of (in_flight c ! k)")
    case (Some i)
    have "i < serial c \<or> mounted c \<and> i = serial c"
      using assms(1) Some nth_mem [OF k(1)] unfolding console_wf_def ids_fit_def by blast
    then show ?thesis using Some that by blast
  qed (use that in blast)
  then show ?thesis
  proof cases
    case current
    then show ?thesis using wf_current_answer [OF assms(1) current(2) k(1) current(1) k(2)] respond by simp
  next
    case late
    then have "respond own e c = ?c"
      using late_answer [of "in_flight c ! k" i ?c a own] k(2) respond by simp
    then show ?thesis using wf_late [OF assms(1) k(1), of ?c] late by simp
  next
    case none
    have boot: "Boot_request \<notin> set (without_nth k (in_flight c)) \<and> boot c = None" if "in_flight c ! k = Boot_request"
    proof -
      have "length (filter (\<lambda>q. q = Boot_request) (without_nth k (in_flight c))) = 0"
        using filter_without_nth [OF k(1), of "\<lambda>q. q = Boot_request"] assms(1) that
        by (auto simp: console_wf_def boot_fits_def)
      moreover have "boot c = None"
        using assms(1) that nth_mem [OF k(1)] by (auto simp: console_wf_def boot_fits_def)
      ultimately show ?thesis by (auto simp: filter_empty_conv)
    qed
    have idle: "boot c = None \<Longrightarrow> mounted c \<Longrightarrow> shown_result c = None \<and> \<not> busy c"
      using assms(1) by (simp add: console_wf_def operation_fits_def)
    show ?thesis
      unfolding respond
    proof (rule wf_late [OF assms(1) k(1)])
      show "operation_of (in_flight c ! k) \<noteq> Some (serial c)" using none by simp
    qed (use none k(2) boot idle in \<open>cases "in_flight c ! k"; cases a;
        auto simp: after_boot_def after_history_def split: sum.splits\<close>)+
  qed
next
  case (Choose_context x)
  show ?thesis by (rule wf_same [OF assms(1), where qs = "[]"]) (simp_all add: Choose_context respond_def)
next
  case (Choose_namespace x)
  show ?thesis by (rule wf_same [OF assms(1), where qs = "[]"]) (simp_all add: Choose_namespace respond_def)
next
  case (Record_click x)
  show ?thesis
    by (rule wf_same [OF assms(1), where qs = "[]"]) (simp_all add: Record_click respond_def split: option.split)
next
  case Diagnostics_done
  show ?thesis
    by (rule wf_same [OF assms(1), where qs = "[History_request]"]) (simp_all add: Diagnostics_done respond_def await_next_def)
next
  case Unmount
  have "i < Suc (serial c)" if "q \<in> set (in_flight c)" "operation_of q = Some i" for q i
    using assms(1) that unfolding console_wf_def ids_fit_def by (metis less_Suc_eq)
  then have "ids_fit (respond own e c)" by (auto simp: Unmount respond_def abort_pending_def ids_fit_def)
  moreover have "boot_fits (respond own e c)" "\<not> mounted (respond own e c)"
    using assms(1) by (auto simp: Unmount respond_def abort_pending_def console_wf_def boot_fits_def)
  ultimately show ?thesis by (simp add: console_wf_def)
next
  case Activate_click
  then have "mounted c" "boot c \<noteq> None" "\<not> busy c" "context_choice c \<noteq> []" "pending_operation c = None"
    using assms by (auto simp: offered_def console_wf_def operation_fits_def)
  then show ?thesis
    by (intro wf_starts [OF assms(1), where q = "Context_request (Suc (serial c))"])
      (simp_all add: Activate_click respond_def activate_context_def begin_operation_def abort_pending_def await_next_def Let_def del: not_None_eq)
next
  case Set_scope_click
  then have "mounted c" "boot c \<noteq> None" "\<not> busy c" "namespace_choice c \<noteq> []" "pending_operation c = None"
    using assms by (auto simp: offered_def console_wf_def operation_fits_def)
  then show ?thesis
    by (intro wf_starts [OF assms(1), where q = "Namespace_request (Suc (serial c))"])
      (simp_all add: Set_scope_click respond_def activate_namespace_def begin_operation_def abort_pending_def await_next_def Let_def del: not_None_eq)
next
  case (Kind_click k)
  then show ?thesis
    using assms wf_loads [OF assms(1)] by (simp add: respond_def offered_def)
next
  case Refresh_click
  then show ?thesis
    using assms wf_loads [OF assms(1)] by (simp add: respond_def offered_def)
next
  case (Pod_click name uid)
  then show ?thesis
    using assms wf_loads [OF assms(1)] by (auto simp: respond_def offered_def split: option.split)
qed

lemma reachable_wf: "console.reachable own c \<Longrightarrow> console_wf c"
  by (rule console.reachable_invariant [where I = console_wf])
    (auto simp: console_initial_def first_console_wf console_step_def wf_step)

text \<open>
  The history of the session is fetched after a result has been shown, inside the same \<open>try\<close>: if that
  request fails, the result is taken away again, and the selected record stays.
\<close>

lemma failed_history_keeps_selection:
  assumes "is_current i c" and "expect_json r = Inl e"
  shows "shown_result (continue own (Resource_activity i) (Activity_answer r) c) = None \<and>
    shown_record (continue own (Resource_activity i) (Activity_answer r) c) = shown_record c"
  using assms by (auto simp: after_activity_def fail_resources_def finish_operation_def is_current_def)

section \<open>Properties\<close>

text \<open>C35: what the console shows belongs to the scope it shows: in every state, however answers arrive, fail
  or are late, a displayed result is of the displayed kind and was read in exactly the context, namespace
  and generation of the banner; and the console is busy exactly while one request of its latest operation
  is in flight, so that the answer to it ends or continues that operation.\<close>

theorem console_shows_its_scope:
  assumes "console.reachable own c" and "mounted c"
  shows "(\<forall>r. shown_result c = Some r \<longrightarrow> result_scope r = Some (scope_of c) \<and> result_resource r = shown_kind c) \<and>
    length (current_requests c) = (if busy c then 1 else 0)"
  using reachable_wf [OF assms(1)] assms(2)
  by (auto simp: console_wf_def operation_fits_def shows_scope_def)

text \<open>C36: an answer that comes too late changes nothing: an answer to a request of any but the latest
  operation, and after unmounting any answer to an operation, only leaves the list of requests.\<close>

theorem late_answers_change_nothing:
  assumes "console.reachable own c" and "offered c (Answer k a)"
    and "operation_of (in_flight c ! k) = Some i" and "i \<noteq> serial c \<or> \<not> mounted c"
  shows "respond own (Answer k a) c = c\<lparr>in_flight := without_nth k (in_flight c)\<rparr>"
proof -
  have k: "k < length (in_flight c)" "answers (in_flight c ! k) a"
    using assms(2) by (simp_all add: offered_def)
  have "i < serial c \<or> mounted c \<and> i = serial c"
    using reachable_wf [OF assms(1)] assms(3) nth_mem [OF k(1)] unfolding console_wf_def ids_fit_def by blast
  then have "i \<noteq> serial c" using assms(4) by auto
  then show ?thesis
    using late_answer [of "in_flight c ! k" i "c\<lparr>in_flight := without_nth k (in_flight c)\<rparr>" a own] assms(3) k(2)
    by (simp add: respond_def without_nth_def)
qed

text \<open>A visit to a cluster with one context and one namespace, up to a list of Pods.\<close>

definition demo_own :: bundle_identity where
  "demo_own = \<lparr>protocol_version = lit ''1'', source_digest = lit ''abc''\<rparr>"

definition demo_boot :: boot_data where
  "demo_boot = \<lparr>boot_bundle = Some demo_own, synthetic_demo = True, session_nonce = lit ''n'', boot_scope = no_scope,
     boot_contexts = [lit ''dev''],
     boot_plugins = map (\<lambda>e. \<lparr>plugin_id = expected_id e, plugin_version = lit ''0.1.0'',
       sdk_compatibility = lit ''>=0.1.0 <0.2.0'', capabilities = expected_capabilities e,
       contributions = [expected_contribution e]\<rparr>) supported_plugins\<rparr>"

definition demo_scope :: "jstr \<Rightarrow> nat \<Rightarrow> scope" where
  "demo_scope namespace generation = \<lparr>scope_context = lit ''dev'', scope_namespace = namespace, scope_generation = generation\<rparr>"

definition demo_list :: "resource_kind \<Rightarrow> scope \<Rightarrow> jstr \<Rightarrow> resource_result" where
  "demo_list k s name = \<lparr>result_resource = k, result_operation = List_operation, result_scope = Some s,
     result_items = [\<lparr>record_kind = lit ''x'', record_name = name, record_namespace = None, record_uid = None,
       record_fields = []\<rparr>], result_truncated = False\<rparr>"

definition demo_visit :: "console_event list" where
  "demo_visit =
     [Answer 0 (Boot_answer (Answered demo_boot)), Activate_click,
      Answer 0 (Scope_answer (Answered (demo_scope [] 1))),
      Answer 0 (Resource_answer (Answered (demo_list Namespaces (demo_scope [] 1) (lit ''team'')))),
      Answer 0 (Activity_answer (Answered [])), Choose_namespace (lit ''team''), Set_scope_click,
      Answer 0 (Scope_answer (Answered (demo_scope (lit ''team'') 2))), Kind_click Pods,
      Answer 0 (Resource_answer (Answered (demo_list Pods (demo_scope (lit ''team'') 2) (lit ''api''))))]"

lemma demo_visit_ok: "visit_ok offered (respond demo_own) first_console demo_visit"
  by code_simp

lemma visited:
  "visit_ok offered (respond own) first_console es \<Longrightarrow> console.reachable own (fold (respond own) es first_console)"
  by (rule console.reachable_visit) (simp_all add: console_step_def console_initial_def)

lemma console_shows_its_scope_witness:
  "\<exists>r. shown_result (fold (respond demo_own) demo_visit first_console) = Some r \<and>
     result_scope r = Some (scope_of (fold (respond demo_own) demo_visit first_console))"
proof -
  let ?c = "fold (respond demo_own) demo_visit first_console"
  have "mounted ?c" "shown_result ?c \<noteq> None" by code_simp+
  then show ?thesis using console_shows_its_scope [OF visited [OF demo_visit_ok]] by auto
qed

text \<open>The page is left while the context is being activated.\<close>

definition left_visit :: "console_event list" where
  "left_visit = [Answer 0 (Boot_answer (Answered demo_boot)), Activate_click, Unmount]"

lemma late_answers_change_nothing_witness:
  "scope_of (respond demo_own (Answer 0 (Scope_answer (Answered (demo_scope [] 1))))
     (fold (respond demo_own) left_visit first_console)) = no_scope"
proof -
  let ?c = "fold (respond demo_own) left_visit first_console"
  let ?a = "Scope_answer (Answered (demo_scope [] 1))"
  have ok: "visit_ok offered (respond demo_own) first_console left_visit" by code_simp
  have offered: "offered ?c (Answer 0 ?a)" by code_simp
  have op: "operation_of (in_flight ?c ! 0) = Some 1" "1 \<noteq> serial ?c \<or> \<not> mounted ?c" by code_simp+
  have "scope_of ?c = no_scope" by code_simp
  then show ?thesis
    using late_answers_change_nothing [OF visited [OF ok] offered op] by simp
qed

end
