(* ===== verification/Diagnostics.thy ===== *)
theory Diagnostics
  imports Console
begin

text \<open>
  The panel of \<open>plugins/diagnostics.tsx\<close>: logs, events and command previews of one Pod. The scope and the
  Pod are those of one mounted instance; the key under which \<open>App.tsx\<close> mounts it changes with them.
\<close>

section \<open>Queries\<close>

datatype diagnostic_operation = Logs | Events | Preview

datatype diagnostic_target = Target_logs | Target_events

record diagnostic_query =
  query_generation :: nat
  query_operation :: diagnostic_operation
  query_pod :: jstr
  query_uid :: "jstr option"
  query_container :: "(jstr \<times> bool) option"
  query_target :: "diagnostic_target option"

record pod_event =
  event_name :: jstr
  event_type :: jstr
  event_reason :: jstr
  event_message :: jstr
  event_count :: nat

record command_preview =
  powershell_command :: jstr
  posix_command :: jstr
  preview_note :: jstr

text \<open>The operation of an answer is the server's word for what it did.\<close>

record diagnostic_result =
  diagnostic_scope :: scope
  answered_operation :: jstr
  diagnostic_text :: jstr
  diagnostic_events :: "pod_event list"
  diagnostic_truncated :: bool
  diagnostic_warning :: jstr
  diagnostic_preview :: "command_preview option"

text \<open>\<open>queryDiagnostics\<close> of \<open>api.ts\<close>.\<close>

definition query_diagnostics ::
  "diagnostic_query \<Rightarrow> bool \<Rightarrow> diagnostic_result response \<Rightarrow> jstr + diagnostic_result" where
  "query_diagnostics q aborted r = (case expect_json r of
       Inl e \<Rightarrow> Inl e
     | Inr loaded \<Rightarrow> if aborted \<or> scope_generation (diagnostic_scope loaded) \<noteq> query_generation q
         then Inl (lit ''stale_scope'') else Inr loaded)"

section \<open>The panel\<close>

record panel_props =
  panel_scope :: scope
  panel_pod :: resource_record

text \<open>
  \<open>panel_source\<close> is a ghost: the query whose answer \<open>panel_result\<close> is. The code does not keep it, and
  nothing that is drawn depends on it.
\<close>

record panel =
  panel_container :: jstr
  panel_previous :: bool
  acknowledged :: bool
  panel_result :: "diagnostic_result option"
  panel_source :: "diagnostic_query option"
  panel_error :: jstr
  panel_busy :: bool
  panel_serial :: nat
  panel_pending :: "nat option"
  panel_aborted :: "nat list"
  panel_requests :: "(nat \<times> diagnostic_query) list"
  completions :: nat
  panel_live :: bool

definition first_panel :: panel where
  "first_panel = \<lparr>panel_container = [], panel_previous = False, acknowledged = False, panel_result = None,
     panel_source = None, panel_error = [], panel_busy = False, panel_serial = 0, panel_pending = None,
     panel_aborted = [], panel_requests = [], completions = 0,
     panel_live = True\<rparr>"

text \<open>\<open>split(", ").filter(Boolean)\<close> of the field named Containers.\<close>

fun split_comma :: "jstr \<Rightarrow> jstr list" where
  "split_comma [] = [[]]"
| "split_comma [u] = [[u]]"
| "split_comma (u # v # us) =
     (if [u, v] = lit '', '' then [] # split_comma us
      else (case split_comma (v # us) of w # ws \<Rightarrow> (u # w) # ws | [] \<Rightarrow> [[u]]))"

definition panel_containers :: "resource_record \<Rightarrow> jstr list" where
  "panel_containers pod = (case find (\<lambda>f. fst f = lit ''Containers'') (record_fields pod) of
       Some f \<Rightarrow> filter (\<lambda>s. s \<noteq> []) (split_comma (snd f))
     | None \<Rightarrow> [])"

definition abort_panel :: "panel \<Rightarrow> panel" where
  "abort_panel p = p\<lparr>panel_serial := panel_serial p + 1,
     panel_aborted := (case panel_pending p of Some i \<Rightarrow> i # panel_aborted p | None \<Rightarrow> panel_aborted p)\<rparr>"

definition cancel_panel :: "panel \<Rightarrow> panel" where
  "cancel_panel p = (abort_panel p)\<lparr>panel_pending := None, panel_busy := False, panel_result := None,
     panel_source := None, panel_error := []\<rparr>"

definition panel_query :: "panel_props \<Rightarrow> panel \<Rightarrow> diagnostic_operation \<Rightarrow> diagnostic_target option \<Rightarrow> diagnostic_query" where
  "panel_query props p op target =
     \<lparr>query_generation = scope_generation (panel_scope props), query_operation = op,
      query_pod = record_name (panel_pod props),
      query_uid = (if given (record_uid (panel_pod props)) then record_uid (panel_pod props) else None),
      query_container = (if op = Logs \<or> target = Some Target_logs then Some (panel_container p, panel_previous p) else None),
      query_target = target\<rparr>"

definition run_panel :: "panel_props \<Rightarrow> diagnostic_operation \<Rightarrow> diagnostic_target option \<Rightarrow> panel \<Rightarrow> panel" where
  "run_panel props op target given_panel =
     (let p = cancel_panel given_panel in
      p\<lparr>panel_pending := Some (panel_serial p), panel_busy := True,
        panel_requests := panel_requests p @ [(panel_serial p, panel_query props given_panel op target)]\<rparr>)"

definition panel_current :: "nat \<Rightarrow> panel \<Rightarrow> bool" where
  "panel_current i p \<longleftrightarrow> i = panel_serial p \<and> i \<notin> set (panel_aborted p)"

definition finish_panel :: "nat \<Rightarrow> panel \<Rightarrow> panel" where
  "finish_panel i p = (if i = panel_serial p
     then p\<lparr>panel_busy := False, panel_pending := None, completions := completions p + 1\<rparr> else p)"

definition answer_panel :: "panel_props \<Rightarrow> nat \<Rightarrow> diagnostic_query \<Rightarrow> diagnostic_result response \<Rightarrow> panel \<Rightarrow> panel" where
  "answer_panel props i q r p = finish_panel i
     (case query_diagnostics q (i \<in> set (panel_aborted p)) r of
        Inl e \<Rightarrow> if panel_current i p then p\<lparr>panel_error := e\<rparr> else p
      | Inr loaded \<Rightarrow> if panel_current i p \<and> diagnostic_scope loaded = panel_scope props
          then p\<lparr>panel_result := Some loaded, panel_source := Some q\<rparr> else p)"

datatype panel_event =
    Acknowledge bool
  | Choose_container jstr
  | Choose_previous bool
  | Read_logs
  | Read_events
  | Preview_logs
  | Preview_events
  | Cancel_click
  | Panel_unmount
  | Panel_answer nat "diagnostic_result response"

definition panel_respond :: "panel_props \<Rightarrow> panel_event \<Rightarrow> panel \<Rightarrow> panel" where
  "panel_respond props e p = (case e of
       Acknowledge b \<Rightarrow> (cancel_panel p)\<lparr>acknowledged := b\<rparr>
     | Choose_container x \<Rightarrow> (cancel_panel p)\<lparr>panel_container := x\<rparr>
     | Choose_previous b \<Rightarrow> (cancel_panel p)\<lparr>panel_previous := b\<rparr>
     | Read_logs \<Rightarrow> run_panel props Logs None p
     | Read_events \<Rightarrow> run_panel props Events None p
     | Preview_logs \<Rightarrow> run_panel props Preview (Some Target_logs) p
     | Preview_events \<Rightarrow> run_panel props Preview (Some Target_events) p
     | Cancel_click \<Rightarrow> cancel_panel p
     | Panel_unmount \<Rightarrow> (abort_panel p)\<lparr>panel_live := False\<rparr>
     | Panel_answer k r \<Rightarrow> answer_panel props (fst (panel_requests p ! k)) (snd (panel_requests p ! k)) r
         (p\<lparr>panel_requests := without_nth k (panel_requests p)\<rparr>))"

definition panel_offers :: "panel_props \<Rightarrow> panel \<Rightarrow> panel_event \<Rightarrow> bool" where
  "panel_offers props p e = (case e of
       Choose_container x \<Rightarrow> panel_live p \<and> (x = [] \<or> x \<in> set (panel_containers (panel_pod props)))
     | Read_logs \<Rightarrow> panel_live p \<and> \<not> panel_busy p \<and> acknowledged p \<and> panel_container p \<noteq> []
     | Read_events \<Rightarrow> panel_live p \<and> \<not> panel_busy p \<and> acknowledged p
     | Preview_logs \<Rightarrow> panel_live p \<and> \<not> panel_busy p \<and> panel_container p \<noteq> []
     | Preview_events \<Rightarrow> panel_live p \<and> \<not> panel_busy p
     | Panel_answer k r \<Rightarrow> k < length (panel_requests p)
     | _ \<Rightarrow> panel_live p)"

definition panel_step :: "panel_props \<Rightarrow> panel \<Rightarrow> panel_event \<Rightarrow> panel \<Rightarrow> bool" where
  "panel_step props p e p' \<longleftrightarrow> panel_offers props p e \<and> p' = panel_respond props e p"

definition panel_initial :: "panel \<Rightarrow> bool" where
  "panel_initial p \<longleftrightarrow> p = first_panel"

text \<open>What is drawn of a result: its own operation and its preview decide, not the query.\<close>

datatype drawn =
    Limit_note
  | Log_text jstr
  | Event_list "(jstr \<times> jstr) list"
  | No_events
  | Explanation command_preview

definition event_row :: "pod_event \<Rightarrow> jstr \<times> jstr" where
  "event_row e = (event_type e @ [32, 0xB7, 32] @ event_reason e @ [32, 0xB7, 32] @ lit ''count '' @ nat_text (event_count e),
     event_message e)"

definition draw_result :: "diagnostic_result \<Rightarrow> drawn list" where
  "draw_result r =
     (if diagnostic_truncated r then [Limit_note] else []) @
     (if answered_operation r = lit ''logs''
      then [Log_text (if diagnostic_text r \<noteq> [] then diagnostic_text r else lit ''No log text returned.'')] else []) @
     (if answered_operation r = lit ''events''
      then [if diagnostic_events r \<noteq> [] then Event_list (map event_row (diagnostic_events r)) else No_events] else []) @
     (case diagnostic_preview r of Some e \<Rightarrow> [Explanation e] | None \<Rightarrow> [])"

definition panel_drawn :: "panel \<Rightarrow> drawn list" where
  "panel_drawn p = (case panel_result p of Some r \<Rightarrow> draw_result r | None \<Rightarrow> [])"

interpretation panel: transition_system panel_initial "panel_step props" for props .

section \<open>Invariant\<close>

text \<open>A query fits a panel: it is what the panel would ask now, and it was allowed.\<close>

definition panel_fits :: "panel_props \<Rightarrow> diagnostic_query \<Rightarrow> panel \<Rightarrow> bool" where
  "panel_fits props q p \<longleftrightarrow> q = panel_query props p (query_operation q) (query_target q) \<and>
     (query_operation q \<noteq> Preview \<longrightarrow> acknowledged p) \<and> (query_container q \<noteq> None \<longrightarrow> panel_container p \<noteq> [])"

definition current_queries :: "panel \<Rightarrow> diagnostic_query list" where
  "current_queries p = map snd (filter (\<lambda>r. fst r = panel_serial p) (panel_requests p))"

definition panel_shows :: "panel_props \<Rightarrow> panel \<Rightarrow> bool" where
  "panel_shows props p \<longleftrightarrow> (case panel_result p of None \<Rightarrow> True
     | Some r \<Rightarrow> diagnostic_scope r = panel_scope props \<and>
         (case panel_source p of None \<Rightarrow> False | Some q \<Rightarrow> panel_fits props q p))"

definition panel_wf :: "panel_props \<Rightarrow> panel \<Rightarrow> bool" where
  "panel_wf props p \<longleftrightarrow>
     (\<forall>r \<in> set (panel_requests p). fst r < panel_serial p \<or> panel_live p \<and> fst r = panel_serial p) \<and>
     (panel_live p \<longrightarrow>
       (\<forall>i \<in> set (panel_aborted p). i < panel_serial p) \<and>
       panel_pending p = (if panel_busy p then Some (panel_serial p) else None) \<and>
       length (current_queries p) = (if panel_busy p then 1 else 0) \<and>
       list_all (\<lambda>q. panel_fits props q p) (current_queries p) \<and> panel_shows props p)"

lemma cancelled_wf:
  assumes "panel_wf props p" and "panel_live p"
    and "panel_live d" "panel_serial d = panel_serial p + 1" "panel_aborted d = panel_aborted (cancel_panel p)"
      "panel_pending d = None" "\<not> panel_busy d" "panel_requests d = panel_requests p" "panel_result d = None"
  shows "panel_wf props d"
proof -
  have old: "fst r < panel_serial d" if "r \<in> set (panel_requests p)" for r
    using assms(1,4) that unfolding panel_wf_def by fastforce
  then have "current_queries d = []"
    using assms(8) by (auto simp: current_queries_def filter_empty_conv dest!: old)
  moreover have "i < panel_serial d" if "i \<in> set (panel_aborted d)" for i
    using that assms(1,2,4,5) by (auto simp: panel_wf_def cancel_panel_def abort_panel_def less_Suc_eq split: if_splits option.splits)
  ultimately show ?thesis
    using old assms(3,6-9) by (auto simp: panel_wf_def panel_shows_def)
qed

lemma run_wf:
  assumes "panel_wf props p" and "panel_live p" and "panel_fits props (panel_query props p op target) p"
  shows "panel_wf props (run_panel props op target p)"
proof -
  let ?q = "panel_query props p op target"
  have cancelled: "panel_wf props (cancel_panel p)"
    by (rule cancelled_wf [OF assms(1,2)]) (simp_all add: cancel_panel_def abort_panel_def assms(2))
  let ?d = "run_panel props op target p"
  have fits: "panel_fits props ?q ?d"
    using assms(3) by (simp add: panel_fits_def panel_query_def run_panel_def cancel_panel_def abort_panel_def Let_def)
  have live: "panel_live (cancel_panel p)" using assms(2) by (simp add: cancel_panel_def abort_panel_def)
  have "current_queries (cancel_panel p) = []"
    using cancelled live by (simp add: panel_wf_def) (simp add: cancel_panel_def)
  then have "current_queries ?d = [?q]"
    by (auto simp: current_queries_def run_panel_def Let_def)
  then show ?thesis
    using cancelled live fits
    by (auto simp: panel_wf_def run_panel_def panel_shows_def Let_def) (simp_all add: cancel_panel_def)
qed

lemma fits_cong:
  "panel_container d = panel_container p \<Longrightarrow> panel_previous d = panel_previous p \<Longrightarrow> acknowledged d = acknowledged p \<Longrightarrow>
    panel_fits props q d = panel_fits props q p"
  by (simp add: panel_fits_def panel_query_def)

lemma shows_cong:
  assumes "panel_container d = panel_container p" "panel_previous d = panel_previous p" "acknowledged d = acknowledged p"
    "panel_result d = panel_result p" "panel_source d = panel_source p"
  shows "panel_shows props d = panel_shows props p"
  using fits_cong [OF assms(1-3)] assms(4,5) by (simp add: panel_shows_def cong: option.case_cong)

lemma answer_wf:
  assumes "panel_wf props p" and "k < length (panel_requests p)"
  shows "panel_wf props (panel_respond props (Panel_answer k r) p)"
proof -
  obtain i q where at: "panel_requests p ! k = (i, q)" by fastforce
  define c where "c = p\<lparr>panel_requests := without_nth k (panel_requests p)\<rparr>"
  let ?d = "answer_panel props i q r c"
  have respond: "panel_respond props (Panel_answer k r) p = ?d"
    by (simp add: panel_respond_def at c_def)
  have subset: "x \<in> set (panel_requests p)" if "x \<in> set (without_nth k (panel_requests p))" for x
    by (rule subsetD [OF without_nth_subset that])
  have place: "i < panel_serial p \<or> panel_live p \<and> i = panel_serial p"
    using assms(1) nth_mem [OF assms(2)] at unfolding panel_wf_def by fastforce
  show ?thesis
  proof (cases "i = panel_serial p")
    case False
    then have "?d = c"
      by (auto simp: answer_panel_def finish_panel_def panel_current_def c_def split: sum.splits)
    moreover have "current_queries c = current_queries p"
      using filter_without_other [of k "panel_requests p" "\<lambda>r. fst r = panel_serial p", OF assms(2)] False at
      by (simp add: current_queries_def c_def)
    moreover have "panel_shows props c = panel_shows props p" "panel_fits props x c = panel_fits props x p" for x
      by (rule shows_cong fits_cong; simp add: c_def)+
    moreover have "panel_serial c = panel_serial p" "panel_live c = panel_live p" "panel_aborted c = panel_aborted p"
      "panel_pending c = panel_pending p" "panel_busy c = panel_busy p"
      "panel_requests c = without_nth k (panel_requests p)" by (simp_all add: c_def)
    ultimately show ?thesis
      using assms(1) subset unfolding respond panel_wf_def by simp
  next
    case True
    then have live: "panel_live p" using place by auto
    have current: "panel_current i p"
      using assms(1) live True by (auto simp: panel_wf_def panel_current_def)
    have one: "length (current_queries p) = 1"
      using assms(1) live filter_without_nth [OF assms(2), of "\<lambda>r. fst r = panel_serial p"] True at
      by (auto simp: panel_wf_def current_queries_def split: if_splits)
    then have none: "filter (\<lambda>r. fst r = panel_serial p) (without_nth k (panel_requests p)) = []"
      using filter_without_nth [OF assms(2), of "\<lambda>r. fst r = panel_serial p"] True at
      by (simp add: current_queries_def)
    have "q \<in> set (current_queries p)"
      using True at nth_mem [OF assms(2)] by (force simp: current_queries_def)
    then have fits: "panel_fits props q p"
      using assms(1) live by (auto simp: panel_wf_def list_all_iff)
    have fields: "panel_serial ?d = panel_serial p" "panel_live ?d" "panel_aborted ?d = panel_aborted p"
      "panel_requests ?d = without_nth k (panel_requests p)" "\<not> panel_busy ?d" "panel_pending ?d = None"
      "panel_container ?d = panel_container p" "panel_previous ?d = panel_previous p" "acknowledged ?d = acknowledged p"
      using True live by (auto simp: answer_panel_def finish_panel_def c_def split: sum.split)
    have "panel_shows props p" using assms(1) live by (simp add: panel_wf_def)
    moreover have "panel_result ?d = panel_result p \<and> panel_source ?d = panel_source p \<or>
        (\<exists>loaded. panel_result ?d = Some loaded \<and> panel_source ?d = Some q \<and> diagnostic_scope loaded = panel_scope props)"
      by (auto simp: answer_panel_def finish_panel_def c_def split: sum.split)
    ultimately have "panel_shows props ?d"
      using fits fits_cong [OF fields(7-9), of props q] shows_cong [OF fields(7-9), of props]
      by (auto simp: panel_shows_def)
    moreover have "current_queries ?d = []" using none fields(1,4) by (simp add: current_queries_def)
    ultimately show ?thesis
      using assms(1) live fields subset unfolding respond by (auto simp: panel_wf_def)
  qed
qed

lemma panel_wf_step:
  assumes "panel_wf props p" and "panel_offers props p e"
  shows "panel_wf props (panel_respond props e p)"
proof (cases e)
  case (Panel_answer k r)
  then show ?thesis using answer_wf assms by (simp add: panel_offers_def)
next
  case Panel_unmount
  have "fst r < Suc (panel_serial p)" if "r \<in> set (panel_requests p)" for r
    using assms(1) that unfolding panel_wf_def by fastforce
  then show ?thesis by (simp add: Panel_unmount panel_wf_def panel_respond_def abort_panel_def)
next
  case (Acknowledge b)
  then have "panel_live p" using assms(2) by (simp add: panel_offers_def)
  then show ?thesis
    by (intro cancelled_wf [OF assms(1)]) (simp_all add: Acknowledge panel_respond_def cancel_panel_def abort_panel_def)
next
  case (Choose_container x)
  then have "panel_live p" using assms(2) by (simp add: panel_offers_def)
  then show ?thesis
    by (intro cancelled_wf [OF assms(1)]) (simp_all add: Choose_container panel_respond_def cancel_panel_def abort_panel_def)
next
  case (Choose_previous b)
  then have "panel_live p" using assms(2) by (simp add: panel_offers_def)
  then show ?thesis
    by (intro cancelled_wf [OF assms(1)]) (simp_all add: Choose_previous panel_respond_def cancel_panel_def abort_panel_def)
next
  case Cancel_click
  then have "panel_live p" using assms(2) by (simp add: panel_offers_def)
  then show ?thesis
    by (intro cancelled_wf [OF assms(1)]) (simp_all add: Cancel_click panel_respond_def cancel_panel_def abort_panel_def)
next
  case Read_logs
  then have "panel_live p" "panel_fits props (panel_query props p Logs (None)) p"
    using assms(2) by (simp_all add: panel_offers_def panel_fits_def panel_query_def)
  then show ?thesis using run_wf [OF assms(1)] by (simp add: Read_logs panel_respond_def)
next
  case Read_events
  then have "panel_live p" "panel_fits props (panel_query props p Events (None)) p"
    using assms(2) by (simp_all add: panel_offers_def panel_fits_def panel_query_def)
  then show ?thesis using run_wf [OF assms(1)] by (simp add: Read_events panel_respond_def)
next
  case Preview_logs
  then have "panel_live p" "panel_fits props (panel_query props p Preview (Some Target_logs)) p"
    using assms(2) by (simp_all add: panel_offers_def panel_fits_def panel_query_def)
  then show ?thesis using run_wf [OF assms(1)] by (simp add: Preview_logs panel_respond_def)
next
  case Preview_events
  then have "panel_live p" "panel_fits props (panel_query props p Preview (Some Target_events)) p"
    using assms(2) by (simp_all add: panel_offers_def panel_fits_def panel_query_def)
  then show ?thesis using run_wf [OF assms(1)] by (simp add: Preview_events panel_respond_def)
qed

section \<open>Properties\<close>

text \<open>Logs and events, of which the warning speaks.\<close>

fun sensitive :: "drawn \<Rightarrow> bool" where
  "sensitive (Log_text _) = True"
| "sensitive (Event_list _) = True"
| "sensitive _ = False"

lemma sensitive_result: "list_ex sensitive (draw_result r) \<Longrightarrow> answered_operation r \<in> {lit ''logs'', lit ''events''}"
  by (auto simp: draw_result_def split: if_splits option.splits)

text \<open>C37: what the panel shows is the answer to what is selected in it: a displayed result was asked for
  with the container and instance now chosen, of this Pod and in this scope, and logs or events were asked
  for only while the warning about sensitive data is acknowledged. Logs or events are drawn without the
  acknowledgement only if the server calls its answer to a preview by another operation, which nothing
  checks. The panel is busy exactly while one request of its latest query is in flight.\<close>

theorem diagnostics_match_the_selection:
  assumes "panel.reachable props p" and "panel_live p"
  shows "(\<forall>r. panel_result p = Some r \<longrightarrow> diagnostic_scope r = panel_scope props \<and>
      (\<exists>q. panel_source p = Some q \<and> q = panel_query props p (query_operation q) (query_target q) \<and>
        (query_operation q \<noteq> Preview \<longrightarrow> acknowledged p))) \<and>
    (list_ex sensitive (panel_drawn p) \<longrightarrow> acknowledged p \<or>
      (\<exists>q r. panel_source p = Some q \<and> query_operation q = Preview \<and> panel_result p = Some r \<and>
        answered_operation r \<noteq> lit ''preview'')) \<and>
    length (current_queries p) = (if panel_busy p then 1 else 0)"
proof -
  have "panel_wf props first_panel"
    by (simp add: panel_wf_def first_panel_def current_queries_def panel_shows_def)
  then have "panel_wf props p"
    using assms(1) by (intro panel.reachable_invariant [where I = "panel_wf props", OF _ _ assms(1)])
      (auto simp: panel_initial_def panel_step_def panel_wf_step)
  then have shown: "diagnostic_scope r = panel_scope props \<and> (\<exists>q. panel_source p = Some q \<and> panel_fits props q p)"
    if "panel_result p = Some r" for r
    using assms(2) that by (auto simp: panel_wf_def panel_shows_def split: option.splits)
  have "acknowledged p \<or> (\<exists>q r. panel_source p = Some q \<and> query_operation q = Preview \<and> panel_result p = Some r \<and>
      answered_operation r \<noteq> lit ''preview'')" if drawn: "list_ex sensitive (panel_drawn p)"
  proof -
    obtain r where r: "panel_result p = Some r" "answered_operation r \<in> {lit ''logs'', lit ''events''}"
      using drawn sensitive_result by (auto simp: panel_drawn_def split: option.splits)
    then have "answered_operation r \<noteq> lit ''preview''" by auto
    moreover obtain q where "panel_source p = Some q" "panel_fits props q p" using shown [OF r(1)] by blast
    ultimately show ?thesis using r(1) by (auto simp: panel_fits_def)
  qed
  moreover have "length (current_queries p) = (if panel_busy p then 1 else 0)"
    using \<open>panel_wf props p\<close> assms(2) by (simp only: panel_wf_def)
  moreover have "\<forall>r. panel_result p = Some r \<longrightarrow> diagnostic_scope r = panel_scope props \<and>
      (\<exists>q. panel_source p = Some q \<and> q = panel_query props p (query_operation q) (query_target q) \<and>
        (query_operation q \<noteq> Preview \<longrightarrow> acknowledged p))"
    using shown unfolding panel_fits_def by blast
  ultimately show ?thesis by blast
qed

text \<open>The logs of one container are read.\<close>

definition demo_props :: panel_props where
  "demo_props = \<lparr>panel_scope = demo_scope (lit ''team'') 2, panel_pod = \<lparr>record_kind = lit ''Pod'', record_name = lit ''api'',
     record_namespace = None, record_uid = None, record_fields = [(lit ''Containers'', lit ''a, b'')]\<rparr>\<rparr>"

definition log_answer :: diagnostic_result where
  "log_answer = \<lparr>diagnostic_scope = demo_scope (lit ''team'') 2, answered_operation = lit ''logs'',
     diagnostic_text = lit ''x'', diagnostic_events = [], diagnostic_truncated = False, diagnostic_warning = [],
     diagnostic_preview = None\<rparr>"

definition demo_logs :: "panel_event list" where
  "demo_logs = [Acknowledge True, Choose_container (lit ''b''), Read_logs, Panel_answer 0 (Answered log_answer)]"

lemma diagnostics_match_the_selection_witness:
  "\<exists>r. panel_result (fold (panel_respond demo_props) demo_logs first_panel) = Some r \<and>
     diagnostic_scope r = panel_scope demo_props \<and>
     panel_drawn (fold (panel_respond demo_props) demo_logs first_panel) = [Log_text (lit ''x'')]"
proof -
  let ?p = "fold (panel_respond demo_props) demo_logs first_panel"
  have ok: "visit_ok (panel_offers demo_props) (panel_respond demo_props) first_panel demo_logs" by code_simp
  have "panel.reachable demo_props ?p"
    by (rule panel.reachable_visit [OF _ _ ok]) (simp_all add: panel_step_def panel_initial_def)
  moreover have "panel_live ?p" "panel_result ?p \<noteq> None" "panel_drawn ?p = [Log_text (lit ''x'')]" by code_simp+
  ultimately show ?thesis using diagnostics_match_the_selection by blast
qed

text \<open>The operation of an answer is not compared with the one that was asked for (as \<open>queryResources\<close> does):
  an answer to a preview that calls itself logs is drawn as logs without the acknowledgement.\<close>

lemma mislabelled_answer_is_drawn:
  "visit_ok (panel_offers demo_props) (panel_respond demo_props) first_panel
     [Choose_container (lit ''b''), Preview_logs, Panel_answer 0 (Answered log_answer)] \<and>
   panel_drawn (fold (panel_respond demo_props)
     [Choose_container (lit ''b''), Preview_logs, Panel_answer 0 (Answered log_answer)] first_panel) = [Log_text (lit ''x'')] \<and>
   \<not> acknowledged (fold (panel_respond demo_props)
     [Choose_container (lit ''b''), Preview_logs, Panel_answer 0 (Answered log_answer)] first_panel)"
  by code_simp

end
