(* ===== verification/SchemaBuild.thy ===== *)
theory SchemaBuild
  imports JsValue "HOL-Library.List_Lexorder"
begin

text \<open>
  The core of \<open>scripts/build-kubernetes-schema.mjs\<close>: which definitions of the API description go into the
  bundle, how their schemas are normalised, and the table of supported resources. Reading, hashing and
  writing files are left out; \<open>JSON.stringify\<close> of a schema and the sorting by \<open>localeCompare\<close> are
  parameters. The API description is data of the form \<open>JSON.parse\<close> makes: distinct keys, none of them an
  array index, no name that \<open>Object.prototype\<close> has, and an object for every definition.
\<close>

section \<open>normalizeSchema\<close>

definition delete_key :: "jstr \<Rightarrow> (jstr \<times> jsval) list \<Rightarrow> (jstr \<times> jsval) list" where
  "delete_key k es = filter (\<lambda>e. fst e \<noteq> k) es"

text \<open>Assignment to a property: in place if it exists, at the end otherwise.\<close>

definition assign_key :: "jstr \<Rightarrow> jsval \<Rightarrow> (jstr \<times> jsval) list \<Rightarrow> (jstr \<times> jsval) list" where
  "assign_key k v es = (if k \<in> fst ` set es then map (\<lambda>e. if fst e = k then (k, v) else e) es else es @ [(k, v)])"

definition read_key :: "string \<Rightarrow> (jstr \<times> jsval) list \<Rightarrow> jsval" where
  "read_key k es = (case map_of es (lit k) of Some v \<Rightarrow> v | None \<Rightarrow> JUndef)"

definition int_or_string :: jsval where
  "int_or_string = JArr 0 [JObj 0 [(lit ''type'', jlit ''integer'')], JObj 0 [(lit ''type'', jlit ''string'')]]"

definition loosen :: "(jstr \<times> jsval) list \<Rightarrow> (jstr \<times> jsval) list" where
  "loosen es = (if read_key ''format'' es = jlit ''int-or-string''
     then assign_key (lit ''anyOf'') int_or_string (delete_key (lit ''format'') (delete_key (lit ''type'') es))
     else es)"

definition close_object :: "(jstr \<times> jsval) list \<Rightarrow> (jstr \<times> jsval) list" where
  "close_object es = (if truthy (read_key ''properties'' es) \<and> read_key ''additionalProperties'' es = JUndef \<and>
       read_key ''x-kubernetes-preserve-unknown-fields'' es \<noteq> JBool True
     then assign_key (lit ''additionalProperties'') (JBool False) es else es)"

function normalize_schema :: "jsval \<Rightarrow> jsval" where
  "normalize_schema v = (case v of
       JArr i vs \<Rightarrow> JArr i (map normalize_schema vs)
     | JObj i es \<Rightarrow> JObj i (close_object (loosen (map (\<lambda>e. (fst e, normalize_schema (snd e))) es)))
     | _ \<Rightarrow> v)"
  by pat_completeness auto
termination
proof (relation "measure size", goal_cases)
  case (2 v i vs w)
  then show ?case by (simp add: less_Suc_eq_le size_list_estimation')
next
  case (3 v i es e)
  then have "size (snd e) \<le> size_list (size_prod (\<lambda>_. 0) size) es"
    by (intro size_list_estimation' [of e]) (auto simp: size_prod_simp)
  with 3 show ?case by simp
qed simp

declare normalize_schema.simps [simp del]

section \<open>includeDefinition\<close>

text \<open>\<open>/#\\/definitions\\/([^"\\]+)/g\<close>: the names after each marker in a text.\<close>

definition name_unit :: "code_unit \<Rightarrow> bool" where
  "name_unit u \<longleftrightarrow> u \<noteq> cu CHR 0x22 \<and> u \<noteq> cu CHR 0x5C"

function marked_names :: "jstr \<Rightarrow> jstr list" where
  "marked_names s = (case s of
       [] \<Rightarrow> []
     | u # us \<Rightarrow>
         if prefix (lit ''#/definitions/'') s \<and> takeWhile name_unit (drop 14 s) \<noteq> []
         then takeWhile name_unit (drop 14 s) # marked_names (dropWhile name_unit (drop 14 s))
         else marked_names us)"
  by pat_completeness auto
termination
proof (relation "measure length", goal_cases)
  case (2 s u us)
  have "length (dropWhile name_unit (drop 14 s)) \<le> length (drop 14 s)" by (rule length_dropWhile_le)
  with 2 show ?case by simp
qed auto

text \<open>
  The loop over the names to include, each with its own references first. The error is the missing name;
  \<open>selected\<close> is the set, in the order of its insertions.
\<close>

type_synonym definition_table = "(jstr \<times> jsval) list"

definition schema_of :: "definition_table \<Rightarrow> jstr \<Rightarrow> jsval option" where
  "schema_of defs n = (case map_of defs n of Some s \<Rightarrow> if truthy s then Some s else None | None \<Rightarrow> None)"

function (sequential) include_definitions ::
  "(jsval \<Rightarrow> jstr) \<Rightarrow> definition_table \<Rightarrow> jstr list \<Rightarrow> jstr list \<Rightarrow> jstr + jstr list" where
  "include_definitions serialize defs [] selected = Inr selected"
| "include_definitions serialize defs (n # ns) selected =
     (if n \<in> set selected then include_definitions serialize defs ns selected
      else (case schema_of defs n of
          None \<Rightarrow> Inl n
        | Some s \<Rightarrow>
            (case include_definitions serialize defs (marked_names (serialize s)) (selected @ [n]) of
               Inl e \<Rightarrow> Inl e
             | Inr more \<Rightarrow> include_definitions serialize defs ns more)))"
  by pat_completeness auto

lemma include_keeps:
  "include_definitions_dom (serialize, defs, names, selected) \<Longrightarrow>
    include_definitions serialize defs names selected = Inr more \<Longrightarrow> set selected \<subseteq> set more"
proof (induction arbitrary: more rule: include_definitions.pinduct)
  case (2 serialize defs n ns selected)
  then show ?case
    by (auto simp: include_definitions.psimps split: if_splits option.splits sum.splits) blast+
qed (simp add: include_definitions.psimps)

lemma schema_of_Some: "schema_of defs n = Some s \<Longrightarrow> n \<in> fst ` set defs"
  by (auto simp: schema_of_def split: option.splits if_splits dest!: map_of_SomeD intro: rev_image_eqI)

lemma fewer_left:
  assumes "n \<in> fst ` set defs" and "n \<notin> set selected" and "set (selected @ [n]) \<subseteq> set more"
  shows "card (fst ` set defs - set more) < card (fst ` set defs - set selected)"
  by (rule psubset_card_mono) (use assms in auto)

termination include_definitions
proof (relation "measures [\<lambda>(_, defs, _, selected). card (fst ` set defs - set selected), \<lambda>(_, _, names, _). length names]",
    goal_cases)
  case (3 serialize defs n ns selected s)
  then show ?case using fewer_left [OF schema_of_Some, of defs n s selected "selected @ [n]"] by simp
next
  case (4 serialize defs n ns selected s more)
  then have "set (selected @ [n]) \<subseteq> set more" by (intro include_keeps)
  with 4 show ?case using fewer_left [OF schema_of_Some, of defs n s selected more] by simp
qed auto

declare include_definitions.simps [simp del] marked_names.simps [simp del]

section \<open>The table of supported resources\<close>

text \<open>
  \<open>x-kubernetes-group-version-kind\<close> of a schema: group, version and kind of each identity. Assigning
  to \<open>resources\<close> keeps the place of a key that exists.
\<close>

record identity =
  identity_group :: jstr
  identity_version :: jstr
  identity_kind :: jstr

definition identity_key :: "identity \<Rightarrow> jstr" where
  "identity_key i = (if identity_group i \<noteq> [] then identity_group i @ lit ''/'' @ identity_version i else identity_version i)
     @ lit ''|'' @ identity_kind i"

definition assign_name :: "jstr \<Rightarrow> jstr \<Rightarrow> (jstr \<times> jstr) list \<Rightarrow> (jstr \<times> jstr) list" where
  "assign_name k v es = (if k \<in> fst ` set es then map (\<lambda>e. if fst e = k then (k, v) else e) es else es @ [(k, v)])"

definition resource_table :: "(jstr \<Rightarrow> identity list) \<Rightarrow> jstr list \<Rightarrow> (jstr \<times> jstr) list" where
  "resource_table identities supported =
     fold (\<lambda>n. fold (\<lambda>i. assign_name (identity_key i) n) (identities n)) supported []"

text \<open>An empty or missing \<open>group\<close> is the core group.\<close>

definition identity_of :: "jsval \<Rightarrow> identity" where
  "identity_of v = \<lparr>identity_group = text_of (opt_get v (lit ''group'')),
     identity_version = text_of (opt_get v (lit ''version'')), identity_kind = text_of (opt_get v (lit ''kind''))\<rparr>"

definition identities_of :: "jsval \<Rightarrow> identity list" where
  "identities_of schema = map identity_of (js_array (opt_get schema (lit ''x-kubernetes-group-version-kind'')))"

definition add_group :: "jstr \<Rightarrow> jstr list \<Rightarrow> jstr list" where
  "add_group g gs = (if g \<in> set gs then gs else gs @ [g])"

definition all_groups :: "definition_table \<Rightarrow> jstr list" where
  "all_groups defs =
     fold (\<lambda>e. fold (\<lambda>i. add_group (identity_group i)) (identities_of (snd e))) defs [[]]"

section \<open>The bundle\<close>

text \<open>\<open>sort\<close> without a comparison orders texts by their code units, as the order of lists of words does.\<close>

definition supported_definitions :: "jstr list" where
  "supported_definitions = map lit [''io.k8s.api.apps.v1.DaemonSet'', ''io.k8s.api.apps.v1.Deployment'',
     ''io.k8s.api.apps.v1.ReplicaSet'', ''io.k8s.api.apps.v1.StatefulSet'', ''io.k8s.api.batch.v1.CronJob'',
     ''io.k8s.api.batch.v1.Job'', ''io.k8s.api.core.v1.ConfigMap'', ''io.k8s.api.core.v1.Namespace'',
     ''io.k8s.api.core.v1.Pod'', ''io.k8s.api.core.v1.Secret'', ''io.k8s.api.core.v1.Service'',
     ''io.k8s.api.core.v1.ServiceAccount'']"

record schema_bundle =
  supported_resources :: "(jstr \<times> jstr) list"
  bundle_groups :: "jstr list"
  bundle_definitions :: "(jstr \<times> jsval) list"

definition schema_at :: "definition_table \<Rightarrow> jstr \<Rightarrow> jsval" where
  "schema_at defs n = (case map_of defs n of Some s \<Rightarrow> s | None \<Rightarrow> JUndef)"

definition build_bundle ::
  "(jsval \<Rightarrow> jstr) \<Rightarrow> ((jstr \<times> jstr) list \<Rightarrow> (jstr \<times> jstr) list) \<Rightarrow> definition_table \<Rightarrow> jstr + schema_bundle" where
  "build_bundle serialize locale_sort defs =
     (case include_definitions serialize defs supported_definitions [] of
        Inl missing \<Rightarrow> Inl missing
      | Inr selected \<Rightarrow> Inr
          \<lparr>supported_resources =
             locale_sort (resource_table (\<lambda>n. identities_of (schema_at defs n)) supported_definitions),
           bundle_groups = sort (all_groups defs),
           bundle_definitions = map (\<lambda>n. (n, normalize_schema (schema_at defs n))) (sort selected)\<rparr>)"

section \<open>Laws\<close>

text \<open>The reference specification of the selection: what the roots refer to, directly or not.\<close>

definition references :: "(jsval \<Rightarrow> jstr) \<Rightarrow> definition_table \<Rightarrow> jstr \<Rightarrow> jstr list" where
  "references serialize defs n = (case schema_of defs n of Some s \<Rightarrow> marked_names (serialize s) | None \<Rightarrow> [])"

inductive needed :: "(jsval \<Rightarrow> jstr) \<Rightarrow> definition_table \<Rightarrow> jstr list \<Rightarrow> jstr \<Rightarrow> bool"
  for serialize defs roots where
  root: "n \<in> set roots \<Longrightarrow> needed serialize defs roots n"
| reference: "needed serialize defs roots n \<Longrightarrow> m \<in> set (references serialize defs n) \<Longrightarrow> needed serialize defs roots m"

lemma needed_mono:
  "needed serialize defs names m \<Longrightarrow> (\<And>n. n \<in> set names \<Longrightarrow> needed serialize defs roots n) \<Longrightarrow>
    needed serialize defs roots m"
  by (induction rule: needed.induct) (auto intro: needed.reference)

lemma needed_tail: "needed serialize defs ns m \<Longrightarrow> needed serialize defs (n # ns) m"
  by (rule needed_mono) (auto intro: needed.root)

lemma needed_head:
  "needed serialize defs (references serialize defs n) m \<Longrightarrow> needed serialize defs (n # ns) m"
  by (rule needed_mono) (auto intro: needed.reference [OF needed.root])

text \<open>A set of names is closed in another one if all their references are there, with a schema each.\<close>

definition closed_in :: "(jsval \<Rightarrow> jstr) \<Rightarrow> definition_table \<Rightarrow> jstr set \<Rightarrow> jstr set \<Rightarrow> bool" where
  "closed_in serialize defs ns all \<longleftrightarrow>
     (\<forall>n \<in> ns. schema_of defs n \<noteq> None \<and> set (references serialize defs n) \<subseteq> all)"

lemma include_spec:
  "case include_definitions serialize defs names selected of
     Inl e \<Rightarrow> needed serialize defs names e \<and> schema_of defs e = None
   | Inr all \<Rightarrow> (distinct selected \<longrightarrow> distinct all) \<and> set selected \<subseteq> set all \<and> set names \<subseteq> set all \<and>
       (\<forall>m \<in> set all - set selected. needed serialize defs names m) \<and>
       closed_in serialize defs (set all - set selected) (set all)"
proof (induction serialize defs names selected rule: include_definitions.induct)
  case (1 serialize defs selected)
  then show ?case by (simp add: include_definitions.simps closed_in_def)
next
  case (2 serialize defs n ns selected)
  show ?case
  proof (cases "n \<in> set selected")
    case True
    with 2(1) show ?thesis
      by (auto simp: include_definitions.simps(2) intro: needed_tail split: sum.splits)
  next
    case new: False
    show ?thesis
    proof (cases "schema_of defs n")
      case None
      with new show ?thesis by (auto simp: include_definitions.simps(2) intro: needed.root)
    next
      case (Some s)
      have refs: "references serialize defs n = marked_names (serialize s)"
        by (simp add: references_def Some)
      note inner = 2(2) [OF new Some]
      show ?thesis
      proof (cases "include_definitions serialize defs (marked_names (serialize s)) (selected @ [n])")
        case (Inl e)
        with inner have "needed serialize defs (references serialize defs n) e" "schema_of defs e = None"
          by (simp_all add: refs)
        with Inl new Some show ?thesis by (auto simp: include_definitions.simps(2) intro: needed_head)
      next
        case (Inr more)
        have more: "distinct (selected @ [n]) \<longrightarrow> distinct more" "set (selected @ [n]) \<subseteq> set more"
          "set (references serialize defs n) \<subseteq> set more"
          "\<And>m. m \<in> set more - set (selected @ [n]) \<Longrightarrow> needed serialize defs (n # ns) m"
          "closed_in serialize defs (set more - set (selected @ [n])) (set more)"
          using inner Inr by (auto simp: refs [symmetric] intro: needed_head)
        note outer = 2(3) [OF new Some Inr]
        show ?thesis
        proof (cases "include_definitions serialize defs ns more")
          case (Inl e)
          with outer \<open>_ = Inr more\<close> new Some show ?thesis
            by (auto simp: include_definitions.simps(2) intro: needed_tail)
        next
          case (Inr all)
          then have all: "distinct more \<longrightarrow> distinct all" "set more \<subseteq> set all" "set ns \<subseteq> set all"
            "\<And>m. m \<in> set all - set more \<Longrightarrow> needed serialize defs (n # ns) m"
            "closed_in serialize defs (set all - set more) (set all)"
            using outer by (auto intro: needed_tail)
          have result: "include_definitions serialize defs (n # ns) selected = Inr all"
            using \<open>_ = Inr more\<close> Inr new Some by (simp add: include_definitions.simps(2))
          have n: "needed serialize defs (n # ns) n" by (simp add: needed.root)
          have "needed serialize defs (n # ns) m" if "m \<in> set all - set selected" for m
            using that n more(4) all(4) by (cases "m \<in> set more"; cases "m = n") auto
          moreover have "schema_of defs m \<noteq> None \<and> set (references serialize defs m) \<subseteq> set all"
            if member: "m \<in> set all - set selected" for m
          proof -
            consider "m = n" | "m \<in> set all - set more" | "m \<in> set more - set (selected @ [n])" using member by auto
            then show ?thesis
            proof cases
              case 1
              then show ?thesis using Some more(3) all(2) by auto
            next
              case 2
              then show ?thesis using all(5) by (simp add: closed_in_def)
            next
              case 3
              then show ?thesis using more(5) all(2) unfolding closed_in_def by (meson subset_trans)
            qed
          qed
          then have "closed_in serialize defs (set all - set selected) (set all)" by (simp add: closed_in_def)
          ultimately show ?thesis using more(1,2) all(1-3) new result by auto
        qed
      qed
    qed
  qed
qed

subsection \<open>Normal schemas\<close>

text \<open>
  What the validators are generated from: no object has the format \<open>int-or-string\<close>, and an object with
  properties says whether it takes others (in the words of the source, which may leave it open, or by being
  closed), unless it keeps unknown fields.
\<close>

definition normal_object :: "(jstr \<times> jsval) list \<Rightarrow> bool" where
  "normal_object es \<longleftrightarrow> read_key ''format'' es \<noteq> jlit ''int-or-string'' \<and>
     (truthy (read_key ''properties'' es) \<longrightarrow> read_key ''additionalProperties'' es \<noteq> JUndef \<or>
        read_key ''x-kubernetes-preserve-unknown-fields'' es = JBool True)"

function normal_schema :: "jsval \<Rightarrow> bool" where
  "normal_schema v = (case v of
       JArr i vs \<Rightarrow> list_all normal_schema vs
     | JObj i es \<Rightarrow> normal_object es \<and> list_all (\<lambda>e. normal_schema (snd e)) es
     | _ \<Rightarrow> True)"
  by pat_completeness auto
termination
proof (relation "measure size", goal_cases)
  case (2 v i vs w)
  then show ?case by (simp add: less_Suc_eq_le size_list_estimation')
next
  case (3 v i es e)
  then have "size (snd e) \<le> size_list (size_prod (\<lambda>_. 0) size) es"
    by (intro size_list_estimation' [of e]) (auto simp: size_prod_simp)
  with 3 show ?case by simp
qed simp

declare normal_schema.simps [simp del]

lemmas schema_simps = normalize_schema.simps [of "JArr i vs" for i vs] normalize_schema.simps [of "JObj i es" for i es]
  normal_schema.simps [of "JArr i vs" for i vs] normal_schema.simps [of "JObj i es" for i es]

lemma map_of_update: "k \<in> fst ` set es \<Longrightarrow>
    map_of (map (\<lambda>e. if fst e = k then (k, v) else e) es) x = (if x = k then Some v else map_of es x)"
proof (induction es)
  case (Cons e es)
  show ?case
  proof (cases "k \<in> fst ` set es")
    case True
    with Cons.IH show ?thesis by auto
  next
    case False
    then have "map (\<lambda>e. if fst e = k then (k, v) else e) es = es" by (intro map_idI) auto
    with Cons.prems False show ?thesis by auto
  qed
qed simp

lemma map_of_assign_key: "map_of (assign_key k v es) x = (if x = k then Some v else map_of es x)"
proof (cases "k \<in> fst ` set es")
  case True
  then show ?thesis by (simp add: assign_key_def map_of_update)
next
  case False
  then have "map_of es k = None" by (simp add: map_of_eq_None_iff)
  with False show ?thesis by (simp add: assign_key_def map_add_def split: option.split)
qed

lemma map_of_delete_key: "map_of (delete_key k es) x = (if x = k then None else map_of es x)"
  by (induction es) (auto simp: delete_key_def)

lemma set_assign_key: "e \<in> set (assign_key k v es) \<Longrightarrow> e = (k, v) \<or> e \<in> set es"
  by (auto simp: assign_key_def split: if_splits)

lemma set_delete_key: "e \<in> set (delete_key k es) \<Longrightarrow> e \<in> set es"
  by (simp add: delete_key_def)

lemma read_assign_key:
  "read_key k (assign_key (lit k') v es) = (if k = k' then v else read_key k es)"
  by (simp add: read_key_def map_of_assign_key)

lemma read_delete_key: "read_key k (delete_key (lit k') es) = (if k = k' then JUndef else read_key k es)"
  by (simp add: read_key_def map_of_delete_key)

lemma normal_after: "normal_object (close_object (loosen es))"
  by (simp add: normal_object_def close_object_def loosen_def read_assign_key read_delete_key)

lemma normal_unchanged: "normal_object es \<Longrightarrow> close_object (loosen es) = es"
  by (auto simp: normal_object_def close_object_def loosen_def)

lemma parts_of_loosened: "e \<in> set (close_object (loosen es)) \<Longrightarrow>
    e \<in> set es \<or> snd e = int_or_string \<or> snd e = JBool False"
  by (auto simp: close_object_def loosen_def split: if_splits dest!: set_assign_key set_delete_key)

lemma normal_alternatives: "normal_schema int_or_string"
  by (simp add: int_or_string_def schema_simps normal_object_def read_key_def normal_schema.simps [of "JStr s" for s])

lemma normalize_normal: "normal_schema (normalize_schema v)"
proof (induction v rule: normalize_schema.induct)
  case (1 v)
  show ?case
  proof (cases v)
    case (JArr i vs)
    then show ?thesis using 1(1) [OF JArr] by (simp add: schema_simps list_all_iff)
  next
    case (JObj i es)
    have "normal_schema (snd e)"
      if "e \<in> set (close_object (loosen (map (\<lambda>e. (fst e, normalize_schema (snd e))) es)))" for e
      using parts_of_loosened [OF that] 1(2) [OF JObj] normal_alternatives
      by (auto simp: normal_schema.simps [of "JBool b" for b])
    then show ?thesis by (simp add: JObj schema_simps normal_after list_all_iff)
  qed (simp_all add: normalize_schema.simps normal_schema.simps)
qed

lemma normal_fixed: "normal_schema v \<Longrightarrow> normalize_schema v = v"
proof (induction v rule: normalize_schema.induct)
  case (1 v)
  show ?case
  proof (cases v)
    case (JArr i vs)
    then show ?thesis using 1 by (auto simp: schema_simps list_all_iff intro!: map_idI)
  next
    case (JObj i es)
    have "map (\<lambda>e. (fst e, normalize_schema (snd e))) es = es"
      using 1 JObj by (intro map_idI) (auto simp: schema_simps list_all_iff)
    then show ?thesis using 1(3) by (simp add: JObj schema_simps normal_unchanged)
  qed (simp_all add: normalize_schema.simps)
qed

subsection \<open>The tables\<close>

lemma map_of_assign_name: "map_of (assign_name k v es) x = (if x = k then Some v else map_of es x)"
proof (cases "k \<in> fst ` set es")
  case True
  then have "map_of (map (\<lambda>e. if fst e = k then (k, v) else e) es) x = (if x = k then Some v else map_of es x)"
    by (rule map_of_update)
  with True show ?thesis by (simp add: assign_name_def)
next
  case False
  then have "map_of es k = None" by (simp add: map_of_eq_None_iff)
  with False show ?thesis by (simp add: assign_name_def map_add_def split: option.split)
qed

lemma keys_assign_name: "map fst (assign_name k v es) = (if k \<in> fst ` set es then map fst es else map fst es @ [k])"
proof -
  have "map (fst \<circ> (\<lambda>e. if fst e = k then (k, v) else e)) es = map fst es" by simp
  then show ?thesis by (simp add: assign_name_def)
qed

lemma distinct_assign_name: "distinct (map fst es) \<Longrightarrow> distinct (map fst (assign_name k v es))"
  by (simp add: keys_assign_name)

lemma find_snoc: "find P (xs @ [n]) = (case find P xs of Some m \<Rightarrow> Some m | None \<Rightarrow> if P n then Some n else None)"
  by (induction xs) simp_all

lemma map_of_identities:
  "map_of (fold (\<lambda>i. assign_name (identity_key i) n) ids es) k =
     (if k \<in> identity_key ` set ids then Some n else map_of es k)"
  by (induction ids arbitrary: es) (auto simp: map_of_assign_name)

lemma map_of_table:
  "map_of (fold (\<lambda>n. fold (\<lambda>i. assign_name (identity_key i) n) (identities n)) ns es) k =
     (case find (\<lambda>n. k \<in> identity_key ` set (identities n)) (rev ns) of Some n \<Rightarrow> Some n | None \<Rightarrow> map_of es k)"
proof (induction ns arbitrary: es)
  case (Cons n ns)
  show ?case by (simp add: Cons find_snoc map_of_identities split: option.split)
qed simp

lemma distinct_table: "distinct (map fst es) \<Longrightarrow>
    distinct (map fst (fold (\<lambda>n. fold (\<lambda>i. assign_name (identity_key i) n) (identities n)) ns es))"
proof (induction ns arbitrary: es)
  case (Cons n ns)
  have "distinct (map fst es) \<Longrightarrow> distinct (map fst (fold (\<lambda>i. assign_name (identity_key i) n) ids es))" for ids es
    by (induction ids arbitrary: es) (simp_all add: distinct_assign_name)
  then show ?case using Cons by simp
qed simp

lemma resource_table_spec:
  "distinct (map fst (resource_table identities supported)) \<and>
   map_of (resource_table identities supported) k =
     find (\<lambda>n. k \<in> identity_key ` set (identities n)) (rev supported)"
  by (simp add: resource_table_def distinct_table map_of_table option.case_eq_if)

subsection \<open>Normalising, key by key\<close>

definition closes_object :: "(jstr \<times> jsval) list \<Rightarrow> bool" where
  "closes_object es \<longleftrightarrow> (case map_of es (lit ''properties'') of Some v \<Rightarrow> truthy v | None \<Rightarrow> False) \<and>
     map_of es (lit ''additionalProperties'') \<in> {None, Some JUndef} \<and>
     map_of es (lit ''x-kubernetes-preserve-unknown-fields'') \<noteq> Some (JBool True)"

definition is_int_or_string :: "(jstr \<times> jsval) list \<Rightarrow> bool" where
  "is_int_or_string es \<longleftrightarrow> map_of es (lit ''format'') = Some (jlit ''int-or-string'')"

lemma normalized_kind: "truthy (normalize_schema v) = truthy v" "normalize_schema v = JUndef \<longleftrightarrow> v = JUndef"
  "normalize_schema v = JBool b \<longleftrightarrow> v = JBool b" "normalize_schema v = JStr t \<longleftrightarrow> v = JStr t"
  by (cases v; simp add: normalize_schema.simps)+

lemma map_of_normalized: "map_of (map (\<lambda>e. (fst e, f (snd e))) es) k = map_option f (map_of es k)"
  by (induction es) auto

lemma map_of_loosen: "map_of (loosen es) k =
    (if read_key ''format'' es = jlit ''int-or-string''
     then if k = lit ''anyOf'' then Some int_or_string
       else if k = lit ''type'' \<or> k = lit ''format'' then None else map_of es k
     else map_of es k)"
  by (simp add: loosen_def map_of_assign_key map_of_delete_key)

lemma read_normalized: "read_key k (map (\<lambda>e. (fst e, normalize_schema (snd e))) es) =
    (case map_of es (lit k) of Some v \<Rightarrow> normalize_schema v | None \<Rightarrow> JUndef)"
  by (simp add: read_key_def map_of_normalized split: option.split)

lemma read_loosen: "k \<noteq> ''anyOf'' \<Longrightarrow> k \<noteq> ''type'' \<Longrightarrow> k \<noteq> ''format'' \<Longrightarrow> read_key k (loosen es) = read_key k es"
  by (simp add: read_key_def map_of_loosen)

lemma normalized_keys:
  "\<exists>es'. normalize_schema (JObj i es) = JObj i es' \<and> (\<forall>k. map_of es' k =
     (if is_int_or_string es \<and> (k = lit ''type'' \<or> k = lit ''format'') then None
      else if is_int_or_string es \<and> k = lit ''anyOf''
      then Some (JArr 0 [JObj 0 [(lit ''type'', jlit ''integer'')], JObj 0 [(lit ''type'', jlit ''string'')]])
      else if closes_object es \<and> k = lit ''additionalProperties'' then Some (JBool False)
      else map_option normalize_schema (map_of es k)))"
proof -
  let ?ns = "map (\<lambda>e. (fst e, normalize_schema (snd e))) es"
  have format: "read_key ''format'' ?ns = jlit ''int-or-string'' \<longleftrightarrow> is_int_or_string es"
    by (auto simp: read_normalized is_int_or_string_def normalized_kind split: option.split)
  have "truthy (read_key ''properties'' ?ns) \<and> read_key ''additionalProperties'' ?ns = JUndef \<and>
      read_key ''x-kubernetes-preserve-unknown-fields'' ?ns \<noteq> JBool True \<longleftrightarrow> closes_object es"
    by (auto simp: read_normalized closes_object_def normalized_kind split: option.splits)
  then have closed: "map_of (close_object (loosen ?ns)) k =
      (if closes_object es \<and> k = lit ''additionalProperties'' then Some (JBool False) else map_of (loosen ?ns) k)" for k
    by (simp add: close_object_def read_loosen map_of_assign_key)
  show ?thesis
    by (simp add: schema_simps closed map_of_loosen format map_of_normalized int_or_string_def)
qed

section \<open>Properties\<close>

text \<open>C38: the bundle is complete and minimal: it fails exactly with a name that the supported resources
  refer to, directly or not, and that has no schema; otherwise its definitions are exactly the names they
  refer to, once each, in order, each with the normalised schema of the API description.\<close>

theorem bundle_is_closed:
  "case build_bundle serialize locale_sort defs of
     Inl missing \<Rightarrow> needed serialize defs supported_definitions missing \<and> schema_of defs missing = None
   | Inr b \<Rightarrow> sorted (map fst (bundle_definitions b)) \<and> distinct (map fst (bundle_definitions b)) \<and>
       set (map fst (bundle_definitions b)) = Collect (needed serialize defs supported_definitions) \<and>
       list_all (\<lambda>(n, s). normal_schema s \<and> map_option normalize_schema (schema_of defs n) = Some s)
         (bundle_definitions b)"
proof (cases "include_definitions serialize defs supported_definitions []")
  case (Inl e)
  then show ?thesis
    using include_spec [of serialize defs supported_definitions "[]"] by (simp add: build_bundle_def)
next
  case (Inr all)
  then have all: "distinct all" "set supported_definitions \<subseteq> set all"
    "\<And>m. m \<in> set all \<Longrightarrow> needed serialize defs supported_definitions m"
    "closed_in serialize defs (set all) (set all)"
    using include_spec [of serialize defs supported_definitions "[]"] by simp_all
  have "m \<in> set all" if "needed serialize defs supported_definitions m" for m
    using that by (induction rule: needed.induct) (use all(2,4) in \<open>auto simp: closed_in_def\<close>)
  then have same: "set all = Collect (needed serialize defs supported_definitions)" using all(3) by auto
  have "schema_of defs n = Some (schema_at defs n)" if "n \<in> set all" for n
    using all(4) that by (auto simp: closed_in_def schema_of_def schema_at_def split: option.splits if_splits)
  then have "list_all (\<lambda>(n, s). normal_schema s \<and> map_option normalize_schema (schema_of defs n) = Some s)
      (map (\<lambda>n. (n, normalize_schema (schema_at defs n))) (sort all))"
    by (simp add: list_all_iff normalize_normal)
  then show ?thesis using all(1) same by (simp add: Inr build_bundle_def o_def)
qed

text \<open>C39: what normalising does to an object, key by key, and that it is done once and for all. An object
  of the format int-or-string loses its type and format and accepts exactly integers and strings; an
  object that lists properties, does not say whether it takes others and does not preserve unknown fields
  is closed; every other key keeps its normalised value. A second time changes nothing.\<close>

theorem normalization_exact:
  "(case v of
      JObj i es \<Rightarrow> \<exists>es'. normalize_schema v = JObj i es' \<and> (\<forall>k. map_of es' k =
        (if is_int_or_string es \<and> (k = lit ''type'' \<or> k = lit ''format'') then None
         else if is_int_or_string es \<and> k = lit ''anyOf''
         then Some (JArr 0 [JObj 0 [(lit ''type'', jlit ''integer'')], JObj 0 [(lit ''type'', jlit ''string'')]])
         else if closes_object es \<and> k = lit ''additionalProperties'' then Some (JBool False)
         else map_option normalize_schema (map_of es k)))
    | JArr i vs \<Rightarrow> normalize_schema v = JArr i (map normalize_schema vs)
    | _ \<Rightarrow> normalize_schema v = v) \<and>
   normalize_schema (normalize_schema v) = normalize_schema v"
proof -
  have again: "normalize_schema (normalize_schema v) = normalize_schema v"
    by (rule normal_fixed [OF normalize_normal])
  show ?thesis
  proof (cases v)
    case (JObj i es)
    show ?thesis unfolding JObj using normalized_keys [of i es] again by (simp add: JObj)
  qed (use again in \<open>simp_all add: normalize_schema.simps\<close>)
qed

text \<open>A small API description: the Pod refers to a type that refers back to it.\<close>

lemma bundle_example:
  "include_definitions (\<lambda>s. case s of JStr t \<Rightarrow> t | _ \<Rightarrow> [])
     [(lit ''Pod'', JStr (lit ''{#/definitions/Spec'' @ cu CHR 0x22 # lit ''}'')), (lit ''Spec'', JStr (lit ''#/definitions/Pod''))]
     [lit ''Pod''] [] = Inr [lit ''Pod'', lit ''Spec'']"
  by code_simp

end
