(* ===== verification/SmallPages.thy ===== *)
theory SmallPages
  imports Views Systems
begin

text \<open>
  The two static pages: \<open>portal.js\<close> of SignalForge (the clocks, the conversion of a timestamp, and the link
  to the Workbench of a host) and \<open>board.js\<close> of Service Pulse. What \<open>Intl.DateTimeFormat\<close> writes and
  what \<open>new Date\<close> makes of a text are parameters.
\<close>

section \<open>Timestamps (\<open>portal.js\<close>)\<close>

text \<open>A time is a number of milliseconds; it is \<open>None\<close> where \<open>getTime()\<close> is \<open>NaN\<close>.\<close>

record clock =
  zone :: jstr
  full_time :: "int \<Rightarrow> jstr"
  utc_time :: "int \<Rightarrow> jstr"
  date_of :: "jstr \<Rightarrow> int option"

text \<open>
  The regular expression of \<open>parseTimestamp\<close>, which is deterministic: \<open>skip\<close> takes the units of a pattern
  off a text, where a 9 stands for \<open>\d\<close> and letters are read in both cases.
\<close>

definition fits_unit :: "char \<Rightarrow> code_unit \<Rightarrow> bool" where
  "fits_unit c u \<longleftrightarrow> (if c = CHR ''9'' then is_digit u
     else if c = CHR ''T'' then u = cu CHR ''T'' \<or> u = cu CHR ''t''
     else if c = CHR ''Z'' then u = cu CHR ''Z'' \<or> u = cu CHR ''z'' else u = cu c)"

fun skip :: "string \<Rightarrow> jstr \<Rightarrow> jstr option" where
  "skip [] s = Some s"
| "skip (c # cs) (u # us) = (if fits_unit c u then skip cs us else None)"
| "skip (c # cs) [] = None"

definition is_zone :: "jstr \<Rightarrow> bool" where
  "is_zone s \<longleftrightarrow> skip ''Z'' s = Some [] \<or> skip ''+99:99'' s = Some [] \<or> skip ''-99:99'' s = Some []"

definition after_fraction :: "jstr \<Rightarrow> jstr" where
  "after_fraction s = (case skip ''.'' s of
       Some f \<Rightarrow> if takeWhile is_digit f \<noteq> [] \<and> length (takeWhile is_digit f) \<le> 9 then dropWhile is_digit f else s
     | None \<Rightarrow> s)"

definition timestamp_shape :: "jstr \<Rightarrow> bool" where
  "timestamp_shape s \<longleftrightarrow> (case skip ''9999-99-99T99:99'' s of
       None \<Rightarrow> False
     | Some r \<Rightarrow> (case skip '':99'' r of Some r' \<Rightarrow> is_zone (after_fraction r') | None \<Rightarrow> is_zone r))"

definition parse_timestamp :: "clock \<Rightarrow> jstr \<Rightarrow> int option" where
  "parse_timestamp clk v = (if timestamp_shape (trim v) then date_of clk (trim v) else None)"

definition middle_dot :: jstr where
  "middle_dot = [32, 0xB7, 32]"

definition convert :: "clock \<Rightarrow> jstr \<Rightarrow> jstr" where
  "convert clk v = (case parse_timestamp clk v of
       None \<Rightarrow> lit ''Use an ISO timestamp with an explicit zone, such as 2026-09-23T22:15:58Z.''
     | Some t \<Rightarrow> full_time clk t @ lit '' ('' @ zone clk @ lit '')'' @ middle_dot @ utc_time clk t)"

section \<open>The host of the Workbench (\<open>portal.js\<close>)\<close>

definition letter_or_digit :: "code_unit \<Rightarrow> bool" where
  "letter_or_digit u \<longleftrightarrow> is_digit u \<or> 65 \<le> u \<and> u \<le> 90 \<or> 97 \<le> u \<and> u \<le> 122"

definition host_unit :: "code_unit \<Rightarrow> bool" where
  "host_unit u \<longleftrightarrow> letter_or_digit u \<or> u = cu CHR ''.'' \<or> u = cu CHR ''-''"

definition host_name :: "jstr \<Rightarrow> bool" where
  "host_name s \<longleftrightarrow> s \<noteq> [] \<and> letter_or_digit (hd s) \<and> letter_or_digit (last s) \<and> list_all host_unit s"

definition valid_host :: "jstr \<Rightarrow> jstr" where
  "valid_host v = (if host_name (trim v) then trim v else [])"

definition repository_link :: jstr where
  "repository_link = lit ''https://github.com/wmstipes/The-Foundry-Initiative/tree/main/apps/forge-yaml-workbench''"

text \<open>The \<open>href\<close> of \<open>updateWorkbench\<close>; \<open>None\<close> is the exception of \<open>encodeURIComponent\<close>.\<close>

definition workbench_href :: "jstr \<Rightarrow> jstr option" where
  "workbench_href host = (if host \<noteq> []
     then map_option (\<lambda>t. lit ''http://'' @ t @ lit '':30081/'') (encode_uri host) else Some repository_link)"

text \<open>
  The page: what it shows, what is stored, and whether the script came to its end, so that the button
  that saves has its listener.
\<close>

record portal =
  zone_note :: jstr
  utc_now :: jstr
  local_now :: jstr
  utc_input :: jstr
  converted :: jstr
  host_input :: jstr
  host_complaint :: jstr
  stored_host :: "jstr option"
  workbench_link :: jstr
  save_listens :: bool

text \<open>
  The events. A read or write of \<open>localStorage\<close> may throw (storage that is disabled, or full): \<open>Save_host\<close> and
  \<open>Reload\<close> say whether it works.
\<close>

datatype portal_event =
    Tick int
  | Type_time jstr
  | Convert_click
  | Enter_key
  | Type_host jstr
  | Save_host bool
  | Edit_storage "jstr option"
  | Reload int bool

datatype ending = Completed | Threw

definition tick :: "clock \<Rightarrow> int \<Rightarrow> portal \<Rightarrow> portal" where
  "tick clk now p = p\<lparr>utc_now := utc_time clk now, local_now := full_time clk now\<rparr>"

text \<open>
  \<open>updateWorkbench\<close>, which leaves the link as it is if \<open>encodeURIComponent\<close> throws.
\<close>

definition update_workbench :: "jstr \<Rightarrow> portal \<Rightarrow> portal \<times> ending" where
  "update_workbench host p = (case workbench_href host of
       Some link \<Rightarrow> (p\<lparr>workbench_link := link\<rparr>, Completed)
     | None \<Rightarrow> (p, Threw))"

text \<open>
  The page as the script leaves it. The link of the document, before the script changes it, is the one to the
  repository; \<open>localStorage\<close> may have been written by anything. A script that throws has no listener for
  saving.
\<close>

definition loading_portal :: "clock \<Rightarrow> int \<Rightarrow> jstr option \<Rightarrow> portal" where
  "loading_portal clk now stored = tick clk now
     \<lparr>zone_note = lit ''Your device reports '' @ zone clk @ lit ''.'', utc_now = [], local_now = [],
      utc_input = [], converted = lit ''Enter a timestamp to see your local time.'', host_input = [], host_complaint = [],
      stored_host = stored, workbench_link = repository_link, save_listens = False\<rparr>"

definition load_portal :: "clock \<Rightarrow> int \<Rightarrow> jstr option \<Rightarrow> bool \<Rightarrow> portal \<times> ending" where
  "load_portal clk now stored allowed =
     (let p = loading_portal clk now stored in
      if \<not> allowed then (p, Threw)
      else let host = valid_host (case stored of Some s \<Rightarrow> s | None \<Rightarrow> []) in
        case update_workbench host (p\<lparr>host_input := host\<rparr>) of
          (q, Completed) \<Rightarrow> (q\<lparr>save_listens := True\<rparr>, Completed)
        | (q, Threw) \<Rightarrow> (q, Threw))"

definition save_host :: "bool \<Rightarrow> portal \<Rightarrow> portal \<times> ending" where
  "save_host writable p =
     (let host = trim (host_input p) in
      if host \<noteq> [] \<and> valid_host host = []
      then (p\<lparr>host_complaint := lit ''Enter a hostname or IPv4 address without a scheme, port, or path.''\<rparr>, Completed)
      else if \<not> writable then (p\<lparr>host_complaint := []\<rparr>, Threw)
      else update_workbench host (p\<lparr>host_complaint := [], stored_host := Some host\<rparr>))"

definition portal_react :: "clock \<Rightarrow> portal_event \<Rightarrow> portal \<Rightarrow> portal \<times> ending" where
  "portal_react clk e p = (case e of
       Tick now \<Rightarrow> (tick clk now p, Completed)
     | Type_time v \<Rightarrow> (p\<lparr>utc_input := v\<rparr>, Completed)
     | Convert_click \<Rightarrow> (p\<lparr>converted := convert clk (utc_input p)\<rparr>, Completed)
     | Enter_key \<Rightarrow> (p\<lparr>converted := convert clk (utc_input p)\<rparr>, Completed)
     | Type_host v \<Rightarrow> (p\<lparr>host_input := v\<rparr>, Completed)
     | Save_host writable \<Rightarrow> if save_listens p then save_host writable p else (p, Completed)
     | Edit_storage s \<Rightarrow> (p\<lparr>stored_host := s\<rparr>, Completed)
     | Reload now allowed \<Rightarrow> load_portal clk now (stored_host p) allowed)"

definition portal_initial :: "clock \<Rightarrow> portal \<Rightarrow> bool" where
  "portal_initial clk p \<longleftrightarrow> (\<exists>now stored allowed. p = fst (load_portal clk now stored allowed))"

definition portal_step :: "clock \<Rightarrow> portal \<Rightarrow> portal_event \<Rightarrow> portal \<Rightarrow> bool" where
  "portal_step clk p e p' \<longleftrightarrow> p' = fst (portal_react clk e p)"

interpretation portal: transition_system "portal_initial clk" "portal_step clk" for clk .

section \<open>The board (\<open>board.js\<close>)\<close>

text \<open>
  An answer of \<open>/api/status\<close>: the fetch or its body fails, the status is an error, or the samples, the
  newest first, with the texts that a template makes of their fields.
\<close>

record sample =
  observed_at :: jstr
  target :: jstr
  sample_result :: jstr
  duration_ms :: jstr
  reason :: jstr

datatype probe_answer = Fetch_failed | Error_status | Status bool "sample list"

record board =
  board_state :: jstr
  board_checks :: "(bool \<times> jstr) list"

definition check_row :: "sample \<Rightarrow> bool \<times> jstr" where
  "check_row s = (sample_result s = lit ''ok'',
     observed_at s @ middle_dot @ target s @ middle_dot @ sample_result s @ middle_dot @ duration_ms s @ lit '' ms'' @
       (if reason s \<noteq> [] then middle_dot @ reason s else []))"

definition board_text :: "bool \<Rightarrow> sample list \<Rightarrow> jstr" where
  "board_text fresh samples = (case samples of
       [] \<Rightarrow> lit ''Waiting for the first check''
     | s # _ \<Rightarrow> if \<not> fresh then lit ''Stale: last check at '' @ observed_at s
         else lit ''Latest: '' @ sample_result s @ lit '' ('' @ observed_at s @ lit '')'')"

definition refreshed :: "probe_answer \<Rightarrow> board" where
  "refreshed r = (case r of
       Status fresh samples \<Rightarrow> \<lparr>board_state = board_text fresh samples, board_checks = map check_row samples\<rparr>
     | _ \<Rightarrow> \<lparr>board_state = lit ''Probe unavailable; recent status cannot be confirmed.'', board_checks = []\<rparr>)"

section \<open>Laws\<close>

lemma host_unit_unreserved: "host_unit u \<Longrightarrow> unreserved u"
  by (auto simp: host_unit_def letter_or_digit_def unreserved_def lit_def cu_def)

lemma encode_host: "list_all host_unit s \<Longrightarrow> encode_uri s = Some s"
  by (induction s) (simp_all add: host_unit_unreserved)

text \<open>A text that is given to the link: nothing, or a name of a host.\<close>

lemma href_of_host: "s = [] \<or> host_name s \<Longrightarrow> workbench_href s =
    Some (if s = [] then repository_link else lit ''http://'' @ s @ lit '':30081/'')"
  by (auto simp: workbench_href_def host_name_def encode_host)

lemma valid_host_cases: "valid_host s = [] \<or> host_name (valid_host s)"
  by (simp add: valid_host_def)

definition safe_link :: "jstr \<Rightarrow> bool" where
  "safe_link link \<longleftrightarrow> link = repository_link \<or> (\<exists>h. host_name h \<and> link = lit ''http://'' @ h @ lit '':30081/'')"

lemma update_links: "s = [] \<or> host_name s \<Longrightarrow>
    \<exists>link. safe_link link \<and> update_workbench s p = (p\<lparr>workbench_link := link\<rparr>, Completed)"
proof -
  assume s: "s = [] \<or> host_name s"
  let ?link = "if s = [] then repository_link else lit ''http://'' @ s @ lit '':30081/''"
  have "safe_link ?link" using s by (auto simp: safe_link_def)
  moreover have "update_workbench s p = (p\<lparr>workbench_link := ?link\<rparr>, Completed)"
    by (simp only: update_workbench_def href_of_host [OF s] option.case)
  ultimately show ?thesis by blast
qed

lemma load_links: "safe_link (workbench_link (fst (load_portal clk now stored allowed))) \<and>
    (snd (load_portal clk now stored allowed) = Threw \<longleftrightarrow> \<not> allowed)"
proof (cases allowed)
  case True
  let ?host = "valid_host (case stored of Some s \<Rightarrow> s | None \<Rightarrow> [])"
  obtain link where "safe_link link" "update_workbench ?host ((loading_portal clk now stored)\<lparr>host_input := ?host\<rparr>) =
      ((loading_portal clk now stored)\<lparr>host_input := ?host, workbench_link := link\<rparr>, Completed)"
    using update_links [OF valid_host_cases] by blast
  then show ?thesis using True by (simp add: load_portal_def Let_def)
qed (simp add: load_portal_def loading_portal_def tick_def safe_link_def)

lemma prefix_trim_end: "prefix (trim_end s) s"
proof -
  have "suffix (dropWhile is_ws (rev s)) (rev s)" by (rule suffix_dropWhile)
  then show ?thesis by (simp add: trim_end_def suffix_to_prefix)
qed

lemma trim_trim [simp]: "trim (trim s) = trim s"
proof -
  define t where "t = dropWhile is_ws s"
  obtain z where t: "t = trim_end t @ z" using prefix_trim_end by (auto elim: prefixE)
  have "dropWhile is_ws (trim_end t) = trim_end t"
  proof (cases "trim_end t")
    case (Cons u us)
    then have "t = u # us @ z" using t by simp
    then have "\<not> is_ws u" using hd_dropWhile [of is_ws s] unfolding t_def [symmetric] by simp
    then show ?thesis by (simp add: Cons)
  qed simp
  then show ?thesis by (simp add: trim_def t_def [symmetric])
qed

lemma save_links:
  assumes "safe_link (workbench_link p)"
  shows "safe_link (workbench_link (fst (save_host writable p))) \<and> (snd (save_host writable p) = Threw \<longrightarrow> \<not> writable)"
proof -
  let ?host = "trim (host_input p)"
  consider "?host \<noteq> [] \<and> valid_host ?host = []" | "\<not> (?host \<noteq> [] \<and> valid_host ?host = [])" "\<not> writable"
    | "\<not> (?host \<noteq> [] \<and> valid_host ?host = [])" writable by blast
  then show ?thesis
  proof cases
    case 1
    then show ?thesis using assms by (simp add: save_host_def Let_def)
  next
    case 2
    then show ?thesis unfolding save_host_def Let_def if_not_P [OF 2(1)] using assms by simp
  next
    case 3
    let ?p = "p\<lparr>host_complaint := [], stored_host := Some ?host\<rparr>"
    have "?host = [] \<or> host_name ?host" using 3(1) by (auto simp: valid_host_def split: if_splits)
    then obtain link where "safe_link link" "update_workbench ?host ?p = (?p\<lparr>workbench_link := link\<rparr>, Completed)"
      using update_links by blast
    then show ?thesis unfolding save_host_def Let_def if_not_P [OF 3(1)] using 3(2) by simp
  qed
qed

lemma react_links:
  assumes "safe_link (workbench_link p)"
  shows "safe_link (workbench_link (fst (portal_react clk e p))) \<and>
    (snd (portal_react clk e p) = Threw \<longrightarrow> e = Save_host False \<or> (\<exists>now. e = Reload now False))"
proof (cases e)
  case (Reload now allowed)
  then show ?thesis using load_links by (simp add: portal_react_def)
next
  case (Save_host writable)
  then show ?thesis using save_links [OF assms, of writable] assms by (cases writable) (simp_all add: portal_react_def)
qed (use assms in \<open>simp_all add: portal_react_def tick_def\<close>)

lemma reachable_links: "portal.reachable clk p \<Longrightarrow> safe_link (workbench_link p)"
proof (rule portal.reachable_invariant [where I = "\<lambda>p. safe_link (workbench_link p)"])
  show "safe_link (workbench_link q)" if "portal_initial clk q" for q
    using that load_links unfolding portal_initial_def by blast
  show "safe_link (workbench_link r)" if "safe_link (workbench_link q)" "portal_step clk q e r" for q e r
    using react_links [OF that(1)] that(2) unfolding portal_step_def by blast
qed

subsection \<open>Timestamps\<close>

lemma suffix_skip: "skip cs s = Some r \<Longrightarrow> suffix r s"
  by (induction cs s rule: skip.induct) (auto intro: suffix_ConsI split: if_splits)

lemma suffix_after_fraction: "suffix (after_fraction s) s"
proof (cases "skip ''.'' s")
  case (Some f)
  then have "suffix (dropWhile is_digit f) s" by (rule suffix_order.trans [OF suffix_dropWhile suffix_skip])
  then show ?thesis by (simp add: after_fraction_def Some)
qed (simp add: after_fraction_def)

text \<open>A text without an explicit zone is never a date, whatever \<open>new Date\<close> would make of it.\<close>

lemma timestamps_name_their_zone:
  assumes "parse_timestamp clk v = Some t"
  shows "\<exists>z. suffix z (trim v) \<and> is_zone z"
proof -
  have "timestamp_shape (trim v)" using assms by (simp add: parse_timestamp_def split: if_splits)
  then obtain r where r: "suffix r (trim v)"
    "case skip '':99'' r of Some r' \<Rightarrow> is_zone (after_fraction r') | None \<Rightarrow> is_zone r"
    by (auto simp: timestamp_shape_def dest: suffix_skip split: option.splits)
  show ?thesis
  proof (cases "skip '':99'' r")
    case (Some r')
    then have "suffix (after_fraction r') (trim v)"
      using suffix_order.trans [OF suffix_after_fraction suffix_order.trans [OF suffix_skip r(1)]] by blast
    then show ?thesis using r(2) Some by auto
  qed (use r in auto)
qed

text \<open>The check lets more through than the names and IPv4 addresses the page asks for.\<close>

lemma hosts_that_are_none:
  "map valid_host [lit ''a..b'', lit ''a-.b'', lit ''999.1.2.3.4''] = [lit ''a..b'', lit ''a-.b'', lit ''999.1.2.3.4'']"
  by code_simp

section \<open>Properties\<close>

text \<open>C40: whatever is typed, saved, or written to the storage behind the page's back, and also after a read or
  write of the storage that throws, the link goes to the repository or to port 30081 of a text made of
  letters, digits, dots and dashes alone, so that no scheme, port, path or credentials can be put into it;
  and nothing but such a read or write makes a handler throw.\<close>

theorem portal_link_is_safe:
  assumes "portal.reachable clk p"
  shows "(workbench_link p = repository_link \<or>
      (\<exists>h. host_name h \<and> workbench_link p = lit ''http://'' @ h @ lit '':30081/'')) \<and>
    (snd (portal_react clk e p) = Threw \<longrightarrow> e = Save_host False \<or> (\<exists>now. e = Reload now False))"
proof -
  have link: "safe_link (workbench_link p)" using assms by (rule reachable_links)
  from react_links [OF this, of clk e] link show ?thesis unfolding safe_link_def by blast
qed

text \<open>An attempt on the link: a stored text with a path of its own, then a host that is saved and one with
  credentials that is not, then storage that is full.\<close>

definition demo_clock :: clock where
  "demo_clock = \<lparr>zone = lit ''UTC'', full_time = (\<lambda>t. lit ''now''), utc_time = (\<lambda>t. lit ''now''), date_of = (\<lambda>s. Some 0)\<rparr>"

definition portal_visit :: "portal_event list" where
  "portal_visit = [Type_host (lit ''box.local''), Save_host True, Type_host (lit ''me@evil.example''), Save_host True,
     Type_host (lit ''other''), Save_host False]"

definition visited_portal :: portal where
  "visited_portal = fold (\<lambda>e p. fst (portal_react demo_clock e p)) portal_visit
     (fst (load_portal demo_clock 0 (Some (lit ''evil.example/x'')) True))"

lemma visited_portal_reachable: "portal.reachable demo_clock visited_portal"
  unfolding visited_portal_def
proof (rule portal.reachable_visit [where offers = "\<lambda>p e. True"])
  show "visit_ok (\<lambda>p e. True) r q es" for r :: "portal_event \<Rightarrow> portal \<Rightarrow> portal" and q es
    by (induction es arbitrary: q) simp_all
qed (auto simp: portal_step_def portal_initial_def)

lemma portal_link_is_safe_witness:
  "workbench_link visited_portal = lit ''http://box.local:30081/'' \<and>
   snd (portal_react demo_clock (Save_host True) visited_portal) = Completed"
proof -
  have "workbench_link visited_portal = lit ''http://box.local:30081/''" by code_simp
  moreover have "snd (portal_react demo_clock (Save_host True) visited_portal) \<noteq> Threw"
    using portal_link_is_safe [OF visited_portal_reachable, of "Save_host True"] by auto
  ultimately show ?thesis by (cases "snd (portal_react demo_clock (Save_host True) visited_portal)") auto
qed

end
