(* ===== verification/Spec2Isabelle.thy ===== *)
theory Spec2Isabelle
  imports FormatDiff TreeSearch Freshness Keyboard Diagnostics SchemaBuild SmallPages
begin

text \<open>
  The JavaScript of The Foundry Initiative: the Forge YAML Workbench
  (\<open>src/apps/forge-yaml-workbench/src\<close>), a page that inspects YAML and Kubernetes manifests in the browser, with
  the script that builds its schema bundle; the web client of the ForgeOps Console
  (\<open>src/apps/forgeops-console/web/src\<close>); and two static pages, \<open>portal.js\<close> of SignalForge and \<open>board.js\<close> of
  Service Pulse.

  \<^bold>\<open>The program and its theories.\<close> A text goes through \<open>analyze.js\<close> to an analysis, which the views of
  \<open>main.js\<close> and the report of \<open>report.js\<close> present; the handlers of \<open>main.js\<close> keep text, analysis and views
  together. Texts are lists of UTF-16 code units (\<open>jstr\<close>, 16-bit words), JavaScript values are the datatype
  \<open>jsval\<close> with object identities, a function that may throw returns an option or a sum.

    \<^item> \<open>Prelude\<close>: strings and their operations as the sources use them (\<open>split\<close>, \<open>join\<close>, \<open>trim\<close>, \<open>slice\<close>,
      \<open>indexOf\<close>), literals, and the collections \<open>str_simps\<close>, \<open>rule_simps\<close>.
    \<^item> \<open>FormatDiff\<close>: \<open>format-diff.js\<close>, with the 32-bit alignment matrix and the walk through it; the preview is
      shown complete, minimal and free of overflow, against the recursive length of a longest common
      subsequence.
    \<^item> \<open>JsValue\<close>, \<open>TreeSearch\<close>: values, property access and coercions; \<open>tree-search.js\<close>: identifiers are
      unique, highlighting keeps the text, matches are exact where lower-casing is unit by unit.
    \<^item> \<open>Finding\<close>, \<open>Resource\<close>, \<open>Rules\<close>: \<open>analyze.js\<close> 1--256, the finding builders with their standards, the
      extraction of pods, containers and images, and the review rules in their order; where they throw,
      that they never read literal secrets, and that a clean container is a hardened one.
    \<^item> \<open>SchemaValidation\<close>: \<open>schema-validation.js\<close> over arbitrary validators; \<open>Summary\<close>: the summaries of
      \<open>analyze.js\<close> and the findings across documents; \<open>OwaspProfile\<close>: \<open>owasp-profile.js\<close>; \<open>Locations\<close>: paths
      and the nearest syntax node; \<open>Analyze\<close>: \<open>analyzeYaml\<close> and \<open>formatYaml\<close>, every document accounted for.
    \<^item> \<open>Markdown\<close>, \<open>Report\<close>: \<open>report.js\<close>, with readers of the CommonMark constructs it writes.
    \<^item> \<open>Views\<close>, \<open>Panels\<close>, \<open>Guidance\<close>: the HTML of \<open>main.js\<close> (cards, messages, the three tabs, the diff rows)
      and the example that travels through \<open>encodeURIComponent\<close> and \<open>decodeURIComponent\<close>; \<open>Totality\<close>: every
      analysis of tame values can be presented.
    \<^item> \<open>Systems\<close>: labelled transition systems and simulations as locales; \<open>Workbench\<close>: the page of \<open>main.js\<close>
      as a transition system, \<open>react\<close> being its listeners; \<open>PageLaws\<close>: what each handler leaves alone and the
      invariant; \<open>Session\<close>: the abstract editing session the page refines, operation by
      operation, and the requests that overtake each other; \<open>Freshness\<close>: the page shows the text that is in the editor; \<open>Keyboard\<close>: the two \<open>keydown\<close>
      listeners, the focus trap, the search navigation and the selection of a place.
    \<^item> \<open>SchemaBuild\<close>: \<open>scripts/build-kubernetes-schema.mjs\<close>, the definitions reached from the supported resources
      (against an inductive specification) and their normalisation.
    \<^item> \<open>Console\<close>: \<open>api.ts\<close>, \<open>compatibility.ts\<close> and the component of \<open>App.tsx\<close> as a transition system in which
      every request in flight may be answered at any time; \<open>Diagnostics\<close>: the panel of
      \<open>plugins/diagnostics.tsx\<close>. What is shown belongs to the scope and the selection shown with it, and late
      answers change nothing.
    \<^item> \<open>SmallPages\<close>: \<open>portal.js\<close>, whose link cannot be turned elsewhere by what is typed or stored, and
      \<open>board.js\<close>.

  \<^bold>\<open>Interfaces.\<close> Each interface is a locale, interpreted on the model where its provider is: \<open>line_alignment\<close> and
  \<open>optimal_alignment\<close> (what the walk and the replacement of a diff promise about the rows; \<open>FormatDiff\<close>),
  \<open>segment_code\<close> (paths that can be taken apart again; \<open>TreeSearch\<close>), \<open>finding_invariant\<close> (a property of
  findings that every rule and every later stage keeps; instances: coherence, encodability),
  \<open>transition_system\<close> and \<open>simulation\<close> (the page, its abstract session, the Console, its panel, the portal).

  \<^bold>\<open>Parameters.\<close> The record \<open>host\<close> holds what is not in the repository: the \<open>yaml\<close> package (\<open>parse\<close> with its
  nodes, problems and \<open>to_js\<close>; \<open>stringify\<close>, which may throw), the generated validators, and the case mappings of the locale.
  What is assumed of them is named in the theorems: values are tame (no null list items, images that can
  be searched, no own \<open>toString\<close>), validators report documented errors.

  \<^bold>\<open>Bounds and fuel.\<close> No definition uses fuel. Loops are structural or have measures; the walk of the diff and
  the search loop are partial functions whose returning is proved. The matrix cells are 32-bit words; below
  the alignment limit of a million cells no sum wraps. Line and column numbers, counters and the drag depth
  are natural numbers: the sources compare and add them far below \<open>2^53\<close>.

  \<^bold>\<open>Asynchrony.\<close> Reading a file and copying to the clipboard are two steps each, the request and the answer,
  with any other event in between; a handler that throws leaves what it has written so far. Dialogs cover
  the page, so that only their own controls are available while one is open; file arrivals, drags and
  copies still happen. The focus that the arrival of a dropped file gives to the editor under an open dialog is
  not followed. The search box may keep the focus under a dialog; its listener is modelled as it is.

  \<^bold>\<open>Not modelled.\<close> Focus (except inside dialogs), scrolling, layout and styles; blob and clipboard
  mechanics; the file of validators that \<open>ajv\<close> generates (it is a parameter) and the script that calls
  \<open>ajv\<close> and \<open>esbuild\<close> for it; of the Console, what JSX draws, the example card and the registry of plug-ins;
  the Go and Python services, which are other languages; manifests and documentation.
\<close>

end
